(* ===== verification/GoBase.thy ===== *)
theory GoBase
  imports Main "HOL-Library.Word" "HOL-Library.Finite_Map" "HOL-Library.Char_ord"
    "HOL-Library.List_Lexorder" "HOL-Library.Sublist"
begin

text \<open>
  The prelude: what the Go code uses of the language and of its standard library.

  \<^item> \<open>error\<close> values (an interface with a text; \<open>errors.New\<close>, \<open>fmt.Errorf("...: %w", e)\<close>,
    the context errors and the classified operating-system errors);
  \<^item> 64-bit signed arithmetic (\<open>wrap64\<close>), written out on \<open>int\<close>;
  \<^item> byte strings (\<open>string\<close> is a list of 8-bit \<open>char\<close>s, as a Go string is a
    sequence of bytes) with \<open>strings.Index\<close>, \<open>strings.ToLower\<close>, \<open>hex.EncodeToString\<close>;
  \<^item> Go maps as finite maps (\<open>fmap\<close>), read in key order by \<open>fmkeys\<close>;
  \<^item> JSON documents, for \<open>map[string]any\<close>.
\<close>

section \<open>Errors\<close>

datatype oserr = OsNotExist | OsExist | OsPermission | OsOther

datatype error =
    ErrMsg string
  | ErrWrap string error
  | ErrCanceled
  | ErrDeadline
  | ErrOS oserr string

fun errorText :: "error \<Rightarrow> string" where
  "errorText (ErrMsg m) = m"
| "errorText (ErrWrap p e) = p @ errorText e"
| "errorText ErrCanceled = ''context canceled''"
| "errorText ErrDeadline = ''context deadline exceeded''"
| "errorText (ErrOS k m) = m"

text \<open>\<open>errors.Is(e, os.ErrNotExist)\<close> and its kin follow the \<open>%w\<close> chain.\<close>

fun isOS :: "oserr \<Rightarrow> error \<Rightarrow> bool" where
  "isOS k (ErrWrap p e) = isOS k e"
| "isOS k (ErrOS k' m) = (k = k')"
| "isOS k _ = False"

fun isCanceled :: "error \<Rightarrow> bool" where
  "isCanceled (ErrWrap p e) = isCanceled e"
| "isCanceled ErrCanceled = True"
| "isCanceled _ = False"

section \<open>64-bit integers\<close>

definition wrap64 :: "int \<Rightarrow> int" where
  "wrap64 x = (x + 2 ^ 63) mod 2 ^ 64 - 2 ^ 63"

abbreviation (input) minInt64 :: int where
  "minInt64 \<equiv> - (2 ^ 63)"

abbreviation (input) maxInt64 :: int where
  "maxInt64 \<equiv> 2 ^ 63 - 1"

lemma wrap64_id [simp]: "minInt64 \<le> x \<Longrightarrow> x \<le> maxInt64 \<Longrightarrow> wrap64 x = x"
  by (simp add: wrap64_def)

lemma wrap64_range: "minInt64 \<le> wrap64 x" "wrap64 x \<le> maxInt64"
proof -
  have "(x + 2 ^ 63) mod 2 ^ 64 < 2 ^ 64" by (rule pos_mod_bound) simp
  then show "wrap64 x \<le> maxInt64" by (simp add: wrap64_def)
  have "0 \<le> (x + 2 ^ 63) mod 2 ^ 64" by (rule pos_mod_sign) simp
  then show "minInt64 \<le> wrap64 x" by (simp add: wrap64_def)
qed

section \<open>Strings\<close>

definition newline :: char where
  "newline = CHR 0x0A"

definition nul :: char where
  "nul = CHR 0x00"

definition asciiLower :: "char \<Rightarrow> char" where
  "asciiLower c = (if 65 \<le> (of_char c :: nat) \<and> (of_char c :: nat) \<le> 90 then char_of ((of_char c :: nat) + 32) else c)"

text \<open>
  \<open>strings.ToLower\<close>: exact on ASCII text. Bytes from 128 on are left alone; Go maps the
  non-ASCII code points they encode as well, which is not modelled.
\<close>

definition toLower :: "string \<Rightarrow> string" where
  "toLower s = map asciiLower s"

lemma length_toLower [simp]: "length (toLower s) = length s"
  by (simp add: toLower_def)

lemma toLower_append: "toLower (s @ t) = toLower s @ toLower t"
  by (simp add: toLower_def)

text \<open>\<open>strings.Index\<close>; \<open>None\<close> for the result \<open>-1\<close>.\<close>

fun indexOf :: "string \<Rightarrow> string \<Rightarrow> nat option" where
  "indexOf sub [] = (if sub = [] then Some 0 else None)"
| "indexOf sub (c # cs) =
     (if prefix sub (c # cs) then Some 0 else map_option Suc (indexOf sub cs))"

lemma indexOf_bound: "indexOf sub s = Some i \<Longrightarrow> i + length sub \<le> length s"
  by (induction s arbitrary: i) (auto split: if_splits dest: prefix_length_le)

lemma indexOf_prefix: "indexOf sub s = Some i \<Longrightarrow> prefix sub (drop i s)"
  by (induction s arbitrary: i) (auto split: if_splits)

lemma indexOf_occurs: "\<exists>i. indexOf sub (p @ sub @ t) = Some i \<and> i \<le> length p"
proof (induction p)
  case Nil
  have "prefix sub (sub @ t)" by simp
  then show ?case by (cases "sub @ t") auto
next
  case (Cons a p)
  then show ?case by auto
qed

text \<open>The first occurrence does not depend on what follows the text it was found in.\<close>

lemma indexOf_append: "indexOf sub s = Some i \<Longrightarrow> indexOf sub (s @ t) = Some i"
proof (induction s arbitrary: i)
  case Nil
  then have "sub = []" "i = 0" by (auto split: if_splits)
  then show ?case by (cases t) auto
next
  case (Cons a s)
  show ?case
  proof (cases "prefix sub (a # s)")
    case True
    then have "prefix sub ((a # s) @ t)" by (rule prefix_prefix)
    with Cons.prems True show ?thesis by simp
  next
    case False
    with Cons.prems obtain j where j: "indexOf sub s = Some j" "i = Suc j" by auto
    have "\<not> prefix sub (a # s @ t)"
    proof
      assume p: "prefix sub (a # s @ t)"
      have "length sub \<le> length (a # s)"
        using indexOf_bound [OF j(1)] by simp
      with p have "prefix sub (a # s)"
        by (metis append_Cons prefix_length_prefix prefixI)
      with False show False by contradiction
    qed
    with Cons.IH [OF j(1)] j(2) show ?thesis by simp
  qed
qed

definition hexDigit :: "nat \<Rightarrow> char" where
  "hexDigit n = ''0123456789abcdef'' ! (n mod 16)"

definition hexByte :: "char \<Rightarrow> string" where
  "hexByte c = [hexDigit ((of_char c :: nat) div 16), hexDigit ((of_char c :: nat) mod 16)]"

definition hexEncode :: "string \<Rightarrow> string" where
  "hexEncode s = concat (map hexByte s)"

lemma length_hexEncode: "length (hexEncode s) = 2 * length s"
  by (induction s) (simp_all add: hexEncode_def hexByte_def)

lemma hexDigit_inject: "a < 16 \<Longrightarrow> b < 16 \<Longrightarrow> hexDigit a = hexDigit b \<longleftrightarrow> a = b"
proof -
  have "inj_on hexDigit {..<16}" unfolding inj_on_def hexDigit_def by code_simp
  then show "a < 16 \<Longrightarrow> b < 16 \<Longrightarrow> hexDigit a = hexDigit b \<longleftrightarrow> a = b" by (auto dest: inj_onD)
qed

lemma hexByte_inject: "hexByte a = hexByte b \<longleftrightarrow> a = b"
proof
  assume eq: "hexByte a = hexByte b"
  have "(of_char c :: nat) < 256" for c
    by (metis of_char_mod_256 mod_less_divisor zero_less_numeral)
  then have lt: "(of_char c :: nat) div 16 < 16" for c by (simp add: less_mult_imp_div_less)
  have "(of_char a :: nat) div 16 = of_char b div 16 \<and> (of_char a :: nat) mod 16 = of_char b mod 16"
    using eq hexDigit_inject [OF lt lt, of a b] hexDigit_inject [of "of_char a mod 16" "of_char b mod 16"]
    by (simp add: hexByte_def)
  then have "(of_char a :: nat) = of_char b" by (metis div_mult_mod_eq)
  then show "a = b" by simp
qed simp

lemma hexEncode_inject: "hexEncode s = hexEncode t \<longleftrightarrow> s = t"
proof (induction s arbitrary: t)
  case Nil
  then show ?case by (cases t) (simp_all add: hexEncode_def hexByte_def)
next
  case (Cons a s)
  have step: "hexEncode (x # u) = hexByte x @ hexEncode u" "length (hexByte x) = 2" for x u
    by (simp_all add: hexEncode_def hexByte_def)
  show ?case
  proof (cases t)
    case Nil
    then show ?thesis by (simp add: hexEncode_def hexByte_def)
  next
    case (Cons b u)
    then show ?thesis using Cons.IH [of u] hexByte_inject [of a b] by (auto simp: step append_eq_append_conv)
  qed
qed

lemma in_map_filter: "y \<in> set (List.map_filter f xs) \<longleftrightarrow> (\<exists>x \<in> set xs. f x = Some y)"
  by (induction xs) (auto simp: map_filter_simps split: option.splits)

section \<open>Floating point values and JSON documents\<close>

text \<open>
  A \<open>float64\<close> is a rational number, an infinity or NaN. Comparison with 0 is the only
  arithmetic the core package's clients perform on a quota percentage.
\<close>

datatype float64 = FNaN | FInf bool | FFin rat

datatype json =
    JNull
  | JBool bool
  | JNum float64
  | JStr string
  | JArr "json list"
  | JObj "(string \<times> json) list"

section \<open>Maps\<close>

text \<open>
  Go maps are finite maps; reading a missing key gives the zero value. \<open>sort.Strings\<close> on
  the collected keys of a map gives \<open>fmkeys\<close>: Go compares strings bytewise, which is
  the lexicographic order on lists of characters.
\<close>

definition fmkeys :: "(string, 'v) fmap \<Rightarrow> string list" where
  "fmkeys m = sorted_list_of_fset (fmdom m)"

definition getOr :: "'v \<Rightarrow> (string, 'v) fmap \<Rightarrow> string \<Rightarrow> 'v" where
  "getOr z m k = (case fmlookup m k of None \<Rightarrow> z | Some v \<Rightarrow> v)"

lemma set_fmkeys [simp]: "set (fmkeys m) = fset (fmdom m)"
  by (simp add: fmkeys_def)

lemma distinct_fmkeys [simp]: "distinct (fmkeys m)"
  by (simp add: fmkeys_def sorted_list_of_fset.rep_eq)

lemma sorted_fmkeys [simp]: "sorted (fmkeys m)"
  by (simp add: fmkeys_def sorted_list_of_fset.rep_eq)

lemma getOr_upd [simp]: "getOr z (fmupd k v m) k' = (if k = k' then v else getOr z m k')"
  by (simp add: getOr_def)

lemma getOr_Some [simp]: "fmlookup m k = Some v \<Longrightarrow> getOr z m k = v"
  by (simp add: getOr_def)

lemma fmdom_mono_upd: "fmdom m |\<subseteq>| fmdom (fmupd k v m)"
  by auto

text \<open>Writing through a list of keys, one key after the other.\<close>

definition putAll :: "(string \<Rightarrow> 'v \<Rightarrow> 'v) \<Rightarrow> 'v \<Rightarrow> string list \<Rightarrow> (string, 'v) fmap \<Rightarrow> (string, 'v) fmap" where
  "putAll f z ks m = fold (\<lambda>k m. fmupd k (f k (getOr z m k)) m) ks m"

lemma putAll_Nil [simp]: "putAll f z [] m = m"
  by (simp add: putAll_def)

lemma putAll_Cons [simp]:
  "putAll f z (k # ks) m = putAll f z ks (fmupd k (f k (getOr z m k)) m)"
  by (simp add: putAll_def)

lemma fmdom_putAll [simp]: "fset (fmdom (putAll f z ks m)) = fset (fmdom m) \<union> set ks"
  by (induction ks arbitrary: m) auto

lemma fmlookup_putAll_other: "k \<notin> set ks \<Longrightarrow> fmlookup (putAll f z ks m) k = fmlookup m k"
  by (induction ks arbitrary: m) auto

lemma fmlookup_putAll_written: "k \<in> set ks \<Longrightarrow> \<exists>v. fmlookup (putAll f z ks m) k = Some (f k v)"
proof (induction ks arbitrary: m)
  case (Cons a ks)
  then show ?case by (cases "k \<in> set ks") (auto simp: fmlookup_putAll_other)
qed simp

lemma fmlookup_putAll:
  "distinct ks \<Longrightarrow> fmlookup (putAll f z ks m) k =
     (if k \<in> set ks then Some (f k (getOr z m k)) else fmlookup m k)"
  by (induction ks arbitrary: m) (auto simp: fmlookup_putAll_other getOr_def)

end
