(* ===== verification/GoTime.thy ===== *)
theory GoTime
  imports GoBase
begin

text \<open>
  The part of Go's \<open>time\<close> package the program uses.

  A \<open>time.Time\<close> is an instant: the nanoseconds since January 1, year 1, 00:00:00 UTC, so
  that the zero \<open>Time\<close> is 0 and \<open>IsZero\<close> is \<open>t = 0\<close>. The range of Go's representation
  (an \<open>int64\<close> of seconds) is some 292 billion years and is not bounded here: every instant
  of the program is a clock reading or a parsed RFC 3339 text, plus a few durations. The
  location of a time is presentation only and is not kept. A \<open>time.Duration\<close> is a 64-bit
  signed number of nanoseconds, and subtraction of times saturates at its ends.
\<close>

type_synonym time = int
type_synonym duration = int

abbreviation (input) zeroTime :: time where
  "zeroTime \<equiv> 0"

definition second :: duration where "second = 1000000000"
definition minute :: duration where "minute = 60 * second"
definition hour :: duration where "hour = 60 * minute"

lemmas duration_units = second_def minute_def hour_def

definition addTime :: "time \<Rightarrow> duration \<Rightarrow> time" where
  "addTime t d = t + d"

definition subTime :: "time \<Rightarrow> time \<Rightarrow> duration" where
  "subTime t u = max minInt64 (min maxInt64 (t - u))"

definition before :: "time \<Rightarrow> time \<Rightarrow> bool" where
  "before t u \<longleftrightarrow> t < u"

definition after :: "time \<Rightarrow> time \<Rightarrow> bool" where
  "after t u \<longleftrightarrow> u < t"

lemmas time_ops = addTime_def before_def after_def

section \<open>Formatting: time.RFC3339Nano in UTC\<close>

definition isLeap :: "int \<Rightarrow> bool" where
  "isLeap y \<longleftrightarrow> y mod 4 = 0 \<and> (y mod 100 \<noteq> 0 \<or> y mod 400 = 0)"

definition monthLengths :: "bool \<Rightarrow> int list" where
  "monthLengths leap = [31, if leap then 29 else 28, 31, 30, 31, 30, 31, 31, 30, 31, 30, 31]"

fun monthDay :: "int list \<Rightarrow> int \<Rightarrow> int \<Rightarrow> int \<times> int" where
  "monthDay [] m d = (m, d + 1)"
| "monthDay (l # ls) m d = (if d < l then (m, d + 1) else monthDay ls (m + 1) (d - l))"

text \<open>The proleptic Gregorian date of a number of days since January 1, year 1.\<close>

definition civilDate :: "int \<Rightarrow> int \<times> int \<times> int" where
  "civilDate days =
     (let c4 = days div 146097; r = days mod 146097;
          c1 = min (r div 36524) 3; r1 = r - c1 * 36524;
          y4 = r1 div 1461; r2 = r1 mod 1461;
          y1 = min (r2 div 365) 3; doy = r2 - y1 * 365;
          year = 400 * c4 + 100 * c1 + 4 * y4 + y1 + 1;
          (m, d) = monthDay (monthLengths (isLeap year)) 1 doy
      in (year, m, d))"

fun digitsOf :: "nat \<Rightarrow> nat \<Rightarrow> string" where
  "digitsOf 0 n = []"
| "digitsOf (Suc w) n = digitsOf w (n div 10) @ [hexDigit (n mod 10)]"

fun decimal :: "nat \<Rightarrow> string" where
  "decimal n = (if n < 10 then [hexDigit n] else decimal (n div 10) @ [hexDigit (n mod 10)])"

declare decimal.simps [simp del]

definition padTo :: "nat \<Rightarrow> nat \<Rightarrow> string" where
  "padTo w n = (if n < 10 ^ w then digitsOf w n else decimal n)"

definition appendInt :: "int \<Rightarrow> nat \<Rightarrow> string" where
  "appendInt x w = (if x < 0 then CHR ''-'' # padTo w (nat (- x)) else padTo w (nat x))"

definition nanoSuffix :: "int \<Rightarrow> string" where
  "nanoSuffix ns =
     (let ds = rev (dropWhile (\<lambda>c. c = CHR ''0'') (rev (digitsOf 9 (nat ns))))
      in if ds = [] then [] else CHR ''.'' # ds)"

definition formatRFC3339Nano :: "time \<Rightarrow> string" where
  "formatRFC3339Nano t =
     (let secs = t div 1000000000; ns = t mod 1000000000;
          days = secs div 86400; s = secs mod 86400;
          (y, m, d) = civilDate days
      in appendInt y 4 @ ''-'' @ appendInt m 2 @ ''-'' @ appendInt d 2 @ ''T''
           @ appendInt (s div 3600) 2 @ '':'' @ appendInt (s mod 3600 div 60) 2 @ '':''
           @ appendInt (s mod 60) 2 @ nanoSuffix ns @ ''Z'')"

text \<open>The Unix epoch, and the instant the test-suite starts from (\<open>time.Unix(20000, 0)\<close>).\<close>

definition unixTime :: "int \<Rightarrow> time" where
  "unixTime s = (s + 62135596800) * 1000000000"

lemma format_unix_20000: "formatRFC3339Nano (unixTime 20000) = ''1970-01-01T05:33:20Z''"
  by code_simp

end
