(* ===== verification/CoreModel.thy ===== *)
theory CoreModel
  imports GoTime
begin

text \<open>
  \<open>core/model.go\<close>: the data the whole program shares. Structs are records (each field
  carries its struct's prefix, since Go structs share field names and Isabelle selectors are
  global), string enumerations are datatypes with the source's constructors, and the adapter
  interfaces are records of functions. \<open>QuotaWindow.Valid\<close>, the durable keys
  (\<open>InstanceKey\<close>, \<open>WindowKey\<close>, \<open>NewCycleID\<close>) and \<open>normalizeWindows\<close> follow.

  The standard library's JSON and SHA-256 are fields of the record \<open>golib\<close>: the model
  never looks inside them.
\<close>

section \<open>Enumerations\<close>

datatype ProbeState =
    StateObserving
  | StateWaitingReset
  | StatePendingPrecheck
  | StateNormalReset
  | StateLazyDetected
  | StateActivationSending
  | StateActivationSent
  | StateSentUnknown
  | StateVerifying
  | StateConfirmed
  | StateRetryWait
  | StateAuthBlocked
  | StateUnsupported
  | StateDisabled
  | StateOther string \<comment> \<open>any other string a decoded document may hold, the zero value included\<close>

datatype AttemptPhase =
    AttemptPrepared
  | AttemptSending
  | AttemptSent
  | AttemptSentUnknown
  | AttemptCompleted
  | AttemptOther string

text \<open>
  The life of an attempt, as a linear order on its phases: the controller only moves a
  stored attempt upwards (or deletes a prepared one).
\<close>

fun phaseRank :: "AttemptPhase \<Rightarrow> nat" where
  "phaseRank (AttemptOther s) = 0"
| "phaseRank AttemptPrepared = 1"
| "phaseRank AttemptSending = 2"
| "phaseRank AttemptSent = 3"
| "phaseRank AttemptSentUnknown = 4"
| "phaseRank AttemptCompleted = 5"

section \<open>Credentials and observations\<close>

record Credential =
  cred_AuthID :: string
  cred_AuthIndex :: string
  cred_Provider :: string
  cred_Label :: string
  cred_Disabled :: bool
  cred_RuntimeOnly :: bool
  cred_Attributes :: "(string, string) fmap"
  cred_Metadata :: "(string, json) fmap"
  cred_RawJSON :: string

definition instanceKey :: "Credential \<Rightarrow> string \<Rightarrow> string \<Rightarrow> string" where
  "instanceKey c adapterID fingerprint =
     adapterID @ ''|'' @ cred_AuthIndex c @ ''|'' @ fingerprint"

text \<open>\<open>UsedPercent\<close> is a pointer: \<open>None\<close> when the provider omitted it.\<close>

record QuotaWindow =
  qw_Provider :: string
  qw_AuthID :: string
  qw_BucketID :: string
  qw_ModelFamily :: string
  qw_Scope :: string
  qw_UsedPercent :: "float64 option"
  qw_ResetAt :: time
  qw_WindowDuration :: duration
  qw_ObservedAt :: time
  qw_ServerTime :: time
  qw_ActivationGroup :: string
  qw_LazyHint :: bool
  qw_Complete :: bool

definition validWindow :: "QuotaWindow \<Rightarrow> bool" where
  "validWindow w \<longleftrightarrow>
     qw_BucketID w \<noteq> '''' \<and> qw_ResetAt w \<noteq> zeroTime \<and> qw_ObservedAt w \<noteq> zeroTime \<and>
     qw_WindowDuration w > 0 \<and> qw_Complete w"

record Observation =
  ob_Windows :: "QuotaWindow list"

record Baseline =
  bl_ResetAt :: time
  bl_WindowDuration :: duration
  bl_UsedPercent :: "float64 option"
  bl_ObservedAt :: time
  bl_CycleID :: string

section \<open>Durable records\<close>

record WindowRecord =
  wr_Key :: string
  wr_InstanceKey :: string
  wr_Provider :: string
  wr_AuthID :: string
  wr_BucketID :: string
  wr_ModelFamily :: string
  wr_ActivationGroup :: string
  wr_CredentialFP :: string
  wr_Baseline :: Baseline
  wr_Latest :: QuotaWindow
  wr_State :: ProbeState
  wr_LastProbe :: time
  wr_NextCheck :: time
  wr_LastActivation :: time
  wr_LastResult :: string
  wr_RetryCount :: int
  wr_ActiveAttemptID :: string
  wr_ActivationDisabled :: bool

record ProbeAttempt =
  pa_ID :: string
  pa_InstanceKey :: string
  pa_Provider :: string
  pa_AuthID :: string
  pa_AuthIndex :: string
  pa_CredentialFP :: string
  pa_ActivationGroup :: string
  pa_WindowKeys :: "string list"
  pa_CycleIDs :: "string list"
  pa_Phase :: AttemptPhase
  pa_CreatedAt :: time
  pa_SendingAt :: time
  pa_SentAt :: time
  pa_VerifyNotBefore :: time
  pa_SuppressUntil :: time
  pa_LastError :: string

record CycleLedgerEntry =
  cl_CycleID :: string
  cl_AttemptID :: string
  cl_SendingAt :: time
  cl_SendOutcome :: string

text \<open>Zero values, which is what a Go map gives for a key it does not hold.\<close>

definition zeroBaseline :: Baseline where
  "zeroBaseline = \<lparr>bl_ResetAt = zeroTime, bl_WindowDuration = 0, bl_UsedPercent = None,
     bl_ObservedAt = zeroTime, bl_CycleID = ''''\<rparr>"

definition zeroQuotaWindow :: QuotaWindow where
  "zeroQuotaWindow = \<lparr>qw_Provider = '''', qw_AuthID = '''', qw_BucketID = '''',
     qw_ModelFamily = '''', qw_Scope = '''', qw_UsedPercent = None, qw_ResetAt = zeroTime,
     qw_WindowDuration = 0, qw_ObservedAt = zeroTime, qw_ServerTime = zeroTime,
     qw_ActivationGroup = '''', qw_LazyHint = False, qw_Complete = False\<rparr>"

definition zeroWindowRecord :: WindowRecord where
  "zeroWindowRecord = \<lparr>wr_Key = '''', wr_InstanceKey = '''', wr_Provider = '''',
     wr_AuthID = '''', wr_BucketID = '''', wr_ModelFamily = '''', wr_ActivationGroup = '''',
     wr_CredentialFP = '''', wr_Baseline = zeroBaseline, wr_Latest = zeroQuotaWindow,
     wr_State = StateOther '''', wr_LastProbe = zeroTime, wr_NextCheck = zeroTime,
     wr_LastActivation = zeroTime, wr_LastResult = '''', wr_RetryCount = 0,
     wr_ActiveAttemptID = '''', wr_ActivationDisabled = False\<rparr>"

definition zeroLedgerEntry :: CycleLedgerEntry where
  "zeroLedgerEntry = \<lparr>cl_CycleID = '''', cl_AttemptID = '''', cl_SendingAt = zeroTime,
     cl_SendOutcome = ''''\<rparr>"

section \<open>Activation\<close>

record ActivationRequest =
  rq_Method :: string
  rq_URL :: string
  rq_Headers :: "(string, string list) fmap"
  rq_Body :: string

record ActivationPlan =
  pl_Group :: string
  pl_Request :: ActivationRequest
  pl_WindowKeys :: "string list"
  pl_TargetModel :: string
  pl_MaxInput :: int
  pl_MaxOutput :: int

record VerifyResult =
  vr_Confirmed :: bool
  vr_Reason :: string

text \<open>
  The interfaces \<open>Adapter\<close> and \<open>ActivationAdapter\<close>. A read of the quota and the making
  of a plan reach outside the program (HTTP, randomness), and a fingerprint may range over the
  maps of a JSON document in any order, so these take the number of the call: two calls may
  differ. The type test \<open>adapter.(ActivationAdapter)\<close> is the
  optional field \<open>ad_Activation\<close>.
\<close>

record ActivationOps =
  ac_CanActivate :: "QuotaWindow \<Rightarrow> bool"
  ac_PlanActivation :: "nat \<Rightarrow> Credential \<Rightarrow> WindowRecord list \<Rightarrow> error + ActivationPlan"
  ac_VerifyActivation :: "Baseline \<Rightarrow> QuotaWindow \<Rightarrow> VerifyResult"

record Adapter =
  ad_ID :: string
  ad_Match :: "Credential \<Rightarrow> bool"
  ad_Fingerprint :: "nat \<Rightarrow> Credential \<Rightarrow> error + string"
  ad_ReadQuota :: "nat \<Rightarrow> Credential \<Rightarrow> error + Observation"
  ad_Activation :: "ActivationOps option"

section \<open>Persistent state\<close>

text \<open>
  \<open>PersistentState\<close> of \<open>core/store.go\<close>. A state the program works on has its three maps
  (\<open>normalizeState\<close> sees to it); a freshly decoded one may have nil maps, which is
  \<open>RawState\<close>.
\<close>

record PersistentState =
  ps_Version :: int
  ps_Sequence :: "64 word"
  ps_Windows :: "(string, WindowRecord) fmap"
  ps_Attempts :: "(string, ProbeAttempt) fmap"
  ps_CycleLedger :: "(string, CycleLedgerEntry) fmap"

record RawState =
  rs_Version :: int
  rs_Sequence :: "64 word"
  rs_Windows :: "(string, WindowRecord) fmap option"
  rs_Attempts :: "(string, ProbeAttempt) fmap option"
  rs_CycleLedger :: "(string, CycleLedgerEntry) fmap option"

record StateEnvelope =
  en_State :: RawState
  en_Checksum :: string

text \<open>
  The standard library as the store and the keys use it: \<open>sha256.Sum256\<close>, and
  \<open>encoding/json\<close> at the two types the store encodes.
\<close>

record golib =
  sha256Sum :: "string \<Rightarrow> string"
  marshalState :: "RawState \<Rightarrow> error + string"
  unmarshalState :: "string \<Rightarrow> error + RawState"
  marshalEnvelope :: "StateEnvelope \<Rightarrow> error + string"
  marshalIndentEnvelope :: "StateEnvelope \<Rightarrow> error + string"
  unmarshalEnvelope :: "string \<Rightarrow> error + StateEnvelope"

section \<open>Keys\<close>

definition windowKey :: "string \<Rightarrow> string \<Rightarrow> string" where
  "windowKey ik bucketID = ik @ ''|'' @ bucketID"

definition cyclePreimage :: "string \<Rightarrow> string \<Rightarrow> time \<Rightarrow> string" where
  "cyclePreimage ik bucketID resetAt =
     ik @ [nul] @ bucketID @ [nul] @ formatRFC3339Nano resetAt"

definition newCycleID :: "golib \<Rightarrow> string \<Rightarrow> string \<Rightarrow> time \<Rightarrow> string" where
  "newCycleID L ik bucketID resetAt =
     hexEncode (take 16 (sha256Sum L (cyclePreimage ik bucketID resetAt)))"

lemma windowKey_inject [simp]: "windowKey ik b = windowKey ik b' \<longleftrightarrow> b = b'"
  by (simp add: windowKey_def)

section \<open>Normalising an observation\<close>

text \<open>
  \<open>fmt\<close>'s \<open>%q\<close> on a bucket identifier, for the error texts: exact for printable ASCII,
  quotes and backslashes; other bytes are kept as they are.
\<close>

fun quoteChars :: "string \<Rightarrow> string" where
  "quoteChars [] = []"
| "quoteChars (c # cs) =
     (if c = CHR 0x22 \<or> c = CHR 0x5C then CHR 0x5C # c # quoteChars cs else c # quoteChars cs)"

definition goQuote :: "string \<Rightarrow> string" where
  "goQuote s = [CHR 0x22] @ quoteChars s @ [CHR 0x22]"

text \<open>The checking loop, with the buckets seen so far.\<close>

fun checkWindows :: "string list \<Rightarrow> QuotaWindow list \<Rightarrow> error option" where
  "checkWindows seen [] = None"
| "checkWindows seen (w # ws) =
     (if \<not> validWindow w then
        Some (ErrMsg (''invalid quota window '' @ goQuote (qw_BucketID w)))
      else if qw_BucketID w \<in> set seen then
        Some (ErrMsg (''duplicate quota bucket '' @ goQuote (qw_BucketID w)))
      else checkWindows (qw_BucketID w # seen) ws)"

definition normalizeWindows :: "QuotaWindow list \<Rightarrow> error + QuotaWindow list" where
  "normalizeWindows ws =
     (case checkWindows [] ws of
        Some e \<Rightarrow> Inl e
      | None \<Rightarrow> Inr (sort_key qw_BucketID ws))"

lemma checkWindows_None:
  "checkWindows seen ws = None \<longleftrightarrow>
     (\<forall>w \<in> set ws. validWindow w) \<and> distinct (map qw_BucketID ws) \<and>
     set (map qw_BucketID ws) \<inter> set seen = {}"
  by (induction ws arbitrary: seen) auto

lemma normalizeWindows_Inr:
  "normalizeWindows ws = Inr out \<longleftrightarrow>
     (\<forall>w \<in> set ws. validWindow w) \<and> distinct (map qw_BucketID ws) \<and>
     out = sort_key qw_BucketID ws"
proof -
  have "checkWindows [] ws = None \<longleftrightarrow>
      (\<forall>w \<in> set ws. validWindow w) \<and> distinct (map qw_BucketID ws)"
    by (simp add: checkWindows_None)
  then show ?thesis
    by (cases "checkWindows [] ws") (auto simp: normalizeWindows_def)
qed

lemma normalizeWindows_out:
  assumes "normalizeWindows ws = Inr out"
  shows "set out = set ws" "length out = length ws" "sorted (map qw_BucketID out)"
    "distinct (map qw_BucketID out)" "\<forall>w \<in> set out. validWindow w"
proof -
  note ok = assms [unfolded normalizeWindows_Inr]
  then show "set out = set ws" "length out = length ws" "sorted (map qw_BucketID out)"
    "\<forall>w \<in> set out. validWindow w" "distinct (map qw_BucketID out)"
    by (auto simp: distinct_map)
qed

end
