(* ===== verification/DurableStore.thy ===== *)
theory DurableStore
  imports CoreModel
begin

text \<open>
  \<open>core/store.go\<close> and \<open>core/store_replace_*.go\<close>: the crash-safe store. The file system
  is a finite map from paths to byte strings; every system call of \<open>persist\<close> and
  \<open>load\<close> has its outcome in a record of faults, so that each early return is a branch.
  A crash inside \<open>persist\<close> leaves the files as they are when the call it was about to make
  fails and the clean-up does nothing, so quantifying over the faults covers every crash point
  between two system calls and every torn write.

  Not modelled: file permissions and modes, and the reordering of directory operations by the
  file system (a rename that succeeded is durable).
\<close>

section \<open>State values\<close>

definition stateVersion :: int where
  "stateVersion = 1"

definition emptyState :: PersistentState where
  "emptyState = \<lparr>ps_Version = stateVersion, ps_Sequence = 0, ps_Windows = fmempty,
     ps_Attempts = fmempty, ps_CycleLedger = fmempty\<rparr>"

definition toRaw :: "PersistentState \<Rightarrow> RawState" where
  "toRaw s = \<lparr>rs_Version = ps_Version s, rs_Sequence = ps_Sequence s,
     rs_Windows = Some (ps_Windows s), rs_Attempts = Some (ps_Attempts s),
     rs_CycleLedger = Some (ps_CycleLedger s)\<rparr>"

definition orEmpty :: "(string, 'v) fmap option \<Rightarrow> (string, 'v) fmap" where
  "orEmpty m = (case m of None \<Rightarrow> fmempty | Some x \<Rightarrow> x)"

definition normalizeState :: "RawState \<Rightarrow> PersistentState" where
  "normalizeState r = \<lparr>ps_Version = rs_Version r, ps_Sequence = rs_Sequence r,
     ps_Windows = orEmpty (rs_Windows r), ps_Attempts = orEmpty (rs_Attempts r),
     ps_CycleLedger = orEmpty (rs_CycleLedger r)\<rparr>"

definition zeroRawState :: RawState where
  "zeroRawState = \<lparr>rs_Version = 0, rs_Sequence = 0, rs_Windows = None, rs_Attempts = None,
     rs_CycleLedger = None\<rparr>"

lemma normalize_toRaw [simp]: "normalizeState (toRaw s) = s"
  by (simp add: normalizeState_def toRaw_def orEmpty_def)

text \<open>
  The deep copy by a JSON round trip. Both errors are dropped by the code: a state
  \<open>json.Marshal\<close> refuses is copied to the normalised zero state.
\<close>

definition cloneState :: "golib \<Rightarrow> PersistentState \<Rightarrow> PersistentState" where
  "cloneState L s =
     (case marshalState L (toRaw s) of
        Inl _ \<Rightarrow> normalizeState zeroRawState
      | Inr raw \<Rightarrow>
          (case unmarshalState L raw of
             Inl _ \<Rightarrow> normalizeState zeroRawState
           | Inr out \<Rightarrow> normalizeState out))"

definition checksumState :: "golib \<Rightarrow> RawState \<Rightarrow> error + string" where
  "checksumState L r =
     (case marshalState L r of Inl e \<Rightarrow> Inl e | Inr raw \<Rightarrow> Inr (hexEncode (sha256Sum L raw)))"

definition decodeEnvelope :: "golib \<Rightarrow> string \<Rightarrow> error + PersistentState" where
  "decodeEnvelope L raw =
     (case unmarshalEnvelope L raw of
        Inl e \<Rightarrow> Inl e
      | Inr env \<Rightarrow>
          if checksumState L (en_State env) \<noteq> Inr (en_Checksum env)
          then Inl (ErrMsg ''state checksum mismatch'')
          else if rs_Version (en_State env) \<noteq> stateVersion
          then Inl (ErrMsg (''unsupported state version '' @ appendInt (rs_Version (en_State env)) 1))
          else Inr (normalizeState (en_State env)))"

section \<open>Files\<close>

type_synonym fs = "(string, string) fmap"

datatype goos = Unix | Windows

definition walPath :: "string \<Rightarrow> string" where "walPath path = path @ ''.wal''"
definition tmpPath :: "string \<Rightarrow> string" where "tmpPath path = path @ ''.tmp''"
definition prevPath :: "string \<Rightarrow> string" where "prevPath path = path @ ''.previous''"

lemma paths_distinct [simp]:
  "walPath p \<noteq> p" "p \<noteq> walPath p" "tmpPath p \<noteq> p" "p \<noteq> tmpPath p" "prevPath p \<noteq> p" "p \<noteq> prevPath p"
  "walPath p \<noteq> tmpPath p" "tmpPath p \<noteq> walPath p" "walPath p \<noteq> prevPath p" "prevPath p \<noteq> walPath p"
  "tmpPath p \<noteq> prevPath p" "prevPath p \<noteq> tmpPath p"
  by (simp_all add: walPath_def tmpPath_def prevPath_def)

record persistIO =
  io_mkdir :: "error option"
  io_walOpen :: "error option"
  io_walWrite :: "(nat \<times> error) option" \<comment> \<open>bytes written before the error\<close>
  io_walSync :: "error option"
  io_walClose :: "error option"
  io_tmpOpen :: "error option"
  io_tmpWrite :: "(nat \<times> error) option"
  io_tmpSync :: "error option"
  io_tmpClose :: "error option"
  io_rename :: "error option"
  io_rmPrevious :: bool
  io_toBackup :: "error option"
  io_rename2 :: "error option"
  io_restore :: "error option"
  io_rmBackup :: bool
  io_rmTmp :: bool
  io_rmWal :: bool

definition goodIO :: persistIO where
  "goodIO = \<lparr>io_mkdir = None, io_walOpen = None, io_walWrite = None, io_walSync = None,
     io_walClose = None, io_tmpOpen = None, io_tmpWrite = None, io_tmpSync = None,
     io_tmpClose = None, io_rename = None, io_rmPrevious = True, io_toBackup = None,
     io_rename2 = None, io_restore = None, io_rmBackup = True, io_rmTmp = True, io_rmWal = True\<rparr>"

definition removeFile :: "bool \<Rightarrow> string \<Rightarrow> fs \<Rightarrow> fs" where
  "removeFile ok p f = (if ok then fmdrop p f else f)"

definition renameFile :: "error option \<Rightarrow> string \<Rightarrow> string \<Rightarrow> fs \<Rightarrow> error option \<times> fs" where
  "renameFile fault src tgt f =
     (case fault of
        Some e \<Rightarrow> (Some e, f)
      | None \<Rightarrow>
          (case fmlookup f src of
             None \<Rightarrow> (Some (ErrOS OsNotExist ''no such file or directory''), f)
           | Some b \<Rightarrow> (None, fmupd tgt b (fmdrop src f))))"

definition replaceUnix :: "persistIO \<Rightarrow> string \<Rightarrow> string \<Rightarrow> fs \<Rightarrow> error option \<times> fs" where
  "replaceUnix io src tgt f = renameFile (io_rename io) src tgt f"

definition replaceWindows :: "persistIO \<Rightarrow> string \<Rightarrow> string \<Rightarrow> fs \<Rightarrow> error option \<times> fs" where
  "replaceWindows io src tgt f =
     (case renameFile (io_rename io) src tgt f of
        (None, f1) \<Rightarrow> (None, f1)
      | (Some err, f1) \<Rightarrow>
          if \<not> isOS OsExist err \<and> \<not> isOS OsPermission err then (Some err, f1)
          else
            (let backup = prevPath tgt;
                 f2 = removeFile (io_rmPrevious io) backup f1;
                 (moveErr, f3) = renameFile (io_toBackup io) tgt backup f2
             in if moveErr \<noteq> None \<and> \<not> isOS OsNotExist (the moveErr) then (Some err, f3)
                else
                  (case renameFile (io_rename2 io) src tgt f3 of
                     (Some moveErr2, f4) \<Rightarrow>
                       (Some moveErr2, snd (renameFile (io_restore io) backup tgt f4))
                   | (None, f4) \<Rightarrow> (None, removeFile (io_rmBackup io) backup f4))))"

definition replaceFile :: "goos \<Rightarrow> persistIO \<Rightarrow> string \<Rightarrow> string \<Rightarrow> fs \<Rightarrow> error option \<times> fs" where
  "replaceFile os = (case os of Unix \<Rightarrow> replaceUnix | Windows \<Rightarrow> replaceWindows)"

text \<open>The result of \<open>persist\<close> is its error, if any, and the files it leaves.\<close>

definition appendFile :: "string \<Rightarrow> string \<Rightarrow> fs \<Rightarrow> fs" where
  "appendFile p b f = fmupd p (getOr [] f p @ b) f"

definition persistSnapshot :: "goos \<Rightarrow> persistIO \<Rightarrow> string \<Rightarrow> string \<Rightarrow> fs \<Rightarrow> error option \<times> fs" where
  "persistSnapshot os io path raw f =
     (let tmp = tmpPath path;
          cleanup = (\<lambda>e g. (Some e, removeFile (io_rmTmp io) tmp g))
      in case io_tmpOpen io of
           Some e \<Rightarrow> (Some e, f)
         | None \<Rightarrow>
             (case io_tmpWrite io of
                Some (k, e) \<Rightarrow> cleanup e (fmupd tmp (take k raw) f)
              | None \<Rightarrow>
                  (let f1 = fmupd tmp raw f
                   in case io_tmpSync io of
                        Some e \<Rightarrow> cleanup e f1
                      | None \<Rightarrow>
                          (case io_tmpClose io of
                             Some e \<Rightarrow> cleanup e f1
                           | None \<Rightarrow>
                               (case replaceFile os io tmp path f1 of
                                  (Some e, f2) \<Rightarrow> cleanup e f2
                                | (None, f2) \<Rightarrow>
                                    (None, removeFile (io_rmWal io) (walPath path) f2))))))"

definition persist :: "golib \<Rightarrow> goos \<Rightarrow> persistIO \<Rightarrow> string \<Rightarrow> PersistentState \<Rightarrow> fs \<Rightarrow> error option \<times> fs" where
  "persist L os io path state f =
     (case checksumState L (toRaw state) of
        Inl e \<Rightarrow> (Some e, f)
      | Inr checksum \<Rightarrow>
     (let envelope = \<lparr>en_State = toRaw state, en_Checksum = checksum\<rparr>
      in case marshalEnvelope L envelope of
           Inl e \<Rightarrow> (Some e, f)
         | Inr walRaw \<Rightarrow>
     (case io_mkdir io of
        Some e \<Rightarrow> (Some e, f)
      | None \<Rightarrow>
     (case io_walOpen io of
        Some e \<Rightarrow> (Some e, f)
      | None \<Rightarrow>
     (let wal = walPath path; line = walRaw @ [newline]
      in case io_walWrite io of
           Some (k, e) \<Rightarrow> (Some e, appendFile wal (take k line) f)
         | None \<Rightarrow>
     (let f1 = appendFile wal line f
      in case io_walSync io of
           Some e \<Rightarrow> (Some e, f1)
         | None \<Rightarrow>
     (case io_walClose io of
        Some e \<Rightarrow> (Some e, f1)
      | None \<Rightarrow>
     (case marshalIndentEnvelope L envelope of
        Inl e \<Rightarrow> (Some e, f1)
      | Inr raw \<Rightarrow> persistSnapshot os io path (raw @ [newline]) f1))))))))"

section \<open>Loading\<close>

text \<open>\<open>bufio.ScanLines\<close>, with the scanner's limit of 16 MB for a line.\<close>

definition scanLimit :: nat where
  "scanLimit = 16 * 1024 * 1024"

fun rawLines :: "string \<Rightarrow> string \<Rightarrow> string list" where
  "rawLines cur [] = (if cur = [] then [] else [cur])"
| "rawLines cur (c # cs) = (if c = newline then cur # rawLines [] cs else rawLines (cur @ [c]) cs)"

definition dropCR :: "string \<Rightarrow> string" where
  "dropCR s = (if s \<noteq> [] \<and> last s = CHR 0x0D then butlast s else s)"

definition scanTokens :: "string \<Rightarrow> string list" where
  "scanTokens raw = map dropCR (takeWhile (\<lambda>l. length l < scanLimit) (rawLines [] raw))"

definition scanTooLong :: "string \<Rightarrow> bool" where
  "scanTooLong raw \<longleftrightarrow> (\<exists>l \<in> set (rawLines [] raw). \<not> length l < scanLimit)"

text \<open>One token of the scan: the newest valid candidate wins, the later one of equals.\<close>

definition replayStep :: "golib \<Rightarrow> string \<Rightarrow> PersistentState \<times> bool \<Rightarrow> PersistentState \<times> bool" where
  "replayStep L token bf =
     (case bf of (best, found) \<Rightarrow>
        (case decodeEnvelope L token of
           Inl _ \<Rightarrow> (best, found)
         | Inr candidate \<Rightarrow>
             if \<not> found \<or> ps_Sequence candidate \<ge> ps_Sequence best
             then (candidate, True) else (best, found)))"

record loadIO =
  lo_readErr :: "error option"
  lo_openErr :: "error option"
  lo_scanErr :: "error option"
  lo_closeErr :: "error option"

definition goodLoad :: loadIO where
  "goodLoad = \<lparr>lo_readErr = None, lo_openErr = None, lo_scanErr = None, lo_closeErr = None\<rparr>"

definition openFile :: "error option \<Rightarrow> string \<Rightarrow> fs \<Rightarrow> error + string" where
  "openFile fault p f =
     (case fault of
        Some e \<Rightarrow> Inl e
      | None \<Rightarrow>
          (case fmlookup f p of
             None \<Rightarrow> Inl (ErrOS OsNotExist ''no such file or directory'')
           | Some b \<Rightarrow> Inr b))"

definition loadSnapshot :: "golib \<Rightarrow> loadIO \<Rightarrow> string \<Rightarrow> fs \<Rightarrow> error + PersistentState \<times> bool" where
  "loadSnapshot L lio path f =
     (case openFile (lo_readErr lio) path f of
        Inr raw \<Rightarrow>
          (case decodeEnvelope L raw of
             Inr candidate \<Rightarrow> Inr (candidate, True)
           | Inl decodeErr \<Rightarrow>
               if fmlookup f (walPath path) = None then Inl (ErrWrap ''decode state: '' decodeErr)
               else Inr (emptyState, False))
      | Inl e \<Rightarrow>
          if isOS OsNotExist e then Inr (emptyState, False) else Inl (ErrWrap ''read state: '' e))"

definition loadWal :: "golib \<Rightarrow> loadIO \<Rightarrow> string \<Rightarrow> fs \<Rightarrow> PersistentState \<times> bool \<Rightarrow> error + PersistentState \<times> bool" where
  "loadWal L lio path f bf =
     (case openFile (lo_openErr lio) (walPath path) f of
        Inr raw \<Rightarrow>
          (if scanTooLong raw then Inl (ErrWrap ''read state WAL: '' (ErrMsg ''bufio.Scanner: token too long''))
           else
             (case lo_scanErr lio of
                Some e \<Rightarrow> Inl (ErrWrap ''read state WAL: '' e)
              | None \<Rightarrow>
                  (case lo_closeErr lio of
                     Some e \<Rightarrow> Inl (ErrWrap ''close state WAL: '' e)
                   | None \<Rightarrow> Inr (fold (replayStep L) (scanTokens raw) bf))))
      | Inl e \<Rightarrow>
          if isOS OsNotExist e then Inr bf else Inl (ErrWrap ''open state WAL: '' e))"

definition load :: "golib \<Rightarrow> loadIO \<Rightarrow> string \<Rightarrow> fs \<Rightarrow> error + PersistentState" where
  "load L lio path f =
     (case loadSnapshot L lio path f of
        Inl e \<Rightarrow> Inl e
      | Inr bf \<Rightarrow>
          (case loadWal L lio path f bf of
             Inl e \<Rightarrow> Inl e
           | Inr (best, found) \<Rightarrow>
               if \<not> found
               then (if fmlookup f path \<noteq> None
                     then Inl (ErrMsg ''no valid state snapshot or WAL entry'')
                     else Inr emptyState)
               else Inr best))"

section \<open>The store\<close>

record Store =
  st_path :: string
  st_state :: PersistentState

definition newStore :: "golib \<Rightarrow> loadIO \<Rightarrow> string \<Rightarrow> fs \<Rightarrow> error + Store" where
  "newStore L lio path f =
     (if path = '''' then Inl (ErrMsg ''state path is required'')
      else
        (case load L lio path f of
           Inl e \<Rightarrow> Inl e
         | Inr s \<Rightarrow> Inr \<lparr>st_path = path, st_state = s\<rparr>))"

definition snapshot :: "golib \<Rightarrow> Store \<Rightarrow> PersistentState" where
  "snapshot L s = cloneState L (st_state s)"

type_synonym transaction = "PersistentState \<Rightarrow> error + PersistentState"

text \<open>The state an update is about to persist.\<close>

definition nextState :: "golib \<Rightarrow> transaction \<Rightarrow> PersistentState \<Rightarrow> error + PersistentState" where
  "nextState L fn s =
     (case fn (cloneState L s) of
        Inl e \<Rightarrow> Inl e
      | Inr next \<Rightarrow> Inr (next\<lparr>ps_Sequence := ps_Sequence next + 1\<rparr>))"

definition storeUpdate ::
  "golib \<Rightarrow> goos \<Rightarrow> persistIO \<Rightarrow> transaction \<Rightarrow> Store \<Rightarrow> fs \<Rightarrow> (error + PersistentState) \<times> Store \<times> fs" where
  "storeUpdate L os io fn s f =
     (case nextState L fn (st_state s) of
        Inl e \<Rightarrow> (Inl e, s, f)
      | Inr next \<Rightarrow>
          (case persist L os io (st_path s) next f of
             (Some e, f') \<Rightarrow> (Inl e, s, f')
           | (None, f') \<Rightarrow> (Inr (cloneState L next), s\<lparr>st_state := next\<rparr>, f')))"

end
