(* ===== verification/Controller.thy ===== *)
theory Controller
  imports DurableStore
begin

text \<open>
  \<open>core/controller.go\<close>, its pure part: the configuration, the helper functions, and the
  body of every store transaction (the closures the controller hands to \<open>Store.Update\<close>) as
  a function on the persistent state. \<open>ControllerOps\<close> runs them.

  A clock reading inside a transaction's loop takes the key of the record being written, so
  that the readings of one transaction may differ from record to record without fixing the
  order in which Go visits a map.
\<close>

section \<open>Configuration\<close>

record Config =
  cfg_DryRun :: bool
  cfg_ResetGracePeriod :: duration
  cfg_VerifyDelay :: duration
  cfg_SuppressionDuration :: duration
  cfg_ObservationInterval :: duration
  cfg_ClockSkewTolerance :: duration
  cfg_RetryDelays :: "duration list"
  cfg_MaxRetries :: int

definition defaultConfig :: Config where
  "defaultConfig = \<lparr>cfg_DryRun = True, cfg_ResetGracePeriod = minute,
     cfg_VerifyDelay = 3 * second, cfg_SuppressionDuration = 10 * minute,
     cfg_ObservationInterval = 30 * minute, cfg_ClockSkewTolerance = 2 * minute,
     cfg_RetryDelays = [minute, 5 * minute, 15 * minute, 30 * minute], cfg_MaxRetries = 5\<rparr>"

text \<open>The checks and defaults of \<open>NewController\<close>; the store is never nil in the model.\<close>

definition controllerConfig :: "Config \<Rightarrow> error + Config" where
  "controllerConfig cfg =
     (if cfg_ResetGracePeriod cfg < 0 \<or> cfg_VerifyDelay cfg < 0 \<or> cfg_SuppressionDuration cfg < 0
      then Inl (ErrMsg ''durations must not be negative'')
      else
        (let c1 = (if cfg_ObservationInterval cfg \<le> 0
                   then cfg\<lparr>cfg_ObservationInterval := 30 * minute\<rparr> else cfg);
             c2 = (if cfg_ClockSkewTolerance c1 \<le> 0
                   then c1\<lparr>cfg_ClockSkewTolerance := 2 * minute\<rparr> else c1);
             c3 = (if cfg_SuppressionDuration c2 \<le> 0
                   then c2\<lparr>cfg_SuppressionDuration := 10 * minute\<rparr> else c2)
         in Inr c3))"

section \<open>Helpers\<close>

definition baselineFrom :: "golib \<Rightarrow> string \<Rightarrow> QuotaWindow \<Rightarrow> Baseline" where
  "baselineFrom L ik w = \<lparr>bl_ResetAt = qw_ResetAt w, bl_WindowDuration = qw_WindowDuration w,
     bl_UsedPercent = qw_UsedPercent w, bl_ObservedAt = qw_ObservedAt w,
     bl_CycleID = newCycleID L ik (qw_BucketID w) (qw_ResetAt w)\<rparr>"

definition nextDeadline :: "Baseline \<Rightarrow> time \<Rightarrow> Config \<Rightarrow> time" where
  "nextDeadline b now cfg =
     (let d = addTime (bl_ResetAt b) (cfg_ResetGracePeriod cfg)
      in if before d now then now else d)"

definition absDuration :: "duration \<Rightarrow> duration" where
  "absDuration d = (if d < 0 then wrap64 (- d) else d)"

definition adapterProvider :: "string \<Rightarrow> string \<Rightarrow> string" where
  "adapterProvider got want = (if got \<noteq> '''' then got else want)"

definition redactMarkers :: "string list" where
  "redactMarkers = [''Bearer '', ''access_token='', ''refresh_token='']"

definition redactStep :: "string \<Rightarrow> string \<Rightarrow> string" where
  "redactStep marker s =
     (case indexOf (toLower marker) (toLower s) of
        Some i \<Rightarrow> take i s @ marker @ ''[redacted]''
      | None \<Rightarrow> s)"

definition safeText :: "string \<Rightarrow> string" where
  "safeText text =
     (let s = fold redactStep redactMarkers text
      in if length s > 240 then take 240 s else s)"

definition safeError :: "error option \<Rightarrow> string" where
  "safeError err = (case err of None \<Rightarrow> '''' | Some e \<Rightarrow> safeText (errorText e))"

definition retryDelay :: "Config \<Rightarrow> int \<Rightarrow> duration" where
  "retryDelay cfg n =
     (if cfg_MaxRetries cfg > 0 \<and> n \<ge> cfg_MaxRetries cfg then cfg_ObservationInterval cfg
      else if cfg_RetryDelays cfg = [] then cfg_ObservationInterval cfg
      else
        (let m = (if n < 0 then 0 else n)
         in if m \<ge> int (length (cfg_RetryDelays cfg))
            then cfg_RetryDelays cfg ! (length (cfg_RetryDelays cfg) - 1)
            else cfg_RetryDelays cfg ! nat m))"

definition inc64 :: "int \<Rightarrow> int" where
  "inc64 n = wrap64 (n + 1)"

text \<open>\<open>rand.Read\<close> fills 16 bytes or fails.\<close>

definition randomID :: "error + string \<Rightarrow> error + string" where
  "randomID r = (case r of Inl e \<Rightarrow> Inl e | Inr b \<Rightarrow> Inr (hexEncode b))"

section \<open>Writing windows\<close>

definition getWindow :: "PersistentState \<Rightarrow> string \<Rightarrow> WindowRecord" where
  "getWindow s k = getOr zeroWindowRecord (ps_Windows s) k"

definition putWindow :: "string \<Rightarrow> WindowRecord \<Rightarrow> PersistentState \<Rightarrow> PersistentState" where
  "putWindow k r s = s\<lparr>ps_Windows := fmupd k r (ps_Windows s)\<rparr>"

definition modifyWindows :: "(string \<Rightarrow> WindowRecord \<Rightarrow> WindowRecord) \<Rightarrow> string list \<Rightarrow> PersistentState \<Rightarrow> PersistentState" where
  "modifyWindows f ks s = s\<lparr>ps_Windows := putAll f zeroWindowRecord ks (ps_Windows s)\<rparr>"

text \<open>A loop over the whole map that writes the records it selects back under their keys.\<close>

definition rangeWindows :: "(string \<Rightarrow> WindowRecord \<Rightarrow> WindowRecord) \<Rightarrow> PersistentState \<Rightarrow> PersistentState" where
  "rangeWindows f s = s\<lparr>ps_Windows := fmmap_keys f (ps_Windows s)\<rparr>"

section \<open>Credential-wide transactions\<close>

definition markCredentialStateTx :: "Credential \<Rightarrow> ProbeState \<Rightarrow> string \<Rightarrow> transaction" where
  "markCredentialStateTx cred st result s =
     Inr (rangeWindows (\<lambda>key r.
       if wr_AuthID r = cred_AuthID cred
       then r\<lparr>wr_State := st, wr_LastResult := result, wr_NextCheck := zeroTime\<rparr> else r) s)"

definition retireReplacedTx :: "Credential \<Rightarrow> string \<Rightarrow> transaction" where
  "retireReplacedTx cred current s =
     Inr (rangeWindows (\<lambda>key r.
       if wr_AuthID r = cred_AuthID cred \<and> wr_InstanceKey r \<noteq> current
       then r\<lparr>wr_State := StateDisabled, wr_LastResult := ''credential identity replaced'',
              wr_NextCheck := zeroTime\<rparr> else r) s)"

definition markReadFailureTx :: "Config \<Rightarrow> (string \<Rightarrow> time) \<Rightarrow> string \<Rightarrow> error \<Rightarrow> transaction" where
  "markReadFailureTx cfg nowAt ik cause s =
     Inr (rangeWindows (\<lambda>key r.
       if wr_InstanceKey r = ik
       then r\<lparr>wr_State := StateRetryWait, wr_LastResult := safeError (Some cause),
              wr_NextCheck := addTime (nowAt key) (retryDelay cfg (wr_RetryCount r)),
              wr_RetryCount := inc64 (wr_RetryCount r)\<rparr> else r) s)"

section \<open>Reconciling an observation\<close>

text \<open>
  The record made for a window seen for the first time, and whether it joins an activation
  group. \<open>can\<close> is \<open>canActivate && activation.CanActivate(observed)\<close>.
\<close>

definition firstRecord ::
  "golib \<Rightarrow> Config \<Rightarrow> time \<Rightarrow> Credential \<Rightarrow> string \<Rightarrow> string \<Rightarrow> bool \<Rightarrow> QuotaWindow \<Rightarrow> WindowRecord \<times> bool" where
  "firstRecord L cfg now cred ik fp can observed =
     (let base = baselineFrom L ik observed;
          (st, result) =
            (if \<not> can then (StateUnsupported, ''observe only'')
             else if qw_LazyHint observed \<or>
                     \<not> before now (addTime (bl_ResetAt base) (cfg_ResetGracePeriod cfg))
             then (StatePendingPrecheck, ''first observation requires authoritative precheck'')
             else (StateWaitingReset, ''baseline established''));
          record = \<lparr>wr_Key = windowKey ik (qw_BucketID observed), wr_InstanceKey = ik,
            wr_Provider = cred_Provider cred, wr_AuthID = cred_AuthID cred,
            wr_BucketID = qw_BucketID observed, wr_ModelFamily = qw_ModelFamily observed,
            wr_ActivationGroup = qw_ActivationGroup observed, wr_CredentialFP = fp,
            wr_Baseline = base, wr_Latest = observed, wr_State = st, wr_LastProbe = zeroTime,
            wr_NextCheck = nextDeadline base now cfg, wr_LastActivation = zeroTime,
            wr_LastResult = result, wr_RetryCount = 0, wr_ActiveAttemptID = '''',
            wr_ActivationDisabled = (st = StateUnsupported)\<rparr>
      in if st = StatePendingPrecheck then (record\<lparr>wr_NextCheck := zeroTime\<rparr>, True)
         else (record, False))"

text \<open>The branches for a window that already has a record, in the order of the code.\<close>

definition nextRecord ::
  "golib \<Rightarrow> Config \<Rightarrow> time \<Rightarrow> string \<Rightarrow> bool \<Rightarrow> (string, CycleLedgerEntry) fmap \<Rightarrow> QuotaWindow \<Rightarrow> WindowRecord \<Rightarrow> WindowRecord \<times> bool" where
  "nextRecord L cfg now ik can ledger observed record0 =
     (let record = record0\<lparr>wr_Latest := observed, wr_LastProbe := now\<rparr>;
          base = wr_Baseline record
      in
      if \<not> can then
        (record\<lparr>wr_State := StateUnsupported, wr_LastResult := ''observe only'',
                wr_ActivationDisabled := True,
                wr_NextCheck := addTime now (cfg_ObservationInterval cfg)\<rparr>, False)
      else if wr_State record = StateWaitingReset \<and> qw_LazyHint observed \<and>
              wr_LastActivation record = zeroTime then
        (record\<lparr>wr_Baseline := baselineFrom L ik observed, wr_State := StatePendingPrecheck,
                wr_LastResult := ''migrated strict lazy baseline; authoritative precheck required'',
                wr_NextCheck := zeroTime\<rparr>, True)
      else if after (qw_ResetAt observed) (addTime (bl_ResetAt base) (cfg_ClockSkewTolerance cfg)) \<and>
              \<not> qw_LazyHint observed then
        (record\<lparr>wr_Baseline := baselineFrom L ik observed, wr_State := StateNormalReset,
                wr_LastResult := ''window rolled without activation'', wr_RetryCount := 0,
                wr_ActiveAttemptID := '''',
                wr_NextCheck := nextDeadline (baselineFrom L ik observed) now cfg\<rparr>, False)
      else if before now (addTime (bl_ResetAt base) (cfg_ResetGracePeriod cfg)) then
        (record\<lparr>wr_State := StateWaitingReset, wr_NextCheck := nextDeadline base now cfg\<rparr>, False)
      else if fmlookup ledger (bl_CycleID base) \<noteq> None then
        (record\<lparr>wr_State := StateSentUnknown,
                wr_LastResult := ''activation already attempted for this cycle; verify only'',
                wr_NextCheck := addTime now (cfg_ObservationInterval cfg)\<rparr>, False)
      else if \<not> absDuration (subTime (qw_ResetAt observed) (bl_ResetAt base)) \<le> cfg_ClockSkewTolerance cfg \<and>
              \<not> qw_LazyHint observed then
        (record\<lparr>wr_State := StateRetryWait, wr_LastResult := ''ambiguous quota transition'',
                wr_NextCheck := addTime now (retryDelay cfg (wr_RetryCount record)),
                wr_RetryCount := inc64 (wr_RetryCount record)\<rparr>, False)
      else
        (record\<lparr>wr_State := StateLazyDetected, wr_LastResult := ''precheck still shows lazy window'',
                wr_NextCheck := zeroTime\<rparr>, True))"

type_synonym groups = "(string, WindowRecord list) fmap"

definition groupOf :: "QuotaWindow \<Rightarrow> string" where
  "groupOf w = (if qw_ActivationGroup w = '''' then qw_BucketID w else qw_ActivationGroup w)"

definition addGroup :: "string \<Rightarrow> WindowRecord \<Rightarrow> groups \<Rightarrow> groups" where
  "addGroup g r m = fmupd g (getOr [] m g @ [r]) m"

text \<open>What the loop does before it looks at the record: fill in the provider and the owner.\<close>

definition attribute :: "Credential \<Rightarrow> QuotaWindow \<Rightarrow> QuotaWindow" where
  "attribute cred w = w\<lparr>qw_Provider := adapterProvider (qw_Provider w) (cred_Provider cred),
     qw_AuthID := cred_AuthID cred\<rparr>"

text \<open>One turn of the loop over the observed windows.\<close>

definition reconcileWindow ::
  "golib \<Rightarrow> Config \<Rightarrow> time \<Rightarrow> Credential \<Rightarrow> string \<Rightarrow> string \<Rightarrow> (QuotaWindow \<Rightarrow> bool) \<Rightarrow> QuotaWindow \<Rightarrow>
   PersistentState \<times> groups \<Rightarrow> PersistentState \<times> groups" where
  "reconcileWindow L cfg now cred ik fp can w sg =
     (case sg of (s, groups) \<Rightarrow>
       (let observed = attribute cred w;
            key = windowKey ik (qw_BucketID observed);
            (record, joins) =
              (case fmlookup (ps_Windows s) key of
                 None \<Rightarrow> firstRecord L cfg now cred ik fp (can observed) observed
               | Some r \<Rightarrow> nextRecord L cfg now ik (can observed) (ps_CycleLedger s) observed r)
        in (putWindow key record s,
            if joins then addGroup (groupOf observed) record groups else groups)))"

text \<open>The second loop: records of this instance whose bucket was not observed.\<close>

definition markAbsent :: "Config \<Rightarrow> time \<Rightarrow> string \<Rightarrow> string list \<Rightarrow> PersistentState \<Rightarrow> PersistentState" where
  "markAbsent cfg now ik seen s =
     rangeWindows (\<lambda>key r.
       if wr_InstanceKey r \<noteq> ik then r
       else if key \<notin> set seen
       then r\<lparr>wr_State := StateRetryWait, wr_LastResult := ''bucket absent from latest observation'',
              wr_NextCheck := addTime now (cfg_ObservationInterval cfg)\<rparr>
       else r) s"

definition reconcileState ::
  "golib \<Rightarrow> Config \<Rightarrow> time \<Rightarrow> Credential \<Rightarrow> string \<Rightarrow> string \<Rightarrow> (QuotaWindow \<Rightarrow> bool) \<Rightarrow> QuotaWindow list \<Rightarrow>
   PersistentState \<Rightarrow> PersistentState \<times> groups" where
  "reconcileState L cfg now cred ik fp can windows s =
     (let (s', groups) = fold (reconcileWindow L cfg now cred ik fp can) windows (s, fmempty);
          seen = map (\<lambda>w. windowKey ik (qw_BucketID w)) windows
      in (markAbsent cfg now ik seen s', groups))"

text \<open>The groups in the order of their names.\<close>

definition groupList :: "groups \<Rightarrow> WindowRecord list list" where
  "groupList groups = map (getOr [] groups) (fmkeys groups)"

section \<open>The second authoritative read\<close>

definition byBucket :: "QuotaWindow list \<Rightarrow> (string, QuotaWindow) fmap" where
  "byBucket windows = fold (\<lambda>w. fmupd (qw_BucketID w) w) windows fmempty"

definition precheckRecord ::
  "golib \<Rightarrow> Config \<Rightarrow> time \<Rightarrow> (QuotaWindow \<Rightarrow> bool) \<Rightarrow> QuotaWindow option \<Rightarrow> WindowRecord \<Rightarrow> WindowRecord \<times> bool" where
  "precheckRecord L cfg now can found record0 =
     (case found of
        None \<Rightarrow>
          (record0\<lparr>wr_State := StateRetryWait, wr_LastResult := ''precheck missing bucket'',
                   wr_RetryCount := inc64 (wr_RetryCount record0),
                   wr_NextCheck := addTime now (retryDelay cfg (inc64 (wr_RetryCount record0)))\<rparr>, False)
      | Some aft \<Rightarrow>
          (let record = record0\<lparr>wr_Latest := aft, wr_LastProbe := now\<rparr>;
               base = wr_Baseline record
           in
           if \<not> can aft \<or> qw_ActivationGroup aft \<noteq> wr_ActivationGroup record then
             (record\<lparr>wr_State := StateUnsupported,
                     wr_LastResult := ''precheck bucket is not activation-capable'',
                     wr_ActivationDisabled := True,
                     wr_NextCheck := addTime now (cfg_ObservationInterval cfg)\<rparr>, False)
           else if after (qw_ResetAt aft) (addTime (bl_ResetAt base) (cfg_ClockSkewTolerance cfg)) \<and>
                   \<not> qw_LazyHint aft then
             (record\<lparr>wr_Baseline := baselineFrom L (wr_InstanceKey record) aft,
                     wr_State := StateNormalReset,
                     wr_LastResult := ''window rolled during precheck; no activation'',
                     wr_RetryCount := 0,
                     wr_NextCheck := nextDeadline (baselineFrom L (wr_InstanceKey record) aft) now cfg\<rparr>, False)
           else if \<not> absDuration (subTime (qw_ResetAt aft) (bl_ResetAt base)) \<le> cfg_ClockSkewTolerance cfg \<and>
                   \<not> qw_LazyHint aft then
             (record\<lparr>wr_State := StateRetryWait,
                     wr_LastResult := ''ambiguous quota transition during precheck'',
                     wr_RetryCount := inc64 (wr_RetryCount record),
                     wr_NextCheck := addTime now (retryDelay cfg (inc64 (wr_RetryCount record)))\<rparr>, False)
           else
             (record\<lparr>wr_State := StateLazyDetected,
                     wr_LastResult := ''authoritative precheck still shows lazy window'',
                     wr_NextCheck := zeroTime\<rparr>, True)))"

definition precheckStep ::
  "golib \<Rightarrow> Config \<Rightarrow> time \<Rightarrow> (QuotaWindow \<Rightarrow> bool) \<Rightarrow> (string, QuotaWindow) fmap \<Rightarrow> WindowRecord \<Rightarrow>
   PersistentState \<times> WindowRecord list \<Rightarrow> PersistentState \<times> WindowRecord list" where
  "precheckStep L cfg now can buckets original sc =
     (case sc of (s, confirmed) \<Rightarrow>
       (case fmlookup (ps_Windows s) (wr_Key original) of
          None \<Rightarrow> (s, confirmed)
        | Some record0 \<Rightarrow>
            (let (record, ok) = precheckRecord L cfg now can (fmlookup buckets (wr_BucketID record0)) record0
             in (putWindow (wr_Key record) record s,
                 if ok then confirmed @ [record] else confirmed))))"

definition precheckState ::
  "golib \<Rightarrow> Config \<Rightarrow> time \<Rightarrow> (QuotaWindow \<Rightarrow> bool) \<Rightarrow> QuotaWindow list \<Rightarrow> WindowRecord list \<Rightarrow>
   PersistentState \<Rightarrow> PersistentState \<times> WindowRecord list" where
  "precheckState L cfg now can windows records s =
     fold (precheckStep L cfg now can (byBucket windows)) records (s, [])"

section \<open>Transactions of an activation\<close>

definition dryRunTx :: "Config \<Rightarrow> (string \<Rightarrow> time) \<Rightarrow> WindowRecord list \<Rightarrow> transaction" where
  "dryRunTx cfg nowAt records s =
     Inr (modifyWindows (\<lambda>key x.
       x\<lparr>wr_State := StateLazyDetected, wr_LastResult := ''dry-run: would activate'',
         wr_NextCheck := addTime (nowAt key) (cfg_ObservationInterval cfg)\<rparr>) (map wr_Key records) s)"

definition recordGroupFailureTx :: "Config \<Rightarrow> (string \<Rightarrow> time) \<Rightarrow> WindowRecord list \<Rightarrow> error \<Rightarrow> transaction" where
  "recordGroupFailureTx cfg nowAt records cause s =
     Inr (modifyWindows (\<lambda>key x.
       x\<lparr>wr_State := StateRetryWait, wr_LastResult := safeError (Some cause),
         wr_RetryCount := inc64 (wr_RetryCount x),
         wr_NextCheck := addTime (nowAt key) (retryDelay cfg (inc64 (wr_RetryCount x)))\<rparr>)
       (map wr_Key records) s)"

definition putAttempt :: "ProbeAttempt \<Rightarrow> PersistentState \<Rightarrow> PersistentState" where
  "putAttempt a s = s\<lparr>ps_Attempts := fmupd (pa_ID a) a (ps_Attempts s)\<rparr>"

definition firstFenced :: "PersistentState \<Rightarrow> string list \<Rightarrow> string option" where
  "firstFenced s cycles = List.find (\<lambda>c. fmlookup (ps_CycleLedger s) c \<noteq> None) cycles"

definition prepareTx :: "ProbeAttempt \<Rightarrow> transaction" where
  "prepareTx attempt s =
     (case firstFenced s (pa_CycleIDs attempt) of
        Some cycle \<Rightarrow> Inl (ErrMsg (''cycle '' @ cycle @ '' already attempted''))
      | None \<Rightarrow>
          Inr (modifyWindows (\<lambda>key x.
                 x\<lparr>wr_State := StatePendingPrecheck, wr_ActiveAttemptID := pa_ID attempt\<rparr>)
               (pa_WindowKeys attempt) (putAttempt attempt s)))"

definition fenceEntry :: "ProbeAttempt \<Rightarrow> time \<Rightarrow> string \<Rightarrow> CycleLedgerEntry" where
  "fenceEntry attempt now cycle = \<lparr>cl_CycleID = cycle, cl_AttemptID = pa_ID attempt,
     cl_SendingAt = now, cl_SendOutcome = ''unknown''\<rparr>"

text \<open>The durable fence: the phase, the ledger entries and the windows in one transaction.\<close>

definition fenceTx :: "ProbeAttempt \<Rightarrow> time \<Rightarrow> transaction" where
  "fenceTx attempt now s =
     (case fmlookup (ps_Attempts s) (pa_ID attempt) of
        None \<Rightarrow> Inl (ErrMsg ''attempt changed before send'')
      | Some current \<Rightarrow>
          if pa_Phase current \<noteq> AttemptPrepared
          then Inl (ErrMsg ''attempt changed before send'')
          else
            (let s1 = putAttempt attempt s;
                 s2 = s1\<lparr>ps_CycleLedger := putAll (\<lambda>cycle e. fenceEntry attempt now cycle)
                            zeroLedgerEntry (pa_CycleIDs attempt) (ps_CycleLedger s1)\<rparr>
             in Inr (modifyWindows (\<lambda>key x.
                  x\<lparr>wr_State := StateActivationSending, wr_LastActivation := now\<rparr>)
                  (pa_WindowKeys attempt) s2)))"

definition markSendOutcomeTx ::
  "time \<Rightarrow> ProbeAttempt \<Rightarrow> AttemptPhase \<Rightarrow> string \<Rightarrow> error option \<Rightarrow> transaction" where
  "markSendOutcomeTx now attempt phase outcome cause s =
     (case fmlookup (ps_Attempts s) (pa_ID attempt) of
        None \<Rightarrow> Inl (ErrMsg ''attempt not found'')
      | Some current0 \<Rightarrow>
          (let c1 = current0\<lparr>pa_Phase := phase\<rparr>;
               c2 = (if pa_SentAt attempt \<noteq> zeroTime then c1\<lparr>pa_SentAt := pa_SentAt attempt\<rparr> else c1);
               current = (if cause \<noteq> None then c2\<lparr>pa_LastError := safeError cause\<rparr> else c2);
               s1 = s\<lparr>ps_Attempts := fmupd (pa_ID attempt) current (ps_Attempts s)\<rparr>;
               s2 = s1\<lparr>ps_CycleLedger := putAll (\<lambda>cycle e. e\<lparr>cl_SendOutcome := outcome\<rparr>)
                          zeroLedgerEntry (pa_CycleIDs current) (ps_CycleLedger s1)\<rparr>
           in Inr (modifyWindows (\<lambda>key x.
                (if phase = AttemptSent
                 then x\<lparr>wr_State := StateActivationSent, wr_LastResult := ''activation sent''\<rparr>
                 else x\<lparr>wr_State := StateSentUnknown,
                        wr_LastResult := ''send result unknown; verify only''\<rparr>)
                \<lparr>wr_NextCheck := pa_SuppressUntil current, wr_LastProbe := now\<rparr>)
                (pa_WindowKeys current) s2)))"

section \<open>Verification and recovery\<close>

definition verifyRecord ::
  "golib \<Rightarrow> Config \<Rightarrow> time \<Rightarrow> (Baseline \<Rightarrow> QuotaWindow \<Rightarrow> VerifyResult) \<Rightarrow> QuotaWindow option \<Rightarrow> WindowRecord \<Rightarrow> WindowRecord" where
  "verifyRecord L cfg now verify found record =
     (case found of
        None \<Rightarrow> record\<lparr>wr_State := StateRetryWait, wr_LastResult := ''verify missing bucket'',
                       wr_NextCheck := addTime now (cfg_ObservationInterval cfg)\<rparr>
      | Some aft \<Rightarrow>
          (let result = verify (wr_Baseline record) aft;
               r1 = record\<lparr>wr_Latest := aft, wr_LastProbe := now, wr_LastResult := vr_Reason result,
                           wr_ActiveAttemptID := ''''\<rparr>
           in if vr_Confirmed result
              then r1\<lparr>wr_State := StateConfirmed,
                      wr_Baseline := baselineFrom L (wr_InstanceKey record) aft,
                      wr_NextCheck := nextDeadline (baselineFrom L (wr_InstanceKey record) aft) now cfg,
                      wr_RetryCount := 0\<rparr>
              else r1\<lparr>wr_State := StateRetryWait,
                      wr_NextCheck := addTime now (cfg_ObservationInterval cfg)\<rparr>))"

definition verifyStep ::
  "golib \<Rightarrow> Config \<Rightarrow> time \<Rightarrow> (Baseline \<Rightarrow> QuotaWindow \<Rightarrow> VerifyResult) \<Rightarrow> (string, QuotaWindow) fmap \<Rightarrow> string \<Rightarrow>
   PersistentState \<Rightarrow> PersistentState" where
  "verifyStep L cfg now verify buckets key s =
     (case fmlookup (ps_Windows s) key of
        None \<Rightarrow> s
      | Some record \<Rightarrow>
          putWindow key (verifyRecord L cfg now verify (fmlookup buckets (wr_BucketID record)) record) s)"

definition verifyTx ::
  "golib \<Rightarrow> Config \<Rightarrow> time \<Rightarrow> (Baseline \<Rightarrow> QuotaWindow \<Rightarrow> VerifyResult) \<Rightarrow> QuotaWindow list \<Rightarrow> string \<Rightarrow> transaction" where
  "verifyTx L cfg now verify windows attemptID s =
     (case fmlookup (ps_Attempts s) attemptID of
        None \<Rightarrow> Inr s
      | Some current \<Rightarrow>
          (let s1 = fold (verifyStep L cfg now verify (byBucket windows)) (pa_WindowKeys current) s
           in Inr (s1\<lparr>ps_Attempts := fmupd attemptID (current\<lparr>pa_Phase := AttemptCompleted\<rparr>)
                        (ps_Attempts s1)\<rparr>)))"

definition dropPreparedTx :: "(string \<Rightarrow> time) \<Rightarrow> string \<Rightarrow> ProbeAttempt \<Rightarrow> transaction" where
  "dropPreparedTx nowAt attemptID a s =
     Inr (modifyWindows (\<lambda>key x.
       x\<lparr>wr_State := StatePendingPrecheck, wr_ActiveAttemptID := '''', wr_NextCheck := nowAt key\<rparr>)
       (pa_WindowKeys a) (s\<lparr>ps_Attempts := fmdrop attemptID (ps_Attempts s)\<rparr>))"

end
