(* ===== verification/ControllerOps.thy ===== *)
theory ControllerOps
  imports Controller
begin

text \<open>
  \<open>core/controller.go\<close>, its effectful part: \<open>Tick\<close>, \<open>Recover\<close>, \<open>BlockCredential\<close>
  and the steps they are made of, as functions on a \<open>world\<close>.

  The world holds the store, the files, the number of external calls made so far and the
  trace of what the outside can observe: every persist (the state it tried to write, whether it
  succeeded, and the files it left) and every activation request handed to the sender. Each
  external call (clock, wait, sender, random source, quota read, plan, file system) is
  a function of the call number, so a theorem for all environments covers every behaviour of
  the outside. The two mutexes make every operation atomic; an operation is a function here.
\<close>

section \<open>The world\<close>

record platform =
  pf_lib :: golib
  pf_os :: goos
  pf_io :: "nat \<Rightarrow> persistIO"
  pf_rand :: "nat \<Rightarrow> error + string"

datatype event =
    EvPersist PersistentState bool fs
  | EvSend Credential ActivationRequest ProbeAttempt

record world =
  w_store :: Store
  w_fs :: fs
  w_n :: nat
  w_trace :: "event list"

record Controller =
  ctl_sender :: "(nat \<Rightarrow> Credential \<Rightarrow> ActivationRequest \<Rightarrow> error option) option"
  ctl_cfg :: Config
  ctl_now :: "nat \<Rightarrow> time"
  ctl_nowAt :: "nat \<Rightarrow> string \<Rightarrow> time"
  ctl_wait :: "nat \<Rightarrow> duration \<Rightarrow> error option"

text \<open>\<open>NewController\<close>: the wall clock and the timer are given by the environment.\<close>

definition newController ::
  "(nat \<Rightarrow> Credential \<Rightarrow> ActivationRequest \<Rightarrow> error option) option \<Rightarrow> Config \<Rightarrow> (nat \<Rightarrow> time) \<Rightarrow>
   (nat \<Rightarrow> string \<Rightarrow> time) \<Rightarrow> (nat \<Rightarrow> duration \<Rightarrow> error option) \<Rightarrow> error + Controller" where
  "newController sender cfg now nowAt wait =
     (case controllerConfig cfg of
        Inl e \<Rightarrow> Inl e
      | Inr cfg' \<Rightarrow> Inr \<lparr>ctl_sender = sender, ctl_cfg = cfg', ctl_now = now, ctl_nowAt = nowAt,
                      ctl_wait = wait\<rparr>)"

abbreviation stateOf :: "world \<Rightarrow> PersistentState" where
  "stateOf w \<equiv> st_state (w_store w)"

definition tick1 :: "world \<Rightarrow> world" where
  "tick1 w = w\<lparr>w_n := Suc (w_n w)\<rparr>"

definition emit :: "event \<Rightarrow> world \<Rightarrow> world" where
  "emit e w = w\<lparr>w_trace := w_trace w @ [e]\<rparr>"

text \<open>\<open>c.store.Update(fn)\<close>.\<close>

definition update :: "platform \<Rightarrow> transaction \<Rightarrow> world \<Rightarrow> (error + PersistentState) \<times> world" where
  "update P fn w =
     (case storeUpdate (pf_lib P) (pf_os P) (pf_io P (w_n w)) fn (w_store w) (w_fs w) of
        (r, st, f) \<Rightarrow>
          (case nextState (pf_lib P) fn (stateOf w) of
             Inl e \<Rightarrow> (r, tick1 w)
           | Inr next \<Rightarrow>
               (r, emit (EvPersist next (\<not> isl r) f) (tick1 (w\<lparr>w_store := st, w_fs := f\<rparr>)))))"

text \<open>\<open>c.now()\<close>.\<close>

definition readClock :: "Controller \<Rightarrow> world \<Rightarrow> time \<times> world" where
  "readClock C w = (ctl_now C (w_n w), tick1 w)"

text \<open>\<open>_, err := c.store.Update(fn); return err\<close>, and the same with an error to return.\<close>

definition commit :: "platform \<Rightarrow> transaction \<Rightarrow> world \<Rightarrow> error option \<times> world" where
  "commit P fn w =
     (case update P fn w of (Inl e, w') \<Rightarrow> (Some e, w') | (Inr s, w') \<Rightarrow> (None, w'))"

definition commitThen :: "platform \<Rightarrow> transaction \<Rightarrow> error \<Rightarrow> world \<Rightarrow> error option \<times> world" where
  "commitThen P fn cause w =
     (case commit P fn w of (Some e, w') \<Rightarrow> (Some e, w') | (None, w') \<Rightarrow> (Some cause, w'))"

section \<open>Credential-wide operations\<close>

definition markCredentialState :: "platform \<Rightarrow> Credential \<Rightarrow> ProbeState \<Rightarrow> string \<Rightarrow> world \<Rightarrow> error option \<times> world" where
  "markCredentialState P cred st result w = commit P (markCredentialStateTx cred st result) w"

definition blockCredential :: "platform \<Rightarrow> Credential \<Rightarrow> string \<Rightarrow> world \<Rightarrow> error option \<times> world" where
  "blockCredential P cred reason w = markCredentialState P cred StateAuthBlocked reason w"

definition retireReplacedInstances :: "platform \<Rightarrow> Credential \<Rightarrow> string \<Rightarrow> world \<Rightarrow> error option \<times> world" where
  "retireReplacedInstances P cred current w = commit P (retireReplacedTx cred current) w"

definition markReadFailure :: "platform \<Rightarrow> Controller \<Rightarrow> string \<Rightarrow> error \<Rightarrow> world \<Rightarrow> error option \<times> world" where
  "markReadFailure P C ik cause w =
     commitThen P (markReadFailureTx (ctl_cfg C) (ctl_nowAt C (w_n w)) ik cause) cause w"

definition recordGroupFailure :: "platform \<Rightarrow> Controller \<Rightarrow> WindowRecord list \<Rightarrow> error \<Rightarrow> bool \<Rightarrow> world \<Rightarrow> error option \<times> world" where
  "recordGroupFailure P C records cause sent w =
     (case commit P (recordGroupFailureTx (ctl_cfg C) (ctl_nowAt C (w_n w)) records cause) w of
        (Some e, w') \<Rightarrow> (Some e, w')
      | (None, w') \<Rightarrow> (if sent then None else Some cause, w'))"

definition markSendOutcome ::
  "platform \<Rightarrow> Controller \<Rightarrow> ProbeAttempt \<Rightarrow> AttemptPhase \<Rightarrow> string \<Rightarrow> error option \<Rightarrow> world \<Rightarrow> error option \<times> world" where
  "markSendOutcome P C attempt phase outcome cause w =
     (case readClock C w of (t, w1) \<Rightarrow> commit P (markSendOutcomeTx t attempt phase outcome cause) w1)"

section \<open>Reading quota\<close>

definition readQuota :: "Adapter \<Rightarrow> Credential \<Rightarrow> world \<Rightarrow> (error + Observation) \<times> world" where
  "readQuota ad cred w = (ad_ReadQuota ad (w_n w) cred, tick1 w)"

section \<open>Reconciliation\<close>

definition canActivate :: "ActivationOps option \<Rightarrow> QuotaWindow \<Rightarrow> bool" where
  "canActivate act w = (case act of None \<Rightarrow> False | Some ops \<Rightarrow> ac_CanActivate ops w)"

definition reconcileObservation ::
  "platform \<Rightarrow> Controller \<Rightarrow> Credential \<Rightarrow> string \<Rightarrow> string \<Rightarrow> QuotaWindow list \<Rightarrow> ActivationOps option \<Rightarrow> world \<Rightarrow>
   (error + WindowRecord list list) \<times> world" where
  "reconcileObservation P C cred ik fp windows act w =
     (case readClock C w of (t, w1) \<Rightarrow>
       (let body = reconcileState (pf_lib P) (ctl_cfg C) t cred ik fp (canActivate act) windows
        in case update P (\<lambda>s. Inr (fst (body s))) w1 of
             (Inl e, w2) \<Rightarrow> (Inl e, w2)
           | (Inr _, w2) \<Rightarrow>
               (Inr (groupList (snd (body (cloneState (pf_lib P) (stateOf w1))))), w2)))"

section \<open>One activation group\<close>

definition precheckGroup ::
  "platform \<Rightarrow> Controller \<Rightarrow> Credential \<Rightarrow> Adapter \<Rightarrow> ActivationOps \<Rightarrow> WindowRecord list \<Rightarrow> world \<Rightarrow>
   (error + WindowRecord list) \<times> world" where
  "precheckGroup P C cred ad ops records w =
     (case readQuota ad cred w of
        (Inl e, w1) \<Rightarrow>
          (case recordGroupFailure P C records e False w1 of
             (Some e', w2) \<Rightarrow> (Inl e', w2) | (None, w2) \<Rightarrow> (Inr [], w2))
      | (Inr obs, w1) \<Rightarrow>
          (case normalizeWindows (ob_Windows obs) of
             Inl e \<Rightarrow>
               (case recordGroupFailure P C records e False w1 of
                  (Some e', w2) \<Rightarrow> (Inl e', w2) | (None, w2) \<Rightarrow> (Inr [], w2))
           | Inr windows \<Rightarrow>
               (case readClock C w1 of (t, w2) \<Rightarrow>
                 (let body = precheckState (pf_lib P) (ctl_cfg C) t (ac_CanActivate ops) windows records
                  in case update P (\<lambda>s. Inr (fst (body s))) w2 of
                       (Inl e, w3) \<Rightarrow> (Inl e, w3)
                     | (Inr _, w3) \<Rightarrow> (Inr (snd (body (cloneState (pf_lib P) (stateOf w2)))), w3)))))"

definition verifyAttempt ::
  "platform \<Rightarrow> Controller \<Rightarrow> Credential \<Rightarrow> Adapter \<Rightarrow> ActivationOps \<Rightarrow> ProbeAttempt \<Rightarrow> world \<Rightarrow> error option \<times> world" where
  "verifyAttempt P C cred ad ops attempt w =
     (case readQuota ad cred w of
        (Inl e, w1) \<Rightarrow> markSendOutcome P C attempt AttemptSentUnknown ''unknown'' (Some e) w1
      | (Inr obs, w1) \<Rightarrow>
          (case normalizeWindows (ob_Windows obs) of
             Inl e \<Rightarrow> (Some e, w1)
           | Inr windows \<Rightarrow>
               (case readClock C w1 of (t, w2) \<Rightarrow>
                 commit P (verifyTx (pf_lib P) (ctl_cfg C) t (ac_VerifyActivation ops) windows (pa_ID attempt)) w2)))"

definition newAttempt :: "Config \<Rightarrow> Credential \<Rightarrow> string \<Rightarrow> string \<Rightarrow> time \<Rightarrow> WindowRecord list \<Rightarrow> ProbeAttempt" where
  "newAttempt cfg cred attemptID grp t records = \<lparr>pa_ID = attemptID,
     pa_InstanceKey = wr_InstanceKey (hd records), pa_Provider = wr_Provider (hd records),
     pa_AuthID = cred_AuthID cred, pa_AuthIndex = cred_AuthIndex cred,
     pa_CredentialFP = wr_CredentialFP (hd records), pa_ActivationGroup = grp,
     pa_WindowKeys = map wr_Key records, pa_CycleIDs = map (bl_CycleID \<circ> wr_Baseline) records,
     pa_Phase = AttemptPrepared, pa_CreatedAt = t, pa_SendingAt = zeroTime, pa_SentAt = zeroTime,
     pa_VerifyNotBefore = addTime t (cfg_VerifyDelay cfg),
     pa_SuppressUntil = addTime t (cfg_SuppressionDuration cfg), pa_LastError = ''''\<rparr>"

text \<open>From the durable fence on: the send, its outcome, the delay and the verification.\<close>

definition sendAndVerify ::
  "platform \<Rightarrow> Controller \<Rightarrow> (nat \<Rightarrow> Credential \<Rightarrow> ActivationRequest \<Rightarrow> error option) \<Rightarrow> Credential \<Rightarrow> Adapter \<Rightarrow>
   ActivationOps \<Rightarrow> ActivationRequest \<Rightarrow> ProbeAttempt \<Rightarrow> world \<Rightarrow> error option \<times> world" where
  "sendAndVerify P C send cred ad ops request attempt w =
     (let sendErr = send (w_n w) cred request;
          w1 = emit (EvSend cred request attempt) (tick1 w)
      in case sendErr of
           Some e \<Rightarrow> markSendOutcome P C attempt AttemptSentUnknown ''unknown'' (Some e) w1
         | None \<Rightarrow>
             (case readClock C w1 of (t, w2) \<Rightarrow>
               (let attempt' = attempt\<lparr>pa_Phase := AttemptSent, pa_SentAt := t\<rparr>
                in case markSendOutcome P C attempt' AttemptSent ''sent'' None w2 of
                     (Some e, w3) \<Rightarrow> (Some e, w3)
                   | (None, w3) \<Rightarrow>
                       (case ctl_wait C (w_n w3) (cfg_VerifyDelay (ctl_cfg C)) of
                          Some e \<Rightarrow>
                            markSendOutcome P C attempt' AttemptSentUnknown ''unknown'' (Some e) (tick1 w3)
                        | None \<Rightarrow> verifyAttempt P C cred ad ops attempt' (tick1 w3)))))"

text \<open>The prepared transaction, the fence transaction, the send.\<close>

definition fenceAndSend ::
  "platform \<Rightarrow> Controller \<Rightarrow> (nat \<Rightarrow> Credential \<Rightarrow> ActivationRequest \<Rightarrow> error option) \<Rightarrow> Credential \<Rightarrow> Adapter \<Rightarrow>
   ActivationOps \<Rightarrow> ActivationRequest \<Rightarrow> ProbeAttempt \<Rightarrow> world \<Rightarrow> error option \<times> world" where
  "fenceAndSend P C send cred ad ops request attempt w =
     (case commit P (prepareTx attempt) w of
        (Some e, w1) \<Rightarrow> (Some e, w1)
      | (None, w1) \<Rightarrow>
          (case readClock C w1 of (t, w2) \<Rightarrow>
            (let attempt' = attempt\<lparr>pa_Phase := AttemptSending, pa_SendingAt := t\<rparr>
             in case commit P (fenceTx attempt' t) w2 of
                  (Some e, w3) \<Rightarrow> (Some e, w3)
                | (None, w3) \<Rightarrow> sendAndVerify P C send cred ad ops request attempt' w3)))"

text \<open>From the plan on: the sender and the plan are checked, the attempt gets its identity.\<close>

definition activateGroup ::
  "platform \<Rightarrow> Controller \<Rightarrow> Credential \<Rightarrow> Adapter \<Rightarrow> ActivationOps \<Rightarrow> WindowRecord list \<Rightarrow> world \<Rightarrow> error option \<times> world" where
  "activateGroup P C cred ad ops records w =
     (case ctl_sender C of
        None \<Rightarrow> (Some (ErrMsg ''activation sender is unavailable''), w)
      | Some send \<Rightarrow>
          (case ac_PlanActivation ops (w_n w) cred records of
             Inl e \<Rightarrow> recordGroupFailure P C records e False (tick1 w)
           | Inr plan \<Rightarrow>
               (if pl_MaxInput plan \<le> 0 \<or> pl_MaxOutput plan \<le> 0 \<or> rq_URL (pl_Request plan) = ''''
                then recordGroupFailure P C records
                       (ErrMsg ''adapter returned an unbounded activation plan'') False (tick1 w)
                else
                  (case randomID (pf_rand P (w_n (tick1 w))) of
                     Inl e \<Rightarrow> (Some e, tick1 (tick1 w))
                   | Inr attemptID \<Rightarrow>
                       (case readClock C (tick1 (tick1 w)) of (t, w3) \<Rightarrow>
                         fenceAndSend P C send cred ad ops (pl_Request plan)
                           (newAttempt (ctl_cfg C) cred attemptID (pl_Group plan) t records) w3)))))"

definition needsPrecheck :: "WindowRecord list \<Rightarrow> bool" where
  "needsPrecheck records \<longleftrightarrow> (\<exists>r \<in> set records. wr_State r = StatePendingPrecheck)"

definition dryRunOrActivate ::
  "platform \<Rightarrow> Controller \<Rightarrow> Credential \<Rightarrow> Adapter \<Rightarrow> ActivationOps \<Rightarrow> WindowRecord list \<Rightarrow> world \<Rightarrow> error option \<times> world" where
  "dryRunOrActivate P C cred ad ops records w =
     (if cfg_DryRun (ctl_cfg C)
      then commit P (dryRunTx (ctl_cfg C) (ctl_nowAt C (w_n w)) records) w
      else activateGroup P C cred ad ops records w)"

definition runGroup ::
  "platform \<Rightarrow> Controller \<Rightarrow> Credential \<Rightarrow> Adapter \<Rightarrow> ActivationOps \<Rightarrow> WindowRecord list \<Rightarrow> world \<Rightarrow> error option \<times> world" where
  "runGroup P C cred ad ops records w =
     (if records = [] then (None, w)
      else if needsPrecheck records then
        (case precheckGroup P C cred ad ops records w of
           (Inl e, w1) \<Rightarrow> (Some e, w1)
         | (Inr confirmed, w1) \<Rightarrow>
             if confirmed = [] then (None, w1) else dryRunOrActivate P C cred ad ops confirmed w1)
      else dryRunOrActivate P C cred ad ops records w)"

fun runGroups ::
  "platform \<Rightarrow> Controller \<Rightarrow> Credential \<Rightarrow> Adapter \<Rightarrow> ActivationOps \<Rightarrow> WindowRecord list list \<Rightarrow> world \<Rightarrow> error option \<times> world" where
  "runGroups P C cred ad ops [] w = (None, w)"
| "runGroups P C cred ad ops (g # gs) w =
     (case runGroup P C cred ad ops g w of
        (Some e, w1) \<Rightarrow> (Some e, w1)
      | (None, w1) \<Rightarrow> runGroups P C cred ad ops gs w1)"

section \<open>Tick\<close>

text \<open>
  The groups of an adapter that cannot activate are empty (\<open>can\<close> is false everywhere), so
  the code never calls a method of the nil interface; the branch returns without one.
\<close>

definition tick :: "platform \<Rightarrow> Controller \<Rightarrow> Credential \<Rightarrow> Adapter option \<Rightarrow> world \<Rightarrow> error option \<times> world" where
  "tick P C cred adapter w =
     (case adapter of
        None \<Rightarrow> (Some (ErrMsg ''adapter is required''), w)
      | Some ad \<Rightarrow>
     (if cred_Disabled cred
      then markCredentialState P cred StateDisabled ''credential disabled'' w
      else if \<not> ad_Match ad cred
      then (Some (ErrMsg (''adapter '' @ ad_ID ad @ '' does not match credential'')), w)
      else
     (case ad_Fingerprint ad (w_n w) cred of
        Inl e \<Rightarrow> (Some (ErrWrap ''credential fingerprint: '' e), tick1 w)
      | Inr fp \<Rightarrow>
     (let ik = instanceKey cred (ad_ID ad) fp
      in case retireReplacedInstances P cred ik w of
           (Some e, w1) \<Rightarrow> (Some e, w1)
         | (None, w1) \<Rightarrow>
     (case readQuota ad cred w1 of
        (Inl e, w2) \<Rightarrow> markReadFailure P C ik e w2
      | (Inr obs, w2) \<Rightarrow>
     (case normalizeWindows (ob_Windows obs) of
        Inl e \<Rightarrow> (Some e, w2)
      | Inr windows \<Rightarrow>
     (case reconcileObservation P C cred ik fp windows (ad_Activation ad) w2 of
        (Inl e, w3) \<Rightarrow> (Some e, w3)
      | (Inr groups, w3) \<Rightarrow>
          (case ad_Activation ad of
             None \<Rightarrow> (None, w3)
           | Some ops \<Rightarrow> runGroups P C cred ad ops groups w3))))))))"

section \<open>Recover\<close>

definition recoverAttempt ::
  "platform \<Rightarrow> Controller \<Rightarrow> Credential \<Rightarrow> Adapter \<Rightarrow> ActivationOps \<Rightarrow> ProbeAttempt \<Rightarrow> world \<Rightarrow> error option \<times> world" where
  "recoverAttempt P C cred ad ops a w =
     (case readClock C w of (t, w1) \<Rightarrow>
       (if before t (pa_VerifyNotBefore a) then
          (case readClock C w1 of (t2, w2) \<Rightarrow>
            (case ctl_wait C (w_n w2) (subTime (pa_VerifyNotBefore a) t2) of
               Some e \<Rightarrow> (Some e, tick1 w2)
             | None \<Rightarrow> verifyAttempt P C cred ad ops a (tick1 w2)))
        else verifyAttempt P C cred ad ops a w1))"

definition zeroAttempt :: ProbeAttempt where
  "zeroAttempt = \<lparr>pa_ID = '''', pa_InstanceKey = '''', pa_Provider = '''', pa_AuthID = '''',
     pa_AuthIndex = '''', pa_CredentialFP = '''', pa_ActivationGroup = '''', pa_WindowKeys = [],
     pa_CycleIDs = [], pa_Phase = AttemptOther '''', pa_CreatedAt = zeroTime,
     pa_SendingAt = zeroTime, pa_SentAt = zeroTime, pa_VerifyNotBefore = zeroTime,
     pa_SuppressUntil = zeroTime, pa_LastError = ''''\<rparr>"

fun recoverLoop ::
  "platform \<Rightarrow> Controller \<Rightarrow> Credential \<Rightarrow> Adapter \<Rightarrow> ActivationOps \<Rightarrow> string list \<Rightarrow> world \<Rightarrow> error option \<times> world" where
  "recoverLoop P C cred ad ops [] w = (None, w)"
| "recoverLoop P C cred ad ops (i # ids) w =
     (let a = getOr zeroAttempt (ps_Attempts (snapshot (pf_lib P) (w_store w))) i
      in if pa_Phase a = AttemptPrepared then
           (case commit P (dropPreparedTx (ctl_nowAt C (w_n w)) i a) w of
              (Some e, w1) \<Rightarrow> (Some e, w1)
            | (None, w1) \<Rightarrow> recoverLoop P C cred ad ops ids w1)
         else if pa_Phase a = AttemptSending then
           (let a' = a\<lparr>pa_Phase := AttemptSentUnknown\<rparr>
            in case markSendOutcome P C a' AttemptSentUnknown ''unknown''
                      (Some (ErrMsg ''recovered during send'')) w of
                 (Some e, w1) \<Rightarrow> (Some e, w1)
               | (None, w1) \<Rightarrow>
                   (case recoverAttempt P C cred ad ops a' w1 of
                      (Some e, w2) \<Rightarrow> (Some e, w2)
                    | (None, w2) \<Rightarrow> recoverLoop P C cred ad ops ids w2))
         else
           (case recoverAttempt P C cred ad ops a w of
              (Some e, w2) \<Rightarrow> (Some e, w2)
            | (None, w2) \<Rightarrow> recoverLoop P C cred ad ops ids w2))"

definition inFlight :: "PersistentState \<Rightarrow> string \<Rightarrow> string list" where
  "inFlight s ik = filter (\<lambda>i. case fmlookup (ps_Attempts s) i of
       None \<Rightarrow> False
     | Some a \<Rightarrow> pa_InstanceKey a = ik \<and> pa_Phase a \<noteq> AttemptCompleted) (fmkeys (ps_Attempts s))"

definition recover ::
  "platform \<Rightarrow> Controller \<Rightarrow> Credential \<Rightarrow> Adapter \<Rightarrow> ActivationOps \<Rightarrow> world \<Rightarrow> error option \<times> world" where
  "recover P C cred ad ops w =
     (case ad_Fingerprint ad (w_n w) cred of
        Inl e \<Rightarrow> (Some e, tick1 w)
      | Inr fp \<Rightarrow>
          recoverLoop P C cred ad ops
            (inFlight (snapshot (pf_lib P) (w_store w)) (instanceKey cred (ad_ID ad) fp)) (tick1 w))"

end
