(* ===== verification/StoreLaws.thy ===== *)
theory StoreLaws
  imports ControllerOps
begin

text \<open>
  What \<open>Store.Update\<close> promises the controller, as an interface: a transaction either
  replaces the state by its (sequence-numbered) result or leaves it alone. The locale
  \<open>transactional\<close> states the two laws and derives the rule for invariants from them; its
  interpretation discharges the laws for \<open>commit\<close> on the modelled store. The trace laws of
  \<open>update\<close> follow.
\<close>

section \<open>The interface\<close>

locale transactional =
  fixes state :: "'w \<Rightarrow> 's"
    and copy :: "'s \<Rightarrow> 's"
    and bump :: "'s \<Rightarrow> 's"
    and run :: "('s \<Rightarrow> 'e + 's) \<Rightarrow> 'w \<Rightarrow> 'e option \<times> 'w"
  assumes run_ok: "run fn w = (None, w') \<Longrightarrow> \<exists>n. fn (copy (state w)) = Inr n \<and> state w' = bump n"
    and run_err: "run fn w = (Some e, w') \<Longrightarrow> state w' = state w"
begin

lemma run_preserves:
  assumes "run fn w = (r, w')" and "I (state w)"
    and "\<And>n. fn (copy (state w)) = Inr n \<Longrightarrow> I (bump n)"
  shows "I (state w')"
  using assms run_ok run_err by (cases r) fastforce+

lemma run_total: "(\<exists>n. state (snd (run fn w)) = bump n) \<or> state (snd (run fn w)) = state w"
  using run_ok run_err by (metis option.exhaust prod.collapse)

end

section \<open>The store provides it\<close>

definition bumpSequence :: "PersistentState \<Rightarrow> PersistentState" where
  "bumpSequence s = s\<lparr>ps_Sequence := ps_Sequence s + 1\<rparr>"

lemma nextState_Inr:
  "nextState L fn s = Inr next \<longleftrightarrow> (\<exists>n. fn (cloneState L s) = Inr n \<and> next = bumpSequence n)"
  by (auto simp: nextState_def bumpSequence_def split: sum.splits)

lemma nextState_Inl: "nextState L fn s = Inl e \<longleftrightarrow> fn (cloneState L s) = Inl e"
  by (auto simp: nextState_def split: sum.splits)

lemma bump_simps [simp]:
  "ps_Windows (bumpSequence s) = ps_Windows s"
  "ps_Attempts (bumpSequence s) = ps_Attempts s"
  "ps_CycleLedger (bumpSequence s) = ps_CycleLedger s"
  "ps_Sequence (bumpSequence s) = ps_Sequence s + 1"
  "ps_Version (bumpSequence s) = ps_Version s"
  by (simp_all add: bumpSequence_def)

lemma tick1_simps [simp]:
  "w_store (tick1 w) = w_store w" "w_fs (tick1 w) = w_fs w" "w_trace (tick1 w) = w_trace w"
  by (simp_all add: tick1_def)

lemma emit_simps [simp]:
  "w_store (emit e w) = w_store w" "w_fs (emit e w) = w_fs w"
  "w_trace (emit e w) = w_trace w @ [e]" "w_n (emit e w) = w_n w"
  by (simp_all add: emit_def)

text \<open>The three outcomes of an update: refused by the transaction, not persisted, committed.\<close>

lemma update_cases:
  obtains (refused) e where
    "nextState (pf_lib P) fn (stateOf w) = Inl e" "update P fn w = (Inl e, tick1 w)"
  | (failed) nxt e f where
    "nextState (pf_lib P) fn (stateOf w) = Inr nxt"
    "persist (pf_lib P) (pf_os P) (pf_io P (w_n w)) (st_path (w_store w)) nxt (w_fs w) = (Some e, f)"
    "update P fn w = (Inl e, emit (EvPersist nxt False f) (tick1 (w\<lparr>w_fs := f\<rparr>)))"
  | (committed) nxt f where
    "nextState (pf_lib P) fn (stateOf w) = Inr nxt"
    "persist (pf_lib P) (pf_os P) (pf_io P (w_n w)) (st_path (w_store w)) nxt (w_fs w) = (None, f)"
    "update P fn w = (Inr (cloneState (pf_lib P) nxt),
       emit (EvPersist nxt True f)
         (tick1 (w\<lparr>w_store := (w_store w)\<lparr>st_state := nxt\<rparr>, w_fs := f\<rparr>)))"
proof (cases "nextState (pf_lib P) fn (stateOf w)")
  case (Inl e)
  then show ?thesis by (auto intro!: refused simp: update_def storeUpdate_def)
next
  case (Inr nxt)
  show ?thesis
  proof (cases "persist (pf_lib P) (pf_os P) (pf_io P (w_n w)) (st_path (w_store w)) nxt (w_fs w)")
    case (Pair r f)
    show ?thesis
    proof (cases r)
      case None
      with Inr Pair show ?thesis
        by (intro committed) (auto simp: update_def storeUpdate_def)
    next
      case (Some e)
      with Inr Pair show ?thesis
        by (intro failed) (auto simp: update_def storeUpdate_def)
    qed
  qed
qed

lemma commit_cases:
  obtains (refused) e where
    "nextState (pf_lib P) fn (stateOf w) = Inl e" "commit P fn w = (Some e, tick1 w)"
  | (failed) nxt e f where
    "nextState (pf_lib P) fn (stateOf w) = Inr nxt"
    "commit P fn w = (Some e, emit (EvPersist nxt False f) (tick1 (w\<lparr>w_fs := f\<rparr>)))"
  | (committed) nxt f where
    "nextState (pf_lib P) fn (stateOf w) = Inr nxt"
    "commit P fn w = (None, emit (EvPersist nxt True f)
         (tick1 (w\<lparr>w_store := (w_store w)\<lparr>st_state := nxt\<rparr>, w_fs := f\<rparr>)))"
  by (rule update_cases [of P fn w]) (auto simp: commit_def)

interpretation store_tx: transactional stateOf "cloneState (pf_lib P)" bumpSequence "commit P"
proof
  fix fn w w'
  assume "commit P fn w = (None, w')"
  then show "\<exists>n. fn (cloneState (pf_lib P) (stateOf w)) = Inr n \<and> stateOf w' = bumpSequence n"
    by (cases rule: commit_cases [of P fn w]) (auto simp: nextState_Inr)
next
  fix fn w e w'
  assume "commit P fn w = (Some e, w')"
  then show "stateOf w' = stateOf w"
    by (cases rule: commit_cases [of P fn w]) auto
qed

text \<open>A commit that succeeds is durable before it returns: its event is the last of the trace.\<close>

lemma commit_None:
  assumes "commit P fn w = (None, w')"
  obtains nxt f where "nextState (pf_lib P) fn (stateOf w) = Inr nxt" "stateOf w' = nxt"
    "w_trace w' = w_trace w @ [EvPersist nxt True f]" "w_fs w' = f"
    "st_path (w_store w') = st_path (w_store w)"
  using assms by (cases rule: commit_cases [of P fn w]) auto

end
