(* ===== verification/ControlSteps.thy ===== *)
theory ControlSteps
  imports StoreLaws
begin

text \<open>
  The controller as a state machine. \<open>ctl_step\<close> is its step relation: an external call, a
  transaction that never shrinks the cycle ledger, or (only for a request that \<open>allow\<close>
  admits) the activation step, which is the prepared transaction, the fence transaction and the
  request, in this order. Every operation of \<open>ControllerOps\<close> refines it (\<open>tick_steps\<close>,
  \<open>recover_steps\<close>, ...), and so does any sequence of operations (\<open>runOps_steps\<close>).
  The admission of a tick (\<open>permits\<close>) says what its requests are for.\<close>

section \<open>The step relation\<close>

definition ledgerDom :: "PersistentState \<Rightarrow> string set" where
  "ledgerDom s = fset (fmdom (ps_CycleLedger s))"

type_synonym admission = "Credential \<Rightarrow> ActivationRequest \<Rightarrow> ProbeAttempt \<Rightarrow> bool"

abbreviation quiet :: admission where
  "quiet \<equiv> \<lambda>_ _ _. False"

definition growsLedger :: "transaction \<Rightarrow> bool" where
  "growsLedger fn \<longleftrightarrow> (\<forall>s n. fn s = Inr n \<longrightarrow> ledgerDom s \<subseteq> ledgerDom n)"

text \<open>No transaction touches the version or the sequence number: \<open>Update\<close> counts.\<close>

definition keepsMeta :: "transaction \<Rightarrow> bool" where
  "keepsMeta fn \<longleftrightarrow>
     (\<forall>s n. fn s = Inr n \<longrightarrow> ps_Version n = ps_Version s \<and> ps_Sequence n = ps_Sequence s)"

definition tame :: "transaction \<Rightarrow> bool" where
  "tame fn \<longleftrightarrow> growsLedger fn \<and> keepsMeta fn"

inductive ctl_step :: "platform \<Rightarrow> admission \<Rightarrow> world \<Rightarrow> world \<Rightarrow> bool" for P allow where
  call: "ctl_step P allow w (tick1 w)"
| transact: "tame fn \<Longrightarrow> ctl_step P allow w (snd (update P fn w))"
| activate: "allow cred req a' \<Longrightarrow> pa_Phase a = AttemptPrepared \<Longrightarrow>
    commit P (prepareTx a) w = (None, w1) \<Longrightarrow>
    a' = a\<lparr>pa_Phase := AttemptSending, pa_SendingAt := t\<rparr> \<Longrightarrow>
    commit P (fenceTx a' t) (tick1 w1) = (None, w2) \<Longrightarrow>
    ctl_step P allow w (emit (EvSend cred req a') (tick1 w2))"

inductive ctl_steps :: "platform \<Rightarrow> admission \<Rightarrow> world \<Rightarrow> world \<Rightarrow> bool" for P allow where
  refl [intro!, simp]: "ctl_steps P allow w w"
| step: "ctl_steps P allow w v \<Longrightarrow> ctl_step P allow v u \<Longrightarrow> ctl_steps P allow w u"

lemma ctl_steps_one [intro]: "ctl_step P allow w v \<Longrightarrow> ctl_steps P allow w v"
  by (rule ctl_steps.step [OF ctl_steps.refl])

lemma ctl_steps_trans [trans]:
  assumes "ctl_steps P allow w v" and "ctl_steps P allow v u"
  shows "ctl_steps P allow w u"
  using assms(2,1) by (induction rule: ctl_steps.induct) (auto intro: ctl_steps.step)

lemma ctl_step_mono:
  "ctl_step P allow w v \<Longrightarrow> (\<And>c r a. allow c r a \<Longrightarrow> allow' c r a) \<Longrightarrow> ctl_step P allow' w v"
  by (auto elim!: ctl_step.cases intro: ctl_step.intros)

lemma ctl_steps_mono:
  assumes "ctl_steps P allow w v" and "\<And>c r a. allow c r a \<Longrightarrow> allow' c r a"
  shows "ctl_steps P allow' w v"
  using assms(1)
  by (induction rule: ctl_steps.induct) (auto intro: ctl_steps.step ctl_step_mono [OF _ assms(2)])

lemma steps_call: "ctl_steps P allow (tick1 w) v \<Longrightarrow> ctl_steps P allow w v"
  by (rule ctl_steps_trans [OF ctl_steps_one [OF ctl_step.call]])

lemma steps_call_end: "ctl_steps P allow w v \<Longrightarrow> ctl_steps P allow w (tick1 v)"
  by (rule ctl_steps.step [OF _ ctl_step.call])

lemma update_steps: "tame fn \<Longrightarrow> update P fn w = (r, w') \<Longrightarrow> ctl_steps P allow w w'"
  using ctl_steps_one [OF ctl_step.transact [of fn P allow w]] by simp

lemma commit_steps: "tame fn \<Longrightarrow> commit P fn w = (r, w') \<Longrightarrow> ctl_steps P allow w w'"
  by (auto simp: commit_def split: prod.splits sum.splits intro: update_steps)

section \<open>No transaction shrinks the ledger\<close>

lemma ledgerDom_simps [simp]:
  "ledgerDom (rangeWindows f s) = ledgerDom s"
  "ledgerDom (modifyWindows g ks s) = ledgerDom s"
  "ledgerDom (putWindow k r s) = ledgerDom s"
  "ledgerDom (putAttempt a s) = ledgerDom s"
  "ledgerDom (bumpSequence s) = ledgerDom s"
  "ledgerDom (s\<lparr>ps_Attempts := x\<rparr>) = ledgerDom s"
  "ledgerDom (s\<lparr>ps_CycleLedger := putAll h z cs (ps_CycleLedger s)\<rparr>) = ledgerDom s \<union> set cs"
  by (simp_all add: ledgerDom_def rangeWindows_def modifyWindows_def putWindow_def putAttempt_def
      bumpSequence_def)

lemma ledgerDom_reconcile: "ledgerDom (fst (reconcileState L cfg t cred ik fp can ws s)) = ledgerDom s"
proof -
  have "ledgerDom (fst (fold (reconcileWindow L cfg t cred ik fp can) ws sg)) = ledgerDom (fst sg)" for sg
    by (induction ws arbitrary: sg)
      (auto simp: reconcileWindow_def Let_def split: prod.splits)
  from this [of "(s, fmempty)"] show ?thesis
    by (cases "fold (reconcileWindow L cfg t cred ik fp can) ws (s, fmempty)")
      (simp add: reconcileState_def markAbsent_def)
qed

lemma ledgerDom_precheck: "ledgerDom (fst (precheckState L cfg t can ws rs s)) = ledgerDom s"
proof -
  have "ledgerDom (fst (fold (precheckStep L cfg t can bs) rs sc)) = ledgerDom (fst sc)" for bs sc
    by (induction rs arbitrary: sc)
      (auto simp: precheckStep_def Let_def split: prod.splits option.splits)
  from this [of _ "(s, [])"] show ?thesis by (simp add: precheckState_def)
qed

lemma ledgerDom_verify: "ledgerDom (fold (verifyStep L cfg t v bs) ks s) = ledgerDom s"
  by (induction ks arbitrary: s) (auto simp: verifyStep_def split: option.splits)

lemma growsLedger_tx [intro, simp]:
  "growsLedger (markCredentialStateTx cred st res)"
  "growsLedger (retireReplacedTx cred cur)"
  "growsLedger (markReadFailureTx cfg na ik cause)"
  "growsLedger (dryRunTx cfg na rs)"
  "growsLedger (recordGroupFailureTx cfg na rs cause)"
  "growsLedger (dropPreparedTx na i a)"
  "growsLedger (\<lambda>s. Inr (fst (reconcileState L cfg t cred ik fp can ws s)))"
  "growsLedger (\<lambda>s. Inr (fst (precheckState L cfg t can2 ws rs s)))"
  by (auto simp: growsLedger_def markCredentialStateTx_def retireReplacedTx_def
      markReadFailureTx_def dryRunTx_def recordGroupFailureTx_def dropPreparedTx_def
      ledgerDom_reconcile ledgerDom_precheck)

lemma prepareTx_Inr:
  assumes "prepareTx a s = Inr n"
  shows "ledgerDom n = ledgerDom s" "set (pa_CycleIDs a) \<inter> ledgerDom s = {}"
    "fmlookup (ps_Attempts n) (pa_ID a) = Some a"
  using assms
  by (auto simp: prepareTx_def firstFenced_def ledgerDom_def find_None_iff fmlookup_dom_iff
      modifyWindows_def putAttempt_def split: option.splits)

lemma fenceTx_Inr:
  assumes "fenceTx a t s = Inr n"
  shows "ledgerDom n = ledgerDom s \<union> set (pa_CycleIDs a)"
    "fmlookup (ps_Attempts n) (pa_ID a) = Some a"
  using assms
  by (auto simp: fenceTx_def Let_def putAttempt_def ledgerDom_def modifyWindows_def
      split: option.splits if_splits)

lemma growsLedger_fence [intro, simp]:
  "growsLedger (prepareTx a)" "growsLedger (fenceTx a t)"
  by (auto simp: growsLedger_def dest: prepareTx_Inr(1) fenceTx_Inr(1))

lemma growsLedger_outcome [intro, simp]:
  "growsLedger (markSendOutcomeTx t a ph out cause)"
  by (auto simp: growsLedger_def markSendOutcomeTx_def Let_def ledgerDom_def modifyWindows_def
      split: option.splits)

lemma growsLedger_verify [intro, simp]: "growsLedger (verifyTx L cfg t v ws i)"
  by (auto simp: growsLedger_def verifyTx_def Let_def ledgerDom_verify split: option.splits)

section \<open>No transaction touches the version or the sequence number\<close>

definition meta :: "PersistentState \<Rightarrow> int \<times> 64 word" where
  "meta s = (ps_Version s, ps_Sequence s)"

lemma keepsMeta_meta: "keepsMeta fn \<longleftrightarrow> (\<forall>s n. fn s = Inr n \<longrightarrow> meta n = meta s)"
  by (simp add: keepsMeta_def meta_def)

lemma meta_simps [simp]:
  "meta (rangeWindows f s) = meta s"
  "meta (modifyWindows g ks s) = meta s"
  "meta (putWindow k r s) = meta s"
  "meta (putAttempt a s) = meta s"
  "meta (s\<lparr>ps_Attempts := x\<rparr>) = meta s"
  "meta (s\<lparr>ps_CycleLedger := y\<rparr>) = meta s"
  by (simp_all add: meta_def rangeWindows_def modifyWindows_def putWindow_def putAttempt_def)

lemma meta_reconcile: "meta (fst (reconcileState L cfg t cred ik fp can ws s)) = meta s"
proof -
  have "meta (fst (fold (reconcileWindow L cfg t cred ik fp can) ws sg)) = meta (fst sg)" for sg
    by (induction ws arbitrary: sg) (auto simp: reconcileWindow_def Let_def split: prod.splits)
  from this [of "(s, fmempty)"] show ?thesis
    by (simp add: reconcileState_def markAbsent_def case_prod_beta Let_def)
qed

lemma meta_precheck: "meta (fst (precheckState L cfg t can ws rs s)) = meta s"
proof -
  have "meta (fst (fold (precheckStep L cfg t can bs) rs sc)) = meta (fst sc)" for bs sc
    by (induction rs arbitrary: sc)
      (auto simp: precheckStep_def Let_def split: prod.splits option.splits)
  from this [of _ "(s, [])"] show ?thesis by (simp add: precheckState_def)
qed

lemma meta_verify: "meta (fold (verifyStep L cfg t v bs) ks s) = meta s"
  by (induction ks arbitrary: s) (auto simp: verifyStep_def split: option.splits)

lemma keepsMeta_tx [intro, simp]:
  "keepsMeta (markCredentialStateTx cred st res)"
  "keepsMeta (retireReplacedTx cred cur)"
  "keepsMeta (markReadFailureTx cfg na ik cause)"
  "keepsMeta (dryRunTx cfg na rs)"
  "keepsMeta (recordGroupFailureTx cfg na rs cause)"
  "keepsMeta (dropPreparedTx na i a)"
  "keepsMeta (prepareTx a)"
  "keepsMeta (fenceTx a t)"
  "keepsMeta (markSendOutcomeTx t a ph out err)"
  "keepsMeta (verifyTx L cfg t v ws i)"
  "keepsMeta (\<lambda>s. Inr (fst (reconcileState L cfg t cred ik fp can ws s)))"
  "keepsMeta (\<lambda>s. Inr (fst (precheckState L cfg t can2 ws rs s)))"
  by (auto simp: keepsMeta_meta markCredentialStateTx_def retireReplacedTx_def markReadFailureTx_def
      dryRunTx_def recordGroupFailureTx_def dropPreparedTx_def prepareTx_def fenceTx_def
      markSendOutcomeTx_def verifyTx_def meta_reconcile meta_precheck meta_verify Let_def
      split: option.splits if_splits)

lemma tame_tx [intro, simp]:
  "tame (markCredentialStateTx cred st res)"
  "tame (retireReplacedTx cred cur)"
  "tame (markReadFailureTx cfg na ik cause)"
  "tame (dryRunTx cfg na rs)"
  "tame (recordGroupFailureTx cfg na rs cause)"
  "tame (dropPreparedTx na i a)"
  "tame (prepareTx a)"
  "tame (fenceTx a t)"
  "tame (markSendOutcomeTx t a ph out err)"
  "tame (verifyTx L cfg t v ws i)"
  "tame (\<lambda>s. Inr s)"
  "tame (\<lambda>s. Inr (fst (reconcileState L cfg t cred ik fp can ws s)))"
  "tame (\<lambda>s. Inr (fst (precheckState L cfg t can2 ws rs s)))"
  by (simp_all add: tame_def) (simp_all add: growsLedger_def keepsMeta_def)

section \<open>Every operation is a sequence of steps\<close>

text \<open>First the operations that perform no activation request, whatever happens outside.\<close>

lemma markCredentialState_steps:
  "markCredentialState P cred st res w = (r, w') \<Longrightarrow> ctl_steps P allow w w'"
  unfolding markCredentialState_def by (rule commit_steps [rotated]) auto

lemma blockCredential_steps: "blockCredential P cred res w = (r, w') \<Longrightarrow> ctl_steps P allow w w'"
  unfolding blockCredential_def by (rule markCredentialState_steps)

lemma retire_steps: "retireReplacedInstances P cred cur w = (r, w') \<Longrightarrow> ctl_steps P allow w w'"
  unfolding retireReplacedInstances_def by (rule commit_steps [rotated]) auto

lemma markReadFailure_steps: "markReadFailure P C ik cause w = (r, w') \<Longrightarrow> ctl_steps P allow w w'"
  by (auto simp: markReadFailure_def commitThen_def dest: commit_steps [rotated]
      split: prod.splits option.splits)

lemma recordGroupFailure_steps:
  "recordGroupFailure P C rs cause sent w = (r, w') \<Longrightarrow> ctl_steps P allow w w'"
  by (auto simp: recordGroupFailure_def dest: commit_steps [rotated]
      split: prod.splits option.splits if_splits)

lemma commit_steps_call:
  "commit P fn (tick1 w) = (r, w') \<Longrightarrow> tame fn \<Longrightarrow> ctl_steps P allow w w'"
  by (rule steps_call, rule commit_steps)

lemma markSendOutcome_steps:
  "markSendOutcome P C a ph out cause w = (r, w') \<Longrightarrow> ctl_steps P allow w w'"
  by (auto simp: markSendOutcome_def readClock_def dest: commit_steps_call)

lemma readQuota_steps: "readQuota ad cred w = (r, w') \<Longrightarrow> ctl_steps P allow w w'"
  by (auto simp: readQuota_def intro: steps_call)

lemma verifyAttempt_steps:
  assumes "verifyAttempt P C cred ad ops a w = (r, w')"
  shows "ctl_steps P allow w w'"
proof -
  have "ctl_steps P allow (tick1 w) w'"
    using assms
    by (auto simp: verifyAttempt_def readQuota_def readClock_def
        dest: markSendOutcome_steps commit_steps_call split: sum.splits)
  then show ?thesis by (rule steps_call)
qed

lemma reconcile_steps:
  assumes "reconcileObservation P C cred ik fp ws act w = (r, w')"
  shows "ctl_steps P allow w w'"
proof -
  have "\<exists>r. update P (\<lambda>s. Inr (fst (reconcileState (pf_lib P) (ctl_cfg C) (ctl_now C (w_n w))
      cred ik fp (canActivate act) ws s))) (tick1 w) = (r, w')"
    using assms
    by (auto simp: reconcileObservation_def readClock_def Let_def split: prod.splits sum.splits)
  then show ?thesis by (auto intro: steps_call [OF update_steps [OF tame_tx(12)]])
qed

lemma precheckGroup_steps:
  assumes "precheckGroup P C cred ad ops rs w = (r, w')"
  shows "ctl_steps P allow w w'"
proof -
  let ?tx = "\<lambda>ws. (\<lambda>s. Inr (fst (precheckState (pf_lib P) (ctl_cfg C)
      (ctl_now C (Suc (w_n w))) (ac_CanActivate ops) ws rs s)))"
  have "(\<exists>e r. recordGroupFailure P C rs e False (tick1 w) = (r, w')) \<or>
      (\<exists>ws r. update P (?tx ws) (tick1 (tick1 w)) = (r, w'))"
    using assms
    by (auto simp: precheckGroup_def readQuota_def readClock_def Let_def tick1_def
        split: prod.splits sum.splits option.splits)
  then show ?thesis
    by (auto intro: steps_call recordGroupFailure_steps
        steps_call [OF steps_call [OF update_steps [OF tame_tx(13)]]])
qed

lemma recoverAttempt_steps:
  assumes "recoverAttempt P C cred ad ops a w = (r, w')"
  shows "ctl_steps P allow w w'"
proof -
  consider (early) "w' = tick1 (tick1 (tick1 w))"
    | (waited) "verifyAttempt P C cred ad ops a (tick1 (tick1 (tick1 w))) = (r, w')"
    | (direct) "verifyAttempt P C cred ad ops a (tick1 w) = (r, w')"
    using assms by (auto simp: recoverAttempt_def readClock_def split: option.splits if_splits)
  then show ?thesis
    by cases (auto intro!: steps_call_end ctl_steps.refl
        dest!: verifyAttempt_steps [of P C cred ad ops a _ r w' allow] dest: steps_call)
qed

lemma recoverLoop_steps:
  "recoverLoop P C cred ad ops ids w = (r, w') \<Longrightarrow> ctl_steps P allow w w'"
proof (induction ids arbitrary: w)
  case Nil
  then show ?case by simp
next
  case (Cons i ids)
  have tail: "ctl_steps P allow w w'"
    if "ctl_steps P allow w (snd x)" "(case x of (Some e, u) \<Rightarrow> (Some e, u)
        | (None, u) \<Rightarrow> recoverLoop P C cred ad ops ids u) = (r, w')" for x w
    using that Cons.IH [of "snd x"] by (cases x) (auto split: option.splits intro: ctl_steps_trans)
  let ?a = "getOr zeroAttempt (ps_Attempts (snapshot (pf_lib P) (w_store w))) i"
  show ?case
  proof (cases "pa_Phase ?a = AttemptPrepared \<or> pa_Phase ?a \<noteq> AttemptSending")
    case True
    with Cons.prems show ?thesis
      by (auto simp: Let_def split: if_splits
          intro: tail commit_steps [OF _ surjective_pairing]
            recoverAttempt_steps [OF surjective_pairing])
  next
    case False
    let ?m = "markSendOutcome P C (?a\<lparr>pa_Phase := AttemptSentUnknown\<rparr>) AttemptSentUnknown
        ''unknown'' (Some (ErrMsg ''recovered during send'')) w"
    have m: "ctl_steps P allow w (snd ?m)"
      by (rule markSendOutcome_steps [OF surjective_pairing])
    show ?thesis
    proof (cases "fst ?m")
      case None
      have "ctl_steps P allow w (snd (recoverAttempt P C cred ad ops
          (?a\<lparr>pa_Phase := AttemptSentUnknown\<rparr>) (snd ?m)))"
        by (rule ctl_steps_trans [OF m]) (rule recoverAttempt_steps [OF surjective_pairing])
      then show ?thesis
        using Cons.prems False None by (cases ?m) (auto simp: Let_def intro: tail)
    next
      case (Some e)
      with Cons.prems False m show ?thesis by (cases ?m) (auto simp: Let_def)
    qed
  qed
qed

lemma recover_steps: "recover P C cred ad ops w = (r, w') \<Longrightarrow> ctl_steps P allow w w'"
  by (auto simp: recover_def intro: recoverLoop_steps steps_call steps_call_end split: sum.splits)

text \<open>What follows the send inside \<open>sendAndVerify\<close> is quiet again.\<close>

lemma sendAndVerify_rest:
  assumes "sendAndVerify P C send cred ad ops req a w = (r, w')"
  shows "ctl_steps P allow (emit (EvSend cred req a) (tick1 w)) w'"
proof -
  let ?w1 = "emit (EvSend cred req a) (tick1 w)"
  let ?a = "a\<lparr>pa_Phase := AttemptSent, pa_SentAt := ctl_now C (w_n ?w1)\<rparr>"
  let ?m = "markSendOutcome P C ?a AttemptSent ''sent'' None (tick1 ?w1)"
  have m: "ctl_steps P allow ?w1 (snd ?m)"
    by (rule steps_call [OF markSendOutcome_steps [OF surjective_pairing]])
  consider (sendErr) e where "markSendOutcome P C a AttemptSentUnknown ''unknown'' (Some e) ?w1 = (r, w')"
    | (stop) "snd ?m = w'"
    | (waitErr) e where "markSendOutcome P C ?a AttemptSentUnknown ''unknown'' (Some e) (tick1 (snd ?m)) = (r, w')"
    | (verify) "verifyAttempt P C cred ad ops ?a (tick1 (snd ?m)) = (r, w')"
    using assms
    by (cases ?m) (auto simp: sendAndVerify_def Let_def readClock_def split: option.splits)
  then show ?thesis
  proof cases
    case sendErr
    then show ?thesis by (rule markSendOutcome_steps)
  next
    case stop
    with m show ?thesis by simp
  next
    case waitErr
    then show ?thesis
      by (rule ctl_steps_trans [OF m steps_call [OF markSendOutcome_steps]])
  next
    case verify
    then show ?thesis by (rule ctl_steps_trans [OF m steps_call [OF verifyAttempt_steps]])
  qed
qed

text \<open>The two transactions and the request are one activation step.\<close>

lemma fenceAndSend_steps:
  assumes "fenceAndSend P C send cred ad ops req a w = (r, w')" and "pa_Phase a = AttemptPrepared"
    and allowed: "\<And>t. allow cred req (a\<lparr>pa_Phase := AttemptSending, pa_SendingAt := t\<rparr>)"
  shows "ctl_steps P allow w w'"
proof -
  obtain p w1 where pre: "commit P (prepareTx a) w = (p, w1)" by fastforce
  then have s1: "ctl_steps P allow w w1" by (rule commit_steps [rotated]) simp
  show ?thesis
  proof (cases p)
    case (Some e)
    with assms pre s1 show ?thesis by (simp add: fenceAndSend_def)
  next
    case None
    let ?t = "ctl_now C (w_n w1)"
    let ?a' = "a\<lparr>pa_Phase := AttemptSending, pa_SendingAt := ?t\<rparr>"
    obtain q w3 where fence: "commit P (fenceTx ?a' ?t) (tick1 w1) = (q, w3)" by fastforce
    show ?thesis
    proof (cases q)
      case (Some e)
      with assms pre None fence have "w' = w3"
        by (simp add: fenceAndSend_def readClock_def Let_def)
      moreover have "ctl_steps P allow w1 w3" using fence by (rule commit_steps_call) simp
      ultimately show ?thesis using s1 by (blast intro: ctl_steps_trans)
    next
      case q: None
      have send: "sendAndVerify P C send cred ad ops req ?a' w3 = (r, w')"
        using assms pre None fence q by (simp add: fenceAndSend_def readClock_def Let_def)
      have "ctl_step P allow w (emit (EvSend cred req ?a') (tick1 w3))"
        using allowed assms(2)
        by (rule ctl_step.activate [OF _ _ pre [unfolded None] HOL.refl fence [unfolded q]])
      then show ?thesis
        by (rule ctl_steps_trans [OF ctl_steps_one sendAndVerify_rest [OF send]])
    qed
  qed
qed

lemma newAttempt_phase [simp]: "pa_Phase (newAttempt cfg cred i g t rs) = AttemptPrepared"
  by (simp add: newAttempt_def)

text \<open>
  What a request of a tick is for: the adapter planned it, within positive limits, for a
  non-empty list of records, and the attempt covers exactly these records.
\<close>

definition planned :: "ActivationOps \<Rightarrow> Credential \<Rightarrow> WindowRecord list \<Rightarrow> admission" where
  "planned ops cred rs c req a \<longleftrightarrow>
     c = cred \<and> pa_AuthID a = cred_AuthID cred \<and> pa_WindowKeys a = map wr_Key rs \<and>
     pa_CycleIDs a = map (bl_CycleID \<circ> wr_Baseline) rs \<and>
     (\<exists>n plan. ac_PlanActivation ops n cred rs = Inr plan \<and> pl_MaxInput plan > 0 \<and>
        pl_MaxOutput plan > 0 \<and> rq_URL (pl_Request plan) \<noteq> '''' \<and> req = pl_Request plan)"

lemma activateGroup_steps:
  assumes "activateGroup P C cred ad ops rs w = (r, w')"
  shows "ctl_steps P (planned ops cred rs) w w'"
proof -
  consider (nothing) "w' = w" | (randErr) "w' = tick1 (tick1 w)"
    | (planErr) e where "recordGroupFailure P C rs e False (tick1 w) = (r, w')"
    | (go) send plan i t where
      "fenceAndSend P C send cred ad ops (pl_Request plan)
         (newAttempt (ctl_cfg C) cred i (pl_Group plan) t rs) (tick1 (tick1 (tick1 w))) = (r, w')"
      "ac_PlanActivation ops (w_n w) cred rs = Inr plan"
      "pl_MaxInput plan > 0" "pl_MaxOutput plan > 0" "rq_URL (pl_Request plan) \<noteq> ''''"
    using assms
    by (auto simp: activateGroup_def readClock_def not_le split: option.splits sum.splits if_splits)
  then show ?thesis
  proof cases
    case nothing
    then show ?thesis by simp
  next
    case randErr
    then show ?thesis by (auto intro: steps_call_end)
  next
    case planErr
    then show ?thesis by (rule steps_call [OF recordGroupFailure_steps])
  next
    case go
    have "planned ops cred rs cred (pl_Request plan)
        ((newAttempt (ctl_cfg C) cred i (pl_Group plan) t rs)
          \<lparr>pa_Phase := AttemptSending, pa_SendingAt := t'\<rparr>)" for t'
      using go(2-5) by (auto simp: planned_def newAttempt_def)
    then show ?thesis
      by (rule steps_call [OF steps_call [OF steps_call [OF
            fenceAndSend_steps [OF go(1) newAttempt_phase]]]])
  qed
qed

text \<open>
  The records a request is for: each was found lazy by the reading it rests on, activation
  capable, and either carries the provider's lazy evidence or still shows the reset of its
  baseline. The records of a group that skipped the precheck have reached their deadline.
\<close>

definition stillLazy :: "Config \<Rightarrow> ActivationOps \<Rightarrow> WindowRecord \<Rightarrow> bool" where
  "stillLazy cfg ops r \<longleftrightarrow>
     wr_State r = StateLazyDetected \<and> ac_CanActivate ops (wr_Latest r) \<and>
     (qw_LazyHint (wr_Latest r) \<or>
      absDuration (subTime (qw_ResetAt (wr_Latest r)) (bl_ResetAt (wr_Baseline r))) \<le> cfg_ClockSkewTolerance cfg)"

definition candidate :: "Config \<Rightarrow> ActivationOps \<Rightarrow> WindowRecord \<Rightarrow> bool" where
  "candidate cfg ops r \<longleftrightarrow> wr_State r = StatePendingPrecheck \<or> stillLazy cfg ops r"

lemma firstRecord_candidate:
  "firstRecord L cfg now cred ik fp can w = (r, True) \<Longrightarrow> wr_State r = StatePendingPrecheck"
  by (auto simp: firstRecord_def Let_def split: if_splits)

lemma nextRecord_candidate:
  assumes "nextRecord L cfg now ik (ac_CanActivate ops w) ledger w r0 = (r, True)"
  shows "candidate cfg ops r"
  using assms
  by (auto simp: nextRecord_def Let_def candidate_def stillLazy_def split: if_splits)

lemma precheckRecord_stillLazy:
  assumes "precheckRecord L cfg now (ac_CanActivate ops) found r0 = (r, True)"
  shows "stillLazy cfg ops r"
  using assms
  by (auto simp: precheckRecord_def Let_def stillLazy_def split: option.splits if_splits)

text \<open>Every record of the groups a reconciliation makes is a candidate.\<close>

definition groupsAll :: "(WindowRecord \<Rightarrow> bool) \<Rightarrow> groups \<Rightarrow> bool" where
  "groupsAll Q gs \<longleftrightarrow> (\<forall>g. \<forall>r \<in> set (getOr [] gs g). Q r)"

lemma groupsAll_empty [simp]: "groupsAll Q fmempty"
  by (simp add: groupsAll_def getOr_def)

lemma groupsAll_add [simp]: "groupsAll Q gs \<Longrightarrow> groupsAll Q (addGroup g r gs) \<longleftrightarrow> Q r"
  by (auto simp: groupsAll_def addGroup_def)

lemma groupsAll_list: "groupsAll Q gs \<Longrightarrow> rs \<in> set (groupList gs) \<Longrightarrow> r \<in> set rs \<Longrightarrow> Q r"
  by (auto simp: groupsAll_def groupList_def)

lemma reconcileWindow_candidates:
  assumes "groupsAll (candidate cfg ops) (snd sg)"
  shows "groupsAll (candidate cfg ops)
    (snd (reconcileWindow L cfg now cred ik fp (ac_CanActivate ops) w sg))"
proof -
  obtain s gs where sg: "sg = (s, gs)" by fastforce
  let ?obs = "attribute cred w"
  let ?x = "case fmlookup (ps_Windows s) (windowKey ik (qw_BucketID ?obs)) of
      None \<Rightarrow> firstRecord L cfg now cred ik fp (ac_CanActivate ops ?obs) ?obs
    | Some r \<Rightarrow> nextRecord L cfg now ik (ac_CanActivate ops ?obs) (ps_CycleLedger s) ?obs r"
  have cand: "candidate cfg ops r" if "?x = (r, True)" for r
    using that nextRecord_candidate firstRecord_candidate
    by (auto simp: candidate_def split: option.splits)
  obtain r j where x: "?x = (r, j)" by fastforce
  with assms cand [of r] show ?thesis
    by (cases j) (simp_all add: reconcileWindow_def sg Let_def)
qed

lemma reconcileState_candidates:
  "groupsAll (candidate cfg ops)
     (snd (reconcileState L cfg now cred ik fp (ac_CanActivate ops) ws s))"
proof -
  have "groupsAll (candidate cfg ops) (snd (fold (reconcileWindow L cfg now cred ik fp
      (ac_CanActivate ops)) ws sg))" if "groupsAll (candidate cfg ops) (snd sg)" for sg
    using that by (induction ws arbitrary: sg) (simp_all add: reconcileWindow_candidates)
  from this [of "(s, fmempty)"] show ?thesis
    by (simp add: reconcileState_def case_prod_beta Let_def)
qed

lemma reconcileObservation_candidates:
  assumes "reconcileObservation P C cred ik fp ws (Some ops) w = (Inr groups, w')"
    and "rs \<in> set groups" and "r \<in> set rs"
  shows "candidate (ctl_cfg C) ops r"
proof -
  have can: "canActivate (Some ops) = ac_CanActivate ops" by (rule ext) (simp add: canActivate_def)
  obtain s where "groups = groupList (snd (reconcileState (pf_lib P) (ctl_cfg C) (ctl_now C (w_n w))
      cred ik fp (ac_CanActivate ops) ws s))"
    using assms(1)
    by (auto simp: reconcileObservation_def readClock_def Let_def can split: prod.splits sum.splits)
  then show ?thesis using groupsAll_list [OF reconcileState_candidates] assms(2,3) by blast
qed

lemma precheckState_stillLazy:
  "\<forall>r \<in> set (snd (precheckState L cfg now (ac_CanActivate ops) ws rs s)). stillLazy cfg ops r"
proof -
  have step: "\<forall>r \<in> set (snd (precheckStep L cfg now (ac_CanActivate ops) bs r0 sc)). stillLazy cfg ops r"
    if "\<forall>r \<in> set (snd sc). stillLazy cfg ops r" for sc bs r0
  proof (cases "fmlookup (ps_Windows (fst sc)) (wr_Key r0)")
    case None
    with that show ?thesis by (simp add: precheckStep_def case_prod_beta)
  next
    case (Some x)
    obtain r ok where "precheckRecord L cfg now (ac_CanActivate ops) (fmlookup bs (wr_BucketID x)) x = (r, ok)"
      by fastforce
    moreover from this have "ok \<Longrightarrow> stillLazy cfg ops r" by (simp add: precheckRecord_stillLazy)
    ultimately show ?thesis using that Some by (simp add: precheckStep_def case_prod_beta)
  qed
  have "\<forall>r \<in> set (snd (fold (precheckStep L cfg now (ac_CanActivate ops) bs) rs sc)). stillLazy cfg ops r"
    if "\<forall>r \<in> set (snd sc). stillLazy cfg ops r" for sc bs
    using that
  proof (induction rs arbitrary: sc)
    case (Cons r0 rs)
    from Cons.IH [OF step [OF Cons.prems]] show ?case by simp
  qed simp
  from this [of "(s, [])"] show ?thesis by (simp add: precheckState_def)
qed

lemma precheckGroup_stillLazy:
  assumes "precheckGroup P C cred ad ops rs w = (Inr confirmed, w')"
  shows "\<forall>r \<in> set confirmed. stillLazy (ctl_cfg C) ops r"
  using assms precheckState_stillLazy
  by (fastforce simp: precheckGroup_def readQuota_def readClock_def Let_def
      split: prod.splits sum.splits option.splits)

text \<open>Everything a tick of this controller may request for a credential.\<close>

definition justified :: "Controller \<Rightarrow> Credential \<Rightarrow> ActivationOps \<Rightarrow> admission" where
  "justified C cred ops c req a \<longleftrightarrow>
     \<not> cfg_DryRun (ctl_cfg C) \<and> ctl_sender C \<noteq> None \<and>
     (\<exists>rs. rs \<noteq> [] \<and> (\<forall>r \<in> set rs. stillLazy (ctl_cfg C) ops r) \<and> planned ops cred rs c req a)"

fun permits :: "Controller \<Rightarrow> Credential \<Rightarrow> Adapter option \<Rightarrow> admission" where
  "permits C cred None c req a = False"
| "permits C cred (Some ad) c req a =
     (\<not> cred_Disabled cred \<and> ad_Match ad cred \<and> (\<exists>n fp. ad_Fingerprint ad n cred = Inr fp) \<and>
      (\<exists>ops. ad_Activation ad = Some ops \<and> justified C cred ops c req a))"

lemma dryRunOrActivate_steps:
  assumes "dryRunOrActivate P C cred ad ops rs w = (r, w')"
    and "rs \<noteq> []" and "\<forall>r \<in> set rs. stillLazy (ctl_cfg C) ops r"
  shows "ctl_steps P (justified C cred ops) w w'"
proof (cases "cfg_DryRun (ctl_cfg C) \<or> ctl_sender C = None")
  case True
  with assms(1) show ?thesis
    by (auto simp: dryRunOrActivate_def activateGroup_def dest: commit_steps [rotated] split: if_splits)
next
  case False
  then have "ctl_steps P (planned ops cred rs) w w'"
    using assms(1) by (simp add: dryRunOrActivate_def activateGroup_steps)
  then show ?thesis
    by (rule ctl_steps_mono) (use False assms(2,3) in \<open>auto simp: justified_def\<close>)
qed

lemma runGroup_steps:
  assumes "runGroup P C cred ad ops rs w = (r, w')"
    and cand: "\<forall>r \<in> set rs. candidate (ctl_cfg C) ops r"
  shows "ctl_steps P (justified C cred ops) w w'"
proof (cases "rs = [] \<or> \<not> needsPrecheck rs")
  case True
  with assms show ?thesis
    by (auto simp: runGroup_def needsPrecheck_def candidate_def intro: dryRunOrActivate_steps
        split: if_splits)
next
  case False
  obtain x v where p: "precheckGroup P C cred ad ops rs w = (x, v)" by fastforce
  then have s: "ctl_steps P (justified C cred ops) w v" by (rule precheckGroup_steps)
  show ?thesis
  proof (cases x)
    case (Inl e)
    with False p s assms(1) show ?thesis by (simp add: runGroup_def)
  next
    case (Inr confirmed)
    with p have "\<forall>r \<in> set confirmed. stillLazy (ctl_cfg C) ops r"
      using precheckGroup_stillLazy by blast
    with False p s Inr assms(1) show ?thesis
      by (auto simp: runGroup_def intro: ctl_steps_trans dryRunOrActivate_steps split: if_splits)
  qed
qed

lemma runGroups_steps:
  "runGroups P C cred ad ops gs w = (r, w') \<Longrightarrow>
   \<forall>rs \<in> set gs. \<forall>r \<in> set rs. candidate (ctl_cfg C) ops r \<Longrightarrow>
   ctl_steps P (justified C cred ops) w w'"
proof (induction gs arbitrary: w)
  case Nil
  then show ?case by simp
next
  case (Cons g gs)
  obtain x v where g: "runGroup P C cred ad ops g w = (x, v)" by fastforce
  then have "ctl_steps P (justified C cred ops) w v"
    by (rule runGroup_steps) (use Cons.prems(2) in simp)
  with Cons g show ?case by (cases x) (auto intro: ctl_steps_trans)
qed

lemma tick_steps:
  assumes "tick P C cred adapter w = (r, w')"
  shows "ctl_steps P (permits C cred adapter) w w'"
proof (cases adapter)
  case None
  with assms show ?thesis by (simp add: tick_def)
next
  case (Some ad)
  show ?thesis
  proof (cases "cred_Disabled cred \<or> \<not> ad_Match ad cred \<or> isl (ad_Fingerprint ad (w_n w) cred)")
    case True
    with assms Some show ?thesis
      by (auto simp: tick_def isl_def intro: markCredentialState_steps ctl_steps_one [OF ctl_step.call]
          split: if_splits sum.splits)
  next
    case False
    then obtain fp where fp: "\<not> cred_Disabled cred" "ad_Match ad cred" "ad_Fingerprint ad (w_n w) cred = Inr fp"
      by (auto simp: isl_def split: sum.splits) (metis sum.exhaust)
    let ?ik = "instanceKey cred (ad_ID ad) fp"
    let ?allow = "permits C cred adapter"
    obtain x w1 where x: "retireReplacedInstances P cred ?ik w = (x, w1)" by fastforce
    obtain q where q: "readQuota ad cred w1 = (q, tick1 w1)" by (simp add: readQuota_def)
    have s1: "ctl_steps P ?allow w w1" using x by (rule retire_steps)
    then have s2: "ctl_steps P ?allow w (tick1 w1)" by (rule steps_call_end)
    consider "w' = w1" | "w' = tick1 w1"
      | e where "markReadFailure P C ?ik e (tick1 w1) = (r, w')"
      | ws y where "reconcileObservation P C cred ?ik fp ws (ad_Activation ad) (tick1 w1) = (y, w')"
      | ws gs ops w3 where "reconcileObservation P C cred ?ik fp ws (Some ops) (tick1 w1) = (Inr gs, w3)"
          "ad_Activation ad = Some ops" "runGroups P C cred ad ops gs w3 = (r, w')"
      using assms Some fp x q
      by (auto simp: tick_def Let_def split: option.splits sum.splits prod.splits)
    then show ?thesis
    proof cases
      case 3
      then show ?thesis by (rule ctl_steps_trans [OF s2 markReadFailure_steps])
    next
      case 4
      then show ?thesis by (rule ctl_steps_trans [OF s2 reconcile_steps])
    next
      case 5
      have "ctl_steps P (justified C cred ops) w3 w'"
        using 5(3) by (rule runGroups_steps) (use reconcileObservation_candidates [OF 5(1)] in blast)
      then have "ctl_steps P ?allow w3 w'"
        by (rule ctl_steps_mono) (use Some fp 5(2) in auto)
      then show ?thesis
        by (rule ctl_steps_trans [OF ctl_steps_trans [OF s2 reconcile_steps [OF 5(1)]]])
    qed (use s1 s2 in simp_all)
  qed
qed

section \<open>Sequences of operations\<close>

text \<open>
  The runtime calls these three, each under the controller's mutex, in any order, from any
  number of goroutines, and logs their errors.
\<close>

datatype operation =
    OpTick Controller Credential "Adapter option"
  | OpRecover Controller Credential Adapter ActivationOps
  | OpBlock Credential string

fun runOp :: "platform \<Rightarrow> operation \<Rightarrow> world \<Rightarrow> error option \<times> world" where
  "runOp P (OpTick C cred adapter) w = tick P C cred adapter w"
| "runOp P (OpRecover C cred ad ops) w = recover P C cred ad ops w"
| "runOp P (OpBlock cred reason) w = blockCredential P cred reason w"

fun runOps :: "platform \<Rightarrow> operation list \<Rightarrow> world \<Rightarrow> world" where
  "runOps P [] w = w"
| "runOps P (x # xs) w = runOps P xs (snd (runOp P x w))"

fun mayRequest :: "operation \<Rightarrow> admission" where
  "mayRequest (OpTick C cred adapter) c req a = permits C cred adapter c req a"
| "mayRequest (OpRecover C cred ad ops) c req a = False"
| "mayRequest (OpBlock cred reason) c req a = False"

lemma runOp_steps: "ctl_steps P (mayRequest x) w (snd (runOp P x w))"
proof (cases x)
  case (OpTick C cred adapter)
  have "ctl_steps P (permits C cred adapter) w (snd (runOp P x w))"
    unfolding OpTick runOp.simps by (rule tick_steps [OF surjective_pairing])
  then show ?thesis by (rule ctl_steps_mono) (simp add: OpTick)
next
  case (OpRecover C cred ad ops)
  then show ?thesis using recover_steps [OF surjective_pairing] by simp
next
  case (OpBlock cred reason)
  then show ?thesis using blockCredential_steps [OF surjective_pairing] by simp
qed

lemma runOps_steps:
  "ctl_steps P (\<lambda>c req a. \<exists>x \<in> set xs. mayRequest x c req a) w (runOps P xs w)"
proof (induction xs arbitrary: w)
  case Nil
  show ?case by simp
next
  case (Cons x xs)
  let ?allow = "\<lambda>c req a. \<exists>x \<in> set (x # xs). mayRequest x c req a"
  have "ctl_steps P ?allow w (snd (runOp P x w))"
    by (rule ctl_steps_mono [OF runOp_steps [of P x]]) simp
  moreover have "ctl_steps P ?allow (snd (runOp P x w)) (runOps P (x # xs) w)"
    unfolding runOps.simps by (rule ctl_steps_mono [OF Cons.IH]) simp
  ultimately show ?case by (rule ctl_steps_trans)
qed

end
