(* ===== verification/FenceSafety.thy ===== *)
theory FenceSafety
  imports ControlSteps
begin

text \<open>
  The send fence: what the trace of a sequence of steps shows. Every request directly follows
  the successful persist of its fence (\<open>guarded\<close>), and the requests stay covered by the
  ledger in memory (\<open>covered\<close>), so that no cycle is requested twice. Both are proved once,
  by induction over the steps of \<open>ControlSteps\<close>.
\<close>

section \<open>What a trace shows\<close>

text \<open>
  \<open>fenceHolds s a\<close>: the state \<open>s\<close> carries the fence of the attempt \<open>a\<close>: the attempt in
  phase Sending, a ledger entry for each of its cycles, and every window of it marked.
\<close>

definition fenceHolds :: "PersistentState \<Rightarrow> ProbeAttempt \<Rightarrow> bool" where
  "fenceHolds s a \<longleftrightarrow>
     fmlookup (ps_Attempts s) (pa_ID a) = Some a \<and> pa_Phase a = AttemptSending \<and>
     (\<forall>c \<in> set (pa_CycleIDs a).
        fmlookup (ps_CycleLedger s) c = Some (fenceEntry a (pa_SendingAt a) c)) \<and>
     (\<forall>k \<in> set (pa_WindowKeys a). \<exists>x. fmlookup (ps_Windows s) k = Some x \<and>
        wr_State x = StateActivationSending \<and> wr_LastActivation x = pa_SendingAt a)"

text \<open>The requests of a trace, in order.\<close>

fun sends :: "event list \<Rightarrow> (Credential \<times> ActivationRequest \<times> ProbeAttempt) list" where
  "sends [] = []"
| "sends (EvPersist s ok f # es) = sends es"
| "sends (EvSend c r a # es) = (c, r, a) # sends es"

lemma sends_append [simp]: "sends (xs @ ys) = sends xs @ sends ys"
  by (induction xs rule: sends.induct) auto

lemma in_sends: "x \<in> set (sends evs) \<longleftrightarrow> EvSend (fst x) (fst (snd x)) (snd (snd x)) \<in> set evs"
  by (induction evs rule: sends.induct) auto

text \<open>Every request directly follows the successful persist of its fence.\<close>

fun guarded :: "event option \<Rightarrow> event list \<Rightarrow> bool" where
  "guarded prev [] = True"
| "guarded prev (EvPersist s ok f # es) = guarded (Some (EvPersist s ok f)) es"
| "guarded prev (EvSend c r a # es) =
     ((\<exists>s f. prev = Some (EvPersist s True f) \<and> fenceHolds s a) \<and>
      guarded (Some (EvSend c r a)) es)"

fun sentCycles :: "event list \<Rightarrow> string set" where
  "sentCycles [] = {}"
| "sentCycles (EvPersist s ok f # es) = sentCycles es"
| "sentCycles (EvSend c r a # es) = set (pa_CycleIDs a) \<union> sentCycles es"

text \<open>The ledger in memory after the events, and the coverage of the sends by it.\<close>

fun ledgerAfter :: "string set \<Rightarrow> event list \<Rightarrow> string set" where
  "ledgerAfter L [] = L"
| "ledgerAfter L (EvPersist s ok f # es) = ledgerAfter (if ok then ledgerDom s else L) es"
| "ledgerAfter L (EvSend c r a # es) = ledgerAfter L es"

fun covered :: "string set \<Rightarrow> string set \<Rightarrow> event list \<Rightarrow> bool" where
  "covered S L [] \<longleftrightarrow> S \<subseteq> L"
| "covered S L (EvPersist s ok f # es) \<longleftrightarrow>
     S \<subseteq> L \<and> L \<subseteq> ledgerDom s \<and> covered S (if ok then ledgerDom s else L) es"
| "covered S L (EvSend c r a # es) \<longleftrightarrow>
     S \<subseteq> L \<and> set (pa_CycleIDs a) \<inter> S = {} \<and> covered (S \<union> set (pa_CycleIDs a)) L es"

lemma sentCycles_append [simp]: "sentCycles (xs @ ys) = sentCycles xs \<union> sentCycles ys"
  by (induction xs rule: sentCycles.induct) auto

lemma sentCycles_member: "EvSend c r a \<in> set xs \<Longrightarrow> set (pa_CycleIDs a) \<subseteq> sentCycles xs"
  by (induction xs rule: sentCycles.induct) auto

lemma ledgerAfter_append [simp]: "ledgerAfter L (xs @ ys) = ledgerAfter (ledgerAfter L xs) ys"
  by (induction L xs rule: ledgerAfter.induct) auto

lemma covered_append:
  "covered S L (xs @ ys) \<longleftrightarrow> covered S L xs \<and> covered (S \<union> sentCycles xs) (ledgerAfter L xs) ys"
proof (induction S L xs rule: covered.induct)
  case (1 S L)
  then show ?case by (cases ys rule: sentCycles.cases) auto
qed (auto simp: Un_assoc)

lemma covered_final: "covered S L xs \<Longrightarrow> S \<union> sentCycles xs \<subseteq> ledgerAfter L xs"
  by (induction S L xs rule: covered.induct) auto

lemma covered_disjoint:
  assumes "covered S L xs" and "i < j" and "j < length xs"
    and "xs ! i = EvSend c r a" and "xs ! j = EvSend c' r' a'"
  shows "set (pa_CycleIDs a) \<inter> set (pa_CycleIDs a') = {}"
proof -
  have j: "xs = take j xs @ EvSend c' r' a' # drop (Suc j) xs"
    using assms(3,5) by (metis id_take_nth_drop)
  have "EvSend c r a \<in> set (take j xs)"
    using assms(2,3,4) by (metis in_set_conv_nth length_take min.absorb4 nth_take)
  then have "set (pa_CycleIDs a) \<subseteq> sentCycles (take j xs)"
    by (rule sentCycles_member)
  moreover have "covered S L (take j xs @ EvSend c' r' a' # drop (Suc j) xs)"
    using assms(1) j by simp
  then have "set (pa_CycleIDs a') \<inter> sentCycles (take j xs) = {}"
    by (auto simp: covered_append)
  ultimately show ?thesis by blast
qed

lemma guarded_prev: "guarded None es \<Longrightarrow> guarded prev es"
  by (cases es rule: sentCycles.cases) auto

lemma guarded_append: "guarded prev xs \<Longrightarrow> guarded None ys \<Longrightarrow> guarded prev (xs @ ys)"
  by (induction prev xs rule: guarded.induct) (auto intro: guarded_prev)

lemma guarded_at:
  assumes "guarded prev es" and "i < length es" and "es ! i = EvSend c r a"
  shows "\<exists>s f. (case i of 0 \<Rightarrow> prev | Suc j \<Rightarrow> Some (es ! j)) = Some (EvPersist s True f) \<and> fenceHolds s a"
  using assms
proof (induction prev es arbitrary: i rule: guarded.induct)
  case (2 prev s ok f es)
  then obtain j where j: "i = Suc j" "j < length es" "es ! j = EvSend c r a" by (cases i) auto
  with 2(1) [OF _ j(2,3)] 2(2) show ?case by (cases j) auto
next
  case (3 prev c' r' a' es)
  show ?case
  proof (cases i)
    case 0
    with 3 show ?thesis by auto
  next
    case (Suc j)
    with 3(2,3,4) 3(1) [of j] show ?thesis by (cases j) auto
  qed
qed simp

lemma fenceTx_holds:
  assumes "fenceTx a t s = Inr n" and "pa_Phase a = AttemptSending" and "pa_SendingAt a = t"
  shows "fenceHolds (bumpSequence n) a"
proof -
  from assms(1) obtain m where n: "n = modifyWindows (\<lambda>key x.
        x\<lparr>wr_State := StateActivationSending, wr_LastActivation := t\<rparr>) (pa_WindowKeys a)
      (m\<lparr>ps_CycleLedger := putAll (\<lambda>cycle e. fenceEntry a t cycle) zeroLedgerEntry
          (pa_CycleIDs a) (ps_CycleLedger m)\<rparr>)" and m: "m = putAttempt a s"
    by (auto simp: fenceTx_def Let_def split: option.splits if_splits)
  show ?thesis
    unfolding fenceHolds_def n m assms
    using fmlookup_putAll_written [where ks = "pa_WindowKeys a"]
      fmlookup_putAll_written [where ks = "pa_CycleIDs a"]
    by (fastforce simp: modifyWindows_def putAttempt_def assms)
qed

text \<open>Unconditionally: each step only appends guarded events, and sends only what is admitted.\<close>

abbreviation admitted :: "admission \<Rightarrow> event list \<Rightarrow> bool" where
  "admitted allow evs \<equiv> (\<forall>c r a. EvSend c r a \<in> set evs \<longrightarrow> allow c r a)"

lemma update_trace:
  obtains evs where "w_trace (snd (update P fn w)) = w_trace w @ evs" "guarded None evs" "admitted allow evs"
proof (cases rule: update_cases [of P fn w])
  case refused
  then show ?thesis by (intro that [of "[]"]) auto
next
  case (failed nxt e f)
  then show ?thesis by (intro that [of "[EvPersist nxt False f]"]) auto
next
  case (committed nxt f)
  then show ?thesis by (intro that [of "[EvPersist nxt True f]"]) auto
qed

lemma activate_trace:
  assumes "commit P (prepareTx a) w = (None, w1)"
    and a': "a' = a\<lparr>pa_Phase := AttemptSending, pa_SendingAt := t\<rparr>"
    and "commit P (fenceTx a' t) (tick1 w1) = (None, w2)"
  obtains s1 f1 s2 f2 where
    "w_trace (emit (EvSend cred req a') (tick1 w2)) =
       w_trace w @ [EvPersist s1 True f1, EvPersist s2 True f2, EvSend cred req a']"
    "nextState (pf_lib P) (prepareTx a) (stateOf w) = Inr s1"
    "nextState (pf_lib P) (fenceTx a' t) s1 = Inr s2" "stateOf w2 = s2" "fenceHolds s2 a'"
proof -
  obtain s1 f1 where p: "nextState (pf_lib P) (prepareTx a) (stateOf w) = Inr s1" "stateOf w1 = s1"
    "w_trace w1 = w_trace w @ [EvPersist s1 True f1]"
    using commit_None [OF assms(1)] by metis
  obtain s2 f2 where q: "nextState (pf_lib P) (fenceTx a' t) s1 = Inr s2" "stateOf w2 = s2"
    "w_trace w2 = w_trace w1 @ [EvPersist s2 True f2]"
    using commit_None [OF assms(3)] p(2) by (metis tick1_simps(1,3))
  have "fenceHolds s2 a'"
    using q(1) a' by (auto simp: nextState_Inr intro!: fenceTx_holds)
  with p q show ?thesis by (intro that) auto
qed

lemma ctl_step_trace:
  assumes "ctl_step P allow w v"
  obtains evs where "w_trace v = w_trace w @ evs" "guarded None evs" "admitted allow evs"
  using assms
proof (cases rule: ctl_step.cases)
  case call
  then show ?thesis by (intro that [of "[]"]) auto
next
  case (transact fn)
  then show ?thesis using update_trace [of P fn w] that by metis
next
  case (activate cred req a' a w1 t w2)
  from activate_trace [OF activate(4,5,6), of cred req] obtain s1 f1 s2 f2 where
    "w_trace v = w_trace w @ [EvPersist s1 True f1, EvPersist s2 True f2, EvSend cred req a']"
    "fenceHolds s2 a'"
    using activate(1) by metis
  with activate(2) show ?thesis
    by (intro that [of "[EvPersist s1 True f1, EvPersist s2 True f2, EvSend cred req a']"]) auto
qed

lemma ctl_steps_trace:
  assumes "ctl_steps P allow w v"
  shows "\<exists>evs. w_trace v = w_trace w @ evs \<and> guarded None evs \<and> admitted allow evs"
  using assms
proof (induction rule: ctl_steps.induct)
  case refl
  show ?case by (intro exI [of _ "[]"]) simp
next
  case (step w v u)
  then obtain evs where e: "w_trace v = w_trace w @ evs" "guarded None evs" "admitted allow evs"
    by blast
  obtain evs' where "w_trace u = w_trace v @ evs'" "guarded None evs'" "admitted allow evs'"
    using ctl_step_trace [OF step(2)] by blast
  with e show ?case by (intro exI [of _ "evs @ evs'"]) (auto intro: guarded_append)
qed

text \<open>
  Where the JSON round trip keeps the keys of the ledger, the sends stay covered by the ledger
  in memory: no cycle is requested twice.
\<close>

definition ledgerKept :: "golib \<Rightarrow> PersistentState \<Rightarrow> bool" where
  "ledgerKept L s \<longleftrightarrow> ledgerDom (cloneState L s) = ledgerDom s"

definition allKept :: "golib \<Rightarrow> event list \<Rightarrow> bool" where
  "allKept L evs \<longleftrightarrow> (\<forall>s ok f. EvPersist s ok f \<in> set evs \<longrightarrow> ledgerKept L s)"

lemma allKept_simps [simp]:
  "allKept L []"
  "allKept L (EvPersist s ok f # es) \<longleftrightarrow> ledgerKept L s \<and> allKept L es"
  "allKept L (EvSend c r a # es) \<longleftrightarrow> allKept L es"
  "allKept L (xs @ ys) \<longleftrightarrow> allKept L xs \<and> allKept L ys"
  by (simp_all add: allKept_def) blast+

definition coversRun :: "platform \<Rightarrow> string set \<Rightarrow> world \<Rightarrow> event list \<Rightarrow> world \<Rightarrow> bool" where
  "coversRun P S w evs v \<longleftrightarrow>
     covered S (ledgerDom (stateOf w)) evs \<and>
     ledgerAfter (ledgerDom (stateOf w)) evs = ledgerDom (stateOf v) \<and>
     ledgerKept (pf_lib P) (stateOf v)"

lemma update_covers:
  assumes "tame fn" and "S \<subseteq> ledgerDom (stateOf w)" and "ledgerKept (pf_lib P) (stateOf w)"
    and "w_trace (snd (update P fn w)) = w_trace w @ evs" and "allKept (pf_lib P) evs"
  shows "coversRun P S w evs (snd (update P fn w))"
proof -
  have grow: "ledgerDom (stateOf w) \<subseteq> ledgerDom nxt"
    if "nextState (pf_lib P) fn (stateOf w) = Inr nxt" for nxt
    using that assms(1,3) unfolding nextState_Inr tame_def growsLedger_def ledgerKept_def
    by (metis ledgerDom_simps(5))
  show ?thesis
    by (cases rule: update_cases [of P fn w])
      (use assms(2-5) grow in \<open>auto simp: coversRun_def\<close>)
qed

lemma prepareTx_next:
  assumes "nextState L (prepareTx a) s = Inr n" and "ledgerKept L s"
  shows "ledgerDom n = ledgerDom s" "set (pa_CycleIDs a) \<inter> ledgerDom s = {}"
proof -
  obtain m where m: "prepareTx a (cloneState L s) = Inr m" "n = bumpSequence m"
    using assms(1) unfolding nextState_Inr by blast
  show "ledgerDom n = ledgerDom s" "set (pa_CycleIDs a) \<inter> ledgerDom s = {}"
    using prepareTx_Inr(1,2) [OF m(1)] assms(2) by (simp_all only: m(2) ledgerDom_simps ledgerKept_def)
qed

lemma fenceTx_next:
  assumes "nextState L (fenceTx a t) s = Inr n" and "ledgerKept L s"
  shows "ledgerDom n = ledgerDom s \<union> set (pa_CycleIDs a)"
proof -
  obtain m where m: "fenceTx a t (cloneState L s) = Inr m" "n = bumpSequence m"
    using assms(1) unfolding nextState_Inr by blast
  show ?thesis
    using fenceTx_Inr(1) [OF m(1)] assms(2) by (simp only: m(2) ledgerDom_simps ledgerKept_def)
qed

lemma ctl_step_covers:
  assumes "ctl_step P allow w v" and S: "S \<subseteq> ledgerDom (stateOf w)"
    and kept: "ledgerKept (pf_lib P) (stateOf w)"
    and evs: "w_trace v = w_trace w @ evs" "allKept (pf_lib P) evs"
  shows "coversRun P S w evs v"
  using assms(1)
proof (cases rule: ctl_step.cases)
  case call
  with S kept evs show ?thesis by (simp add: coversRun_def)
next
  case (transact fn)
  with update_covers [OF transact(2) S kept] evs show ?thesis by simp
next
  case (activate cred req a' a w1 t w2)
  from activate_trace [OF activate(4,5,6), of cred req] obtain s1 f1 s2 f2 where
    tr: "w_trace v = w_trace w @ [EvPersist s1 True f1, EvPersist s2 True f2, EvSend cred req a']"
    and s1: "nextState (pf_lib P) (prepareTx a) (stateOf w) = Inr s1"
    and s2: "nextState (pf_lib P) (fenceTx a' t) s1 = Inr s2" "stateOf v = s2"
    using activate(1) by (metis emit_simps(1) tick1_simps(1))
  have e: "evs = [EvPersist s1 True f1, EvPersist s2 True f2, EvSend cred req a']"
    using tr evs(1) by simp
  have k: "ledgerKept (pf_lib P) s1" "ledgerKept (pf_lib P) s2"
    using evs(2) unfolding e by simp_all
  have s1_dom: "ledgerDom s1 = ledgerDom (stateOf w)"
    and fresh: "set (pa_CycleIDs a') \<inter> ledgerDom (stateOf w) = {}"
    using prepareTx_next [OF s1 kept] activate(5) by simp_all
  have grown: "ledgerDom s2 = ledgerDom (stateOf w) \<union> set (pa_CycleIDs a')"
    using fenceTx_next [OF s2(1) k(1)] s1_dom by simp
  have "set (pa_CycleIDs a') \<inter> S = {}" using S fresh by blast
  then have "covered S (ledgerDom (stateOf w)) evs"
    unfolding e covered.simps if_True s1_dom grown using S by blast
  moreover have "ledgerAfter (ledgerDom (stateOf w)) evs = ledgerDom (stateOf v)"
    unfolding e by (simp add: s2(2))
  ultimately show ?thesis using k(2) s2(2) by (simp add: coversRun_def)
qed

lemma ctl_steps_covers:
  assumes "ctl_steps P allow w v" and "S \<subseteq> ledgerDom (stateOf w)"
    and "ledgerKept (pf_lib P) (stateOf w)"
    and "w_trace v = w_trace w @ evs" and "allKept (pf_lib P) evs"
  shows "coversRun P S w evs v"
  using assms
proof (induction arbitrary: evs rule: ctl_steps.induct)
  case (refl w)
  then show ?case by (simp add: coversRun_def)
next
  case (step w v u)
  obtain e1 where e1: "w_trace v = w_trace w @ e1" using ctl_steps_trace [OF step(1)] by blast
  obtain e2 where e2: "w_trace u = w_trace v @ e2" 
    using ctl_steps_trace [OF ctl_steps_one [OF step(2)]] by blast
  have evs: "evs = e1 @ e2" using e1 e2 step.prems(3) by simp
  have k: "allKept (pf_lib P) e1" "allKept (pf_lib P) e2"
    using step.prems(4) unfolding evs allKept_simps(4) by blast+
  have one: "coversRun P S w e1 v" by (rule step.IH [OF step.prems(1,2) e1 k(1)])
  then have "S \<union> sentCycles e1 \<subseteq> ledgerDom (stateOf v)"
    using covered_final by (fastforce simp: coversRun_def)
  then have "coversRun P (S \<union> sentCycles e1) v e2 u"
    by (rule ctl_step_covers [OF step(2) _ _ e2 k(2)]) (use one in \<open>simp add: coversRun_def\<close>)
  with one show ?case by (simp add: coversRun_def evs covered_append)
qed

section \<open>Requests\<close>

text \<open>A trace that the ledger covers requests every cycle at most once, and none of \<open>S\<close>.\<close>

abbreviation cyclesOf :: "Credential \<times> ActivationRequest \<times> ProbeAttempt \<Rightarrow> string set" where
  "cyclesOf x \<equiv> set (pa_CycleIDs (snd (snd x)))"

lemma covered_sends:
  "covered S L es \<Longrightarrow>
     sorted_wrt (\<lambda>x y. cyclesOf x \<inter> cyclesOf y = {}) (sends es) \<and>
     (\<forall>x \<in> set (sends es). cyclesOf x \<inter> S = {})"
proof (induction S L es rule: covered.induct)
  case (3 S L c r a es)
  then show ?case by auto
qed auto

lemma sentCycles_sends: "sentCycles es = \<Union> (cyclesOf ` set (sends es))"
  by (induction es rule: sends.induct) auto

lemma sends_admitted:
  "ctl_steps P allow w v \<Longrightarrow>
     \<exists>evs. w_trace v = w_trace w @ evs \<and> (\<forall>(c, r, a) \<in> set (sends evs). allow c r a)"
  using ctl_steps_trace [of P allow w v] by (fastforce simp: in_sends)

lemma quiet_sends:
  assumes "ctl_steps P quiet w v"
  shows "sends (w_trace v) = sends (w_trace w)"
proof -
  obtain evs where e: "w_trace v = w_trace w @ evs" "\<forall>x \<in> set (sends evs). False"
    using sends_admitted [OF assms] by fastforce
  then have "sends evs = []" by (metis list.set_intros(1) neq_Nil_conv)
  with e show ?thesis by simp
qed

lemma runOps_disjoint:
  assumes "w_trace w = []" and "ledgerKept (pf_lib P) (stateOf w)"
    and "allKept (pf_lib P) (w_trace (runOps P xs w))"
  shows "sorted_wrt (\<lambda>x y. cyclesOf x \<inter> cyclesOf y = {}) (sends (w_trace (runOps P xs w)))"
    "\<forall>x \<in> set (sends (w_trace (runOps P xs w))).
       cyclesOf x \<inter> ledgerDom (stateOf w) = {} \<and> cyclesOf x \<subseteq> ledgerDom (stateOf (runOps P xs w))"
proof -
  let ?v = "runOps P xs w"
  have "coversRun P (ledgerDom (stateOf w)) w (w_trace ?v) ?v"
    by (rule ctl_steps_covers [OF runOps_steps subset_refl assms(2)]) (use assms in simp_all)
  then have c: "covered (ledgerDom (stateOf w)) (ledgerDom (stateOf w)) (w_trace ?v)"
    "ledgerAfter (ledgerDom (stateOf w)) (w_trace ?v) = ledgerDom (stateOf ?v)"
    by (simp_all add: coversRun_def)
  then have "sentCycles (w_trace ?v) \<subseteq> ledgerDom (stateOf ?v)"
    using covered_final by blast
  with covered_sends [OF c(1)]
  show "sorted_wrt (\<lambda>x y. cyclesOf x \<inter> cyclesOf y = {}) (sends (w_trace ?v))"
    "\<forall>x \<in> set (sends (w_trace ?v)).
       cyclesOf x \<inter> ledgerDom (stateOf w) = {} \<and> cyclesOf x \<subseteq> ledgerDom (stateOf ?v)"
    by (auto simp: sentCycles_sends)
qed

end
