(* ===== verification/Durability.thy ===== *)
theory Durability
  imports FenceSafety
begin

text \<open>
  What the store leaves on disk. \<open>settled\<close> says when the files of a store represent a state:
  loading them gives that state (or fails, where a line of the WAL is over the scanner's
  limit). An update that returns success settles the files on the new
  state; one that fails or is cut off by a crash, at any point and with any torn write,
  leaves them settled on the old or on the new state (\<open>persist_settles\<close>).
\<close>

section \<open>What is assumed of the codec\<close>

text \<open>
  \<open>exact L s\<close>: the values of \<open>s\<close> are ones the codec represents exactly, so that the two
  texts \<open>persist\<close> writes decode to \<open>s\<close>: a WAL line (without a newline, not ending in a
  carriage return) and a snapshot.
\<close>

definition envelopeOf :: "string \<Rightarrow> PersistentState \<Rightarrow> StateEnvelope" where
  "envelopeOf c s = \<lparr>en_State = toRaw s, en_Checksum = c\<rparr>"

definition exact :: "golib \<Rightarrow> PersistentState \<Rightarrow> bool" where
  "exact L s \<longleftrightarrow> ps_Version s = stateVersion \<and>
     (\<exists>c line doc. checksumState L (toRaw s) = Inr c \<and>
       marshalEnvelope L (envelopeOf c s) = Inr line \<and>
       marshalIndentEnvelope L (envelopeOf c s) = Inr doc \<and>
       unmarshalEnvelope L line = Inr (envelopeOf c s) \<and>
       unmarshalEnvelope L (doc @ [newline]) = Inr (envelopeOf c s) \<and>
       newline \<notin> set line \<and> line \<noteq> [] \<and> last line \<noteq> CHR 0x0D)"

text \<open>A WAL line, the text that one append adds.\<close>

definition walLine :: "golib \<Rightarrow> PersistentState \<Rightarrow> string" where
  "walLine L s =
     (case checksumState L (toRaw s) of
        Inl _ \<Rightarrow> []
      | Inr c \<Rightarrow> (case marshalEnvelope L (envelopeOf c s) of Inl _ \<Rightarrow> [] | Inr line \<Rightarrow> line))"

lemma exact_line:
  assumes "exact L s"
  shows "decodeEnvelope L (walLine L s) = Inr s" "newline \<notin> set (walLine L s)"
    "walLine L s \<noteq> []" "dropCR (walLine L s) = walLine L s"
  using assms
  by (auto simp: exact_def walLine_def decodeEnvelope_def envelopeOf_def toRaw_def dropCR_def
      normalizeState_def orEmpty_def)

text \<open>
  Torn text: pieces of lines written one after the other with no newline between them, which
  is what writes that were cut off leave. The hypothesis \<open>tornSafe\<close> states that no such text
  decodes, unless it is one whole line, and that no line is a proper prefix of another: a
  truncated JSON document is not a document, nor is one with text after it.
\<close>

definition pieces :: "golib \<Rightarrow> string list \<Rightarrow> bool" where
  "pieces L ps \<longleftrightarrow> (\<forall>p \<in> set ps. p \<noteq> [] \<and> (\<exists>s. exact L s \<and> prefix p (walLine L s)))"

definition tornSafe :: "golib \<Rightarrow> bool" where
  "tornSafe L \<longleftrightarrow>
     (\<forall>ps. pieces L ps \<and> \<not> (\<exists>s. exact L s \<and> ps = [walLine L s]) \<longrightarrow>
        (\<exists>e. decodeEnvelope L (dropCR (concat ps)) = Inl e)) \<and>
     (\<forall>s s'. exact L s \<and> exact L s' \<and> prefix (walLine L s') (walLine L s) \<longrightarrow>
        walLine L s' = walLine L s)"

section \<open>The shape of a WAL\<close>

text \<open>Complete lines, then a tail with no newline; each a run of pieces.\<close>

definition walShape :: "golib \<Rightarrow> string \<Rightarrow> string list \<Rightarrow> string \<Rightarrow> bool" where
  "walShape L wal ls te \<longleftrightarrow>
     wal = concat (map (\<lambda>l. l @ [newline]) ls) @ te \<and>
     (\<forall>l \<in> insert te (set ls). \<exists>ps. pieces L ps \<and> l = concat ps)"

lemma pieces_no_newline: "pieces L ps \<Longrightarrow> newline \<notin> set (concat ps)"
proof (induction ps)
  case (Cons p ps)
  then obtain s where "exact L s" "prefix p (walLine L s)" by (auto simp: pieces_def)
  then have "newline \<notin> set p" using exact_line(2) set_mono_prefix by blast
  with Cons show ?case by (simp add: pieces_def)
qed simp

lemma rawLines_line: "newline \<notin> set l \<Longrightarrow> rawLines cur (l @ newline # r) = (cur @ l) # rawLines [] r"
  by (induction l arbitrary: cur) auto

lemma rawLines_tail: "newline \<notin> set t \<Longrightarrow> rawLines cur t = (if cur @ t = [] then [] else [cur @ t])"
  by (induction t arbitrary: cur) auto

lemma rawLines_shape:
  "(\<forall>l \<in> set ls. newline \<notin> set l) \<Longrightarrow> newline \<notin> set t \<Longrightarrow>
     rawLines [] (concat (map (\<lambda>l. l @ [newline]) ls) @ t) = ls @ (if t = [] then [] else [t])"
  by (induction ls) (simp_all add: rawLines_line rawLines_tail)

lemma walShape_lines:
  assumes "walShape L wal ls te"
  shows "rawLines [] wal = ls @ (if te = [] then [] else [te])"
proof -
  have "newline \<notin> set l" if "l \<in> insert te (set ls)" for l
  proof -
    from assms that obtain ps where "pieces L ps" "l = concat ps" unfolding walShape_def by blast
    then show ?thesis by (metis pieces_no_newline)
  qed
  then show ?thesis
    using assms rawLines_shape [of ls te] by (simp add: walShape_def)
qed

lemma walShape_empty [simp]: "walShape L [] [] []"
  by (auto simp: walShape_def pieces_def intro: exI [of _ "[]"])

lemma pieces_append: "pieces L ps \<Longrightarrow> pieces L qs \<Longrightarrow> pieces L (ps @ qs)"
  by (auto simp: pieces_def)

lemma piece_take: "exact L s \<Longrightarrow> 0 < k \<Longrightarrow> pieces L [take k (walLine L s)]"
  using exact_line(3) by (auto simp: pieces_def take_is_prefix)

text \<open>An append of the first bytes of a line extends the tail.\<close>

lemma walShape_take:
  assumes "walShape L wal ls te" and "exact L s" and "k \<le> length (walLine L s)"
  shows "walShape L (wal @ take k (walLine L s @ [newline])) ls (te @ take k (walLine L s))"
proof (cases "k = 0")
  case True
  with assms(1) show ?thesis by simp
next
  case False
  from assms(1) obtain ps where ps: "pieces L ps" "te = concat ps" by (auto simp: walShape_def)
  have "\<exists>ps. pieces L ps \<and> te @ take k (walLine L s) = concat ps"
    using pieces_append [OF ps(1) piece_take [OF assms(2)]] False ps(2)
    by (intro exI [of _ "ps @ [take k (walLine L s)]"]) simp
  with assms(1,3) show ?thesis by (auto simp: walShape_def)
qed

lemma walShape_line:
  assumes "walShape L wal ls te" and "exact L s"
  shows "walShape L (wal @ walLine L s @ [newline]) (ls @ [te @ walLine L s]) []"
proof -
  from assms(1) obtain ps where ps: "pieces L ps" "te = concat ps" by (auto simp: walShape_def)
  have "pieces L [walLine L s]"
    using piece_take [OF assms(2), of "length (walLine L s)"] exact_line(3) [OF assms(2)] by simp
  then have "\<exists>ps. pieces L ps \<and> te @ walLine L s = concat ps"
    using pieces_append [OF ps(1)] ps(2) by (intro exI [of _ "ps @ [walLine L s]"]) simp
  moreover have "\<exists>ps. pieces L ps \<and> [] = concat ps"
    by (intro exI [of _ "[]"]) (simp add: pieces_def)
  ultimately show ?thesis using assms(1) by (auto simp: walShape_def)
qed

text \<open>What a run of pieces followed by a prefix of a line decodes to.\<close>

lemma torn_decode:
  assumes torn: "tornSafe L" and te: "pieces L ps" "te = concat ps" and s: "exact L s"
    and d: "decodeEnvelope L (dropCR (te @ take k (walLine L s))) = Inr x" and k: "0 < k"
  shows "te = [] \<and> x = s \<and> length (walLine L s) \<le> k"
proof -
  let ?ps = "ps @ [take k (walLine L s)]"
  have "pieces L ?ps" using pieces_append [OF te(1) piece_take [OF s k]] .
  moreover have "decodeEnvelope L (dropCR (concat ?ps)) = Inr x" using d te(2) by simp
  ultimately obtain s' where s': "exact L s'" "?ps = [walLine L s']"
    using torn unfolding tornSafe_def by fastforce
  then have "ps = []" "take k (walLine L s) = walLine L s'" by (auto simp: append_eq_Cons_conv)
  moreover from this d have "x = s'"
    using exact_line(1,4) [OF s'(1)] te(2) by simp
  moreover have "prefix (walLine L s') (walLine L s)"
    using \<open>take k (walLine L s) = walLine L s'\<close> by (metis take_is_prefix)
  then have "walLine L s' = walLine L s" using torn s s'(1) unfolding tornSafe_def by blast
  then have "s' = s" using exact_line(1) [OF s] exact_line(1) [OF s'(1)] by simp
  moreover have "length (walLine L s) \<le> k"
    using \<open>take k (walLine L s) = walLine L s'\<close> \<open>walLine L s' = walLine L s\<close>
    by (metis length_take min.cobounded2)
  ultimately show ?thesis using te(2) by simp
qed

section \<open>Settled files\<close>

definition walText :: "string \<Rightarrow> fs \<Rightarrow> string" where
  "walText path f = getOr [] f (walPath path)"

text \<open>A decoded state that cannot displace \<open>s\<close>: \<open>s\<close> itself, or an older one.\<close>

definition dominated :: "PersistentState \<Rightarrow> error + PersistentState \<Rightarrow> bool" where
  "dominated s d \<longleftrightarrow> (\<forall>x. d = Inr x \<longrightarrow> x = s \<or> ps_Sequence x < ps_Sequence s)"

definition tokens :: "string \<Rightarrow> string list" where
  "tokens wal = map dropCR (rawLines [] wal)"

definition settled :: "golib \<Rightarrow> string \<Rightarrow> fs \<Rightarrow> PersistentState \<Rightarrow> bool" where
  "settled L path f s \<longleftrightarrow>
     (\<exists>ls te. walShape L (walText path f) ls te \<and>
        (te = [] \<or> (\<exists>e. decodeEnvelope L (dropCR te) = Inl e))) \<and>
     (\<forall>t \<in> set (tokens (walText path f)). dominated s (decodeEnvelope L t)) \<and>
     (case fmlookup f path of
        None \<Rightarrow> (\<exists>t \<in> set (tokens (walText path f)). decodeEnvelope L t = Inr s) \<or>
          (s = emptyState \<and> (\<forall>t \<in> set (tokens (walText path f)). \<exists>e. decodeEnvelope L t = Inl e))
      | Some raw \<Rightarrow>
          (\<exists>x. decodeEnvelope L raw = Inr x \<and> (x = s \<or> ps_Sequence x < ps_Sequence s \<and>
             (\<exists>t \<in> set (tokens (walText path f)). decodeEnvelope L t = Inr s))))"

lemma takeWhile_all: "\<forall>x \<in> set xs. Q x \<Longrightarrow> takeWhile Q xs = xs"
  by simp

lemma scanTokens_tokens: "\<not> scanTooLong wal \<Longrightarrow> scanTokens wal = tokens wal"
  by (simp add: scanTokens_def scanTooLong_def tokens_def takeWhile_all)

text \<open>The replay: the result is dominated, and is \<open>s\<close> as soon as \<open>s\<close> is among the documents.\<close>

definition bestOK :: "PersistentState \<Rightarrow> PersistentState \<times> bool \<Rightarrow> bool" where
  "bestOK s bf \<longleftrightarrow> (snd bf \<longrightarrow> fst bf = s \<or> ps_Sequence (fst bf) < ps_Sequence s)"

lemma replay_step:
  assumes "bestOK s bf" and "dominated s (decodeEnvelope L t)"
  shows "bestOK s (replayStep L t bf)"
    and "snd (replayStep L t bf) \<longleftrightarrow> snd bf \<or> (\<exists>x. decodeEnvelope L t = Inr x)"
    and "bf = (s, True) \<or> decodeEnvelope L t = Inr s \<Longrightarrow> replayStep L t bf = (s, True)"
    and "\<exists>e. decodeEnvelope L t = Inl e \<Longrightarrow> replayStep L t bf = bf"
  using assms
  by (cases bf; force simp: replayStep_def bestOK_def dominated_def split: sum.splits)+

lemma replay_fold:
  assumes "bestOK s bf" and "\<forall>t \<in> set ts. dominated s (decodeEnvelope L t)"
    and "bf = (s, True) \<or> (\<exists>t \<in> set ts. decodeEnvelope L t = Inr s)"
  shows "fold (replayStep L) ts bf = (s, True)"
  using assms
proof (induction ts arbitrary: bf)
  case (Cons t ts)
  have d: "dominated s (decodeEnvelope L t)" using Cons.prems(2) by simp
  show ?case
  proof (cases "bf = (s, True) \<or> decodeEnvelope L t = Inr s")
    case True
    then have "replayStep L t bf = (s, True)" by (rule replay_step(3) [OF Cons.prems(1) d])
    with Cons.IH [of "(s, True)"] Cons.prems(2) show ?thesis by (simp add: bestOK_def)
  next
    case False
    with Cons.prems(3) have "\<exists>t \<in> set ts. decodeEnvelope L t = Inr s" by auto
    with Cons.IH [of "replayStep L t bf"] replay_step(1) [OF Cons.prems(1) d] Cons.prems(2)
    show ?thesis by simp
  qed
qed simp

lemma replay_none:
  "\<forall>t \<in> set ts. \<exists>e. decodeEnvelope L t = Inl e \<Longrightarrow> fold (replayStep L) ts bf = bf"
  by (induction ts arbitrary: bf) (auto simp: replayStep_def split: prod.splits)

lemma loadWal_tokens:
  assumes "\<not> scanTooLong (walText path f)"
  shows "loadWal L goodLoad path f bf = Inr (fold (replayStep L) (tokens (walText path f)) bf)"
proof (cases "fmlookup f (walPath path)")
  case None
  then have "tokens (walText path f) = []" by (simp add: walText_def getOr_def tokens_def)
  with None show ?thesis by (simp add: loadWal_def openFile_def goodLoad_def)
next
  case (Some raw)
  then have "walText path f = raw" by (simp add: walText_def)
  with Some assms show ?thesis
    by (simp add: loadWal_def openFile_def goodLoad_def scanTokens_tokens)
qed

lemma settled_load:
  assumes "settled L path f s" and wal: "\<not> scanTooLong (walText path f)"
  shows "load L goodLoad path f = Inr s"
proof -
  let ?ts = "tokens (walText path f)"
  note st = assms [unfolded settled_def]
  have dom: "\<forall>t \<in> set ?ts. dominated s (decodeEnvelope L t)"
    using st by blast
  show ?thesis
  proof (cases "fmlookup f path")
    case None
    then have snap: "loadSnapshot L goodLoad path f = Inr (emptyState, False)"
      by (simp add: loadSnapshot_def openFile_def goodLoad_def)
    from None st consider (found) "\<exists>t \<in> set ?ts. decodeEnvelope L t = Inr s"
      | (none) "s = emptyState" "\<forall>t \<in> set ?ts. \<exists>e. decodeEnvelope L t = Inl e"
      by auto
    then show ?thesis
    proof cases
      case found
      then have "fold (replayStep L) ?ts (emptyState, False) = (s, True)"
        by (intro replay_fold [OF _ dom]) (auto simp: bestOK_def)
      then show ?thesis by (simp add: load_def snap loadWal_tokens [OF wal])
    next
      case none
      then show ?thesis
        using None replay_none [OF none(2)] by (simp add: load_def snap loadWal_tokens [OF wal])
    qed
  next
    case (Some raw)
    with st obtain x where x: "decodeEnvelope L raw = Inr x"
      "x = s \<or> ps_Sequence x < ps_Sequence s \<and> (\<exists>t \<in> set ?ts. decodeEnvelope L t = Inr s)"
      by auto
    then have snap: "loadSnapshot L goodLoad path f = Inr (x, True)"
      using Some by (simp add: loadSnapshot_def openFile_def goodLoad_def)
    have "fold (replayStep L) ?ts (x, True) = (s, True)"
      using x(2) by (intro replay_fold [OF _ dom]) (auto simp: bestOK_def)
    then show ?thesis by (simp add: load_def snap loadWal_tokens [OF wal])
  qed
qed

text \<open>A WAL with a line over the scanner's limit is an error, so a load that succeeds is right.\<close>

lemma load_too_long:
  assumes "scanTooLong (walText path f)"
  shows "\<exists>e. load L goodLoad path f = Inl e"
proof -
  from assms obtain raw where raw: "fmlookup f (walPath path) = Some raw" "scanTooLong raw"
    by (cases "fmlookup f (walPath path)") (auto simp: walText_def getOr_def scanTooLong_def)
  then have wal: "\<exists>e. loadWal L goodLoad path f bf = Inl e" for bf
    by (simp add: loadWal_def openFile_def goodLoad_def)
  show ?thesis
  proof (cases "loadSnapshot L goodLoad path f")
    case (Inr bf)
    with wal [of bf] show ?thesis by (auto simp: load_def)
  qed (simp add: load_def)
qed

lemma settled_loads: "settled L path f s \<Longrightarrow> load L goodLoad path f = Inr x \<Longrightarrow> x = s"
  using load_too_long [of path f L] settled_load [of L path f s]
  by (cases "scanTooLong (walText path f)") auto

section \<open>Appending a line\<close>

lemma dominated_newer: "dominated s d \<Longrightarrow> ps_Sequence s < ps_Sequence n \<Longrightarrow> dominated n d"
  by (auto simp: dominated_def)

lemma dominated_Inl [simp]: "dominated s (Inl e)"
  by (simp add: dominated_def)

lemma tokens_shape:
  "walShape L wal ls te \<Longrightarrow> tokens wal = map dropCR ls @ (if te = [] then [] else [dropCR te])"
  by (simp add: tokens_def walShape_lines)

lemma settled_parts:
  assumes "settled L path f s"
  obtains ls te where "walShape L (walText path f) ls te"
    "te = [] \<or> (\<exists>e. decodeEnvelope L (dropCR te) = Inl e)"
    "\<forall>l \<in> set ls. dominated s (decodeEnvelope L (dropCR l))"
    "case fmlookup f path of
        None \<Rightarrow> (\<exists>l \<in> set ls. decodeEnvelope L (dropCR l) = Inr s) \<or>
          (s = emptyState \<and> (\<forall>l \<in> set ls. \<exists>e. decodeEnvelope L (dropCR l) = Inl e))
      | Some raw \<Rightarrow>
          (\<exists>x. decodeEnvelope L raw = Inr x \<and> (x = s \<or> ps_Sequence x < ps_Sequence s \<and>
             (\<exists>l \<in> set ls. decodeEnvelope L (dropCR l) = Inr s)))"
proof -
  from assms obtain ls te where sh: "walShape L (walText path f) ls te"
    and te: "te = [] \<or> (\<exists>e. decodeEnvelope L (dropCR te) = Inl e)"
    unfolding settled_def by blast
  with assms show ?thesis
    by (intro that [of ls te])
      (auto simp: settled_def tokens_shape split: option.splits if_splits)
qed

lemma settledI:
  assumes "walShape L (walText path f) ls te"
    "te = [] \<or> (\<exists>e. decodeEnvelope L (dropCR te) = Inl e)"
    "\<forall>l \<in> set ls. dominated s (decodeEnvelope L (dropCR l))"
    "case fmlookup f path of
        None \<Rightarrow> (\<exists>l \<in> set ls. decodeEnvelope L (dropCR l) = Inr s) \<or>
          (s = emptyState \<and> (\<forall>l \<in> set ls. \<exists>e. decodeEnvelope L (dropCR l) = Inl e))
      | Some raw \<Rightarrow>
          (\<exists>x. decodeEnvelope L raw = Inr x \<and> (x = s \<or> ps_Sequence x < ps_Sequence s \<and>
             (\<exists>l \<in> set ls. decodeEnvelope L (dropCR l) = Inr s)))"
  shows "settled L path f s"
proof -
  have "\<exists>ls te. walShape L (walText path f) ls te \<and>
      (te = [] \<or> (\<exists>e. decodeEnvelope L (dropCR te) = Inl e))"
    using assms(1,2) by blast
  moreover have "\<forall>t \<in> set (tokens (walText path f)). dominated s (decodeEnvelope L t)"
    using assms(2,3) by (auto simp: tokens_shape [OF assms(1)])
  ultimately show ?thesis
    unfolding settled_def using assms(2,4)
    by (auto simp: tokens_shape [OF assms(1)] split: option.splits)
qed

text \<open>A torn append, with fewer bytes than the line has, changes nothing.\<close>

lemma settled_torn:
  assumes torn: "tornSafe L" and "settled L path f s" and n: "exact L n"
    and k: "k < length (walLine L n)"
    and f': "fmlookup f' path = fmlookup f path"
      "walText path f' = walText path f @ take k (walLine L n @ [newline])"
  shows "settled L path f' s"
  using assms(2)
proof (rule settled_parts)
  fix ls te
  assume sh: "walShape L (walText path f) ls te"
    and te: "te = [] \<or> (\<exists>e. decodeEnvelope L (dropCR te) = Inl e)"
    and rest: "\<forall>l \<in> set ls. dominated s (decodeEnvelope L (dropCR l))"
      "case fmlookup f path of
        None \<Rightarrow> (\<exists>l \<in> set ls. decodeEnvelope L (dropCR l) = Inr s) \<or>
          (s = emptyState \<and> (\<forall>l \<in> set ls. \<exists>e. decodeEnvelope L (dropCR l) = Inl e))
      | Some raw \<Rightarrow>
          (\<exists>x. decodeEnvelope L raw = Inr x \<and> (x = s \<or> ps_Sequence x < ps_Sequence s \<and>
             (\<exists>l \<in> set ls. decodeEnvelope L (dropCR l) = Inr s)))"
  let ?te = "te @ take k (walLine L n)"
  have "walShape L (walText path f') ls ?te"
    unfolding f'(2) by (rule walShape_take [OF sh n]) (use k in simp)
  moreover have "?te = [] \<or> (\<exists>e. decodeEnvelope L (dropCR ?te) = Inl e)"
  proof (cases "k = 0")
    case False
    from sh obtain ps where "pieces L ps" "te = concat ps" by (auto simp: walShape_def)
    from torn_decode [OF torn this n, of k] k False
    show ?thesis by (cases "decodeEnvelope L (dropCR ?te)") auto
  qed (use te in simp)
  ultimately show ?thesis using rest f'(1) by (intro settledI) auto
qed

text \<open>A whole line: the new state is on disk, unless the line runs on from a torn one.\<close>

definition recorded :: "golib \<Rightarrow> string \<Rightarrow> fs \<Rightarrow> PersistentState \<Rightarrow> bool" where
  "recorded L path f s \<longleftrightarrow> (\<exists>t \<in> set (tokens (walText path f)). decodeEnvelope L t = Inr s)"

lemma settled_line:
  assumes torn: "tornSafe L" and "settled L path f s" and n: "exact L n"
    and newer: "ps_Sequence s < ps_Sequence n"
    and f': "fmlookup f' path = fmlookup f path"
      "walText path f' = walText path f @ walLine L n @ [newline]"
  shows "settled L path f' s \<or> settled L path f' n \<and> recorded L path f' n"
  using assms(2)
proof (rule settled_parts)
  fix ls te
  assume sh: "walShape L (walText path f) ls te"
    and te: "te = [] \<or> (\<exists>e. decodeEnvelope L (dropCR te) = Inl e)"
    and dom: "\<forall>l \<in> set ls. dominated s (decodeEnvelope L (dropCR l))"
    and rest: "case fmlookup f path of
        None \<Rightarrow> (\<exists>l \<in> set ls. decodeEnvelope L (dropCR l) = Inr s) \<or>
          (s = emptyState \<and> (\<forall>l \<in> set ls. \<exists>e. decodeEnvelope L (dropCR l) = Inl e))
      | Some raw \<Rightarrow>
          (\<exists>x. decodeEnvelope L raw = Inr x \<and> (x = s \<or> ps_Sequence x < ps_Sequence s \<and>
             (\<exists>l \<in> set ls. decodeEnvelope L (dropCR l) = Inr s)))"
  let ?l = "te @ walLine L n"
  have sh': "walShape L (walText path f') (ls @ [?l]) []"
    unfolding f'(2) by (rule walShape_line [OF sh n])
  show ?thesis
  proof (cases "te = []")
    case True
    then have d: "decodeEnvelope L (dropCR ?l) = Inr n"
      using exact_line(1,4) [OF n] by simp
    have dom': "\<forall>l \<in> set (ls @ [?l]). dominated n (decodeEnvelope L (dropCR l))"
      using d dom newer by (auto intro: dominated_newer simp: dominated_def [of n "Inr n"])
    have "settled L path f' n"
      by (rule settledI [OF sh' _ dom'])
        (use d rest newer f'(1) in \<open>auto simp: split: option.splits\<close>)
    moreover have "recorded L path f' n"
      using d by (simp add: recorded_def tokens_shape [OF sh'])
    ultimately show ?thesis by simp
  next
    case False
    from sh obtain ps where ps: "pieces L ps" "te = concat ps" by (auto simp: walShape_def)
    have "\<exists>e. decodeEnvelope L (dropCR ?l) = Inl e"
      using torn_decode [OF torn ps n, of "length (walLine L n)"] exact_line(3) [OF n] False
      by (cases "decodeEnvelope L (dropCR ?l)") auto
    then have "settled L path f' s"
      by (intro settledI [OF sh'])
        (use dom rest f'(1) in \<open>auto simp: split: option.splits\<close>)
    then show ?thesis by simp
  qed
qed

section \<open>The stages of persist\<close>

lemma persist_stages:
  assumes "exact L n"
  obtains (early) e where "persist L os io path n f = (Some e, f)"
  | (torn) e k where "io_walWrite io = Some (k, e)"
      "persist L os io path n f =
        (Some e, appendFile (walPath path) (take k (walLine L n @ [newline])) f)"
  | (appended) e where
      "persist L os io path n f = (Some e, appendFile (walPath path) (walLine L n @ [newline]) f)"
  | (snapshot) raw where "decodeEnvelope L raw = Inr n"
      "persist L os io path n f =
        persistSnapshot os io path raw (appendFile (walPath path) (walLine L n @ [newline]) f)"
proof -
  from assms obtain c line doc where c: "checksumState L (toRaw n) = Inr c"
    "marshalEnvelope L (envelopeOf c n) = Inr line"
    "marshalIndentEnvelope L (envelopeOf c n) = Inr doc"
    "unmarshalEnvelope L (doc @ [newline]) = Inr (envelopeOf c n)"
    and v: "ps_Version n = stateVersion"
    unfolding exact_def by blast
  have line: "walLine L n = line" using c by (simp add: walLine_def)
  have dec: "decodeEnvelope L (doc @ [newline]) = Inr n"
    using c v by (simp add: decodeEnvelope_def envelopeOf_def toRaw_def normalizeState_def orEmpty_def)
  note ev = c(1-3) [unfolded envelopeOf_def]
  show ?thesis
  proof (cases "io_mkdir io")
    case (Some e)
    then show ?thesis by (intro early [of e]) (simp add: persist_def ev)
  next
    case mk: None
    show ?thesis
    proof (cases "io_walOpen io")
      case (Some e)
      with mk show ?thesis by (intro early [of e]) (simp add: persist_def ev)
    next
      case op: None
      show ?thesis
      proof (cases "io_walWrite io")
        case (Some ke)
        obtain k e where "ke = (k, e)" by fastforce
        with mk op Some line show ?thesis by (intro torn [of k e]) (simp_all add: persist_def ev Let_def)
      next
        case wr: None
        show ?thesis
        proof (cases "io_walSync io")
          case (Some e)
          with mk op wr line show ?thesis by (intro appended [of e]) (simp add: persist_def ev Let_def)
        next
          case sy: None
          show ?thesis
          proof (cases "io_walClose io")
            case (Some e)
            with mk op wr sy line show ?thesis by (intro appended [of e]) (simp add: persist_def ev Let_def)
          next
            case None
            with mk op wr sy line dec show ?thesis
              by (intro snapshot [of "doc @ [newline]"]) (simp_all add: persist_def ev Let_def)
          qed
        qed
      qed
    qed
  qed
qed

text \<open>What the snapshot stage does to the two files that matter.\<close>

lemma removeFile_other [simp]: "p \<noteq> q \<Longrightarrow> fmlookup (removeFile ok q f) p = fmlookup f p"
  by (simp add: removeFile_def)

lemma renameFile_other:
  "renameFile fault src tgt f = (r, f') \<Longrightarrow> p \<noteq> src \<Longrightarrow> p \<noteq> tgt \<Longrightarrow> fmlookup f' p = fmlookup f p"
  by (auto simp: renameFile_def split: option.splits)

lemma renameFile_ok:
  "renameFile fault src tgt f = (None, f') \<Longrightarrow> fmlookup f src = Some b \<Longrightarrow> fmlookup f' tgt = Some b"
  by (auto simp: renameFile_def split: option.splits)

lemma renameFile_err: "renameFile fault src tgt f = (Some e, f') \<Longrightarrow> f' = f"
  by (auto simp: renameFile_def split: option.splits)

lemma replaceFile_ok:
  assumes "replaceFile os io (tmpPath path) path f = (None, f')" and "fmlookup f (tmpPath path) = Some b"
  shows "fmlookup f' path = Some b" "fmlookup f' (walPath path) = fmlookup f (walPath path)"
proof -
  have "fmlookup f' path = Some b \<and> fmlookup f' (walPath path) = fmlookup f (walPath path)"
  proof (cases os)
    case Unix
    with assms show ?thesis
      using renameFile_ok [of "io_rename io" "tmpPath path" path f f' b]
        renameFile_other [of "io_rename io" "tmpPath path" path f None f' "walPath path"]
      by (simp add: replaceFile_def replaceUnix_def)
  next
    case Windows
    let ?t = "tmpPath path"
    let ?b = "prevPath path"
    obtain r1 f1 where r1: "renameFile (io_rename io) ?t path f = (r1, f1)" by fastforce
    show ?thesis
    proof (cases r1)
      case None
      with Windows assms r1 have "f' = f1" by (simp add: replaceFile_def replaceWindows_def)
      with r1 None assms(2) show ?thesis
        using renameFile_ok [of "io_rename io" ?t path f f' b]
          renameFile_other [of "io_rename io" ?t path f None f' "walPath path"] by simp
    next
      case (Some e)
      have f1: "f1 = f" using r1 Some by (auto dest: renameFile_err)
      let ?f2 = "removeFile (io_rmPrevious io) ?b f1"
      obtain r3 f3 where r3: "renameFile (io_toBackup io) path ?b ?f2 = (r3, f3)" by fastforce
      obtain r4 f4 where r4: "renameFile (io_rename2 io) ?t path f3 = (r4, f4)" by fastforce
      have "r4 = None \<and> f' = removeFile (io_rmBackup io) ?b f4"
        using Windows assms(1) r1 r3 r4 Some
        by (auto simp: replaceFile_def replaceWindows_def Let_def split: if_splits option.splits)
      moreover have "fmlookup f3 ?t = Some b"
        using renameFile_other [OF r3, of ?t] f1 assms(2) by simp
      moreover have "fmlookup f3 (walPath path) = fmlookup f (walPath path)"
        using renameFile_other [OF r3, of "walPath path"] f1 by simp
      ultimately show ?thesis
        using renameFile_ok [of "io_rename2 io" ?t path f3 f4 b]
          renameFile_other [OF r4, of "walPath path"] r4 by simp
    qed
  qed
  then show "fmlookup f' path = Some b" "fmlookup f' (walPath path) = fmlookup f (walPath path)" by auto
qed

lemma persistSnapshot_ok:
  assumes "persistSnapshot os io path raw f = (None, f')"
  shows "fmlookup f' path = Some raw"
    and "walText path f' = (if io_rmWal io then [] else walText path f)"
proof -
  let ?f1 = "fmupd (tmpPath path) raw f"
  obtain f2 where f2: "replaceFile os io (tmpPath path) path ?f1 = (None, f2)"
    "f' = removeFile (io_rmWal io) (walPath path) f2"
    using assms by (auto simp: persistSnapshot_def Let_def split: option.splits prod.splits)
  have "fmlookup ?f1 (tmpPath path) = Some raw" by simp
  from replaceFile_ok [OF f2(1) this] f2(2) show "fmlookup f' path = Some raw"
    "walText path f' = (if io_rmWal io then [] else walText path f)"
    by (auto simp: walText_def getOr_def removeFile_def)
qed

lemma persistSnapshot_unix_err:
  assumes "persistSnapshot Unix io path raw f = (Some e, f')"
  shows "fmlookup f' path = fmlookup f path" "walText path f' = walText path f"
proof -
  have r: "f2 = f1" if "replaceFile Unix io (tmpPath path) path f1 = (Some e2, f2)" for e2 f1 f2
    using that by (auto simp: replaceFile_def replaceUnix_def dest: renameFile_err)
  show "fmlookup f' path = fmlookup f path" "walText path f' = walText path f"
    using assms
    by (auto simp: persistSnapshot_def Let_def walText_def getOr_def dest!: r
        split: option.splits prod.splits)
qed

section \<open>One update\<close>

lemma appendFile_wal [simp]:
  "fmlookup (appendFile (walPath path) b f) path = fmlookup f path"
  "walText path (appendFile (walPath path) b f) = walText path f @ b"
  by (simp_all add: appendFile_def walText_def)

text \<open>A persist that returns success settles the files on the new state, on both systems.\<close>

lemma persist_success:
  assumes torn: "tornSafe L" and s: "settled L path f s" and n: "exact L n"
    and newer: "ps_Sequence s < ps_Sequence n"
    and ok: "persist L os io path n f = (None, f')"
  shows "settled L path f' n"
  using n
proof (cases rule: persist_stages [where L = L and n = n and os = os and io = io and path = path and f = f])
  case (snapshot raw)
  let ?f1 = "appendFile (walPath path) (walLine L n @ [newline]) f"
  have "persistSnapshot os io path raw ?f1 = (None, f')" using snapshot(2) ok by simp
  note sn = persistSnapshot_ok [OF this]
  have "settled L path ?f1 s \<or> settled L path ?f1 n \<and> recorded L path ?f1 n"
    by (rule settled_line [OF torn s n newer]) simp_all
  then obtain ls te where sh: "walShape L (walText path ?f1) ls te"
    "te = [] \<or> (\<exists>e. decodeEnvelope L (dropCR te) = Inl e)"
    "\<forall>l \<in> set ls. dominated n (decodeEnvelope L (dropCR l))"
    using newer by (elim disjE conjE settled_parts) (blast intro: dominated_newer)+
  show ?thesis
  proof (cases "io_rmWal io")
    case True
    then show ?thesis
      by (intro settledI [where ls = "[]" and te = "[]"]) (use sn snapshot(1) in \<open>auto\<close>)
  next
    case False
    then show ?thesis
      by (intro settledI [where ls = ls and te = te]) (use sn sh snapshot(1) in \<open>auto\<close>)
  qed
qed (use ok in auto)

text \<open>
  On Unix a persist that fails, or that a crash cuts off, leaves the files settled on the old
  or on the new state. The one torn write excluded is the one that stops right before the
  newline: it leaves a whole document with no line end.
\<close>

lemma persist_failure:
  assumes torn: "tornSafe L" and s: "settled L path f s" and n: "exact L n"
    and newer: "ps_Sequence s < ps_Sequence n"
    and err: "persist L Unix io path n f = (Some e, f')"
    and cut: "walText path f' \<noteq> walText path f @ walLine L n"
  shows "settled L path f' s \<or> settled L path f' n"
  using n
proof (cases rule: persist_stages [where L = L and n = n and os = Unix and io = io and path = path and f = f])
  case early
  with err s show ?thesis by simp
next
  case (torn e' k)
  let ?f1 = "appendFile (walPath path) (take k (walLine L n @ [newline])) f"
  have f': "f' = ?f1" using torn(2) err by simp
  show ?thesis
  proof (cases "k < length (walLine L n)")
    case True
    have "settled L path ?f1 s"
      by (rule settled_torn [OF assms(1) s n True]) simp_all
    then show ?thesis by (simp add: f')
  next
    case False
    with cut f' have "take k (walLine L n @ [newline]) = walLine L n @ [newline]"
      by (cases "k = length (walLine L n)") simp_all
    then have "settled L path ?f1 s \<or> settled L path ?f1 n \<and> recorded L path ?f1 n"
      by (intro settled_line [OF assms(1) s n newer]) simp_all
    then show ?thesis by (auto simp: f')
  qed
next
  case (appended e')
  then have "settled L path f' s \<or> settled L path f' n \<and> recorded L path f' n"
    using err by (intro settled_line [OF torn s n newer]) auto
  then show ?thesis by blast
next
  case (snapshot raw)
  let ?f1 = "appendFile (walPath path) (walLine L n @ [newline]) f"
  have "persistSnapshot Unix io path raw ?f1 = (Some e, f')" using snapshot(2) err by simp
  note sn = persistSnapshot_unix_err [OF this]
  have "settled L path f' s \<or> settled L path f' n \<and> recorded L path f' n"
    by (rule settled_line [OF torn s n newer]) (use sn in simp_all)
  then show ?thesis by blast
qed

end
