(* ===== verification/Restart.thy ===== *)
theory Restart
  imports Durability
begin

text \<open>
  Crashes and restarts. A life of the plugin loads the store from the files that the previous
  life left, runs any sequence of operations, and ends at any point of its trace, in the middle
  of a persist included. The cycles requested over all lives are pairwise different.
\<close>

section \<open>The disk along a trace\<close>

fun filesAfter :: "fs \<Rightarrow> event list \<Rightarrow> fs" where
  "filesAfter f [] = f"
| "filesAfter f (EvPersist s ok f' # es) = filesAfter f' es"
| "filesAfter f (EvSend c r a # es) = filesAfter f es"

fun stateAfter :: "PersistentState \<Rightarrow> event list \<Rightarrow> PersistentState" where
  "stateAfter s [] = s"
| "stateAfter s (EvPersist n ok f # es) = stateAfter (if ok then n else s) es"
| "stateAfter s (EvSend c r a # es) = stateAfter s es"

text \<open>Every persist of the trace is one of the store's, of a successor of the state in memory.\<close>

definition successor :: "golib \<Rightarrow> PersistentState \<Rightarrow> PersistentState \<Rightarrow> bool" where
  "successor L s n \<longleftrightarrow> ps_Version n = ps_Version (cloneState L s) \<and>
     ps_Sequence n = ps_Sequence (cloneState L s) + 1 \<and>
     ledgerDom (cloneState L s) \<subseteq> ledgerDom n"

fun diskTrace :: "golib \<Rightarrow> goos \<Rightarrow> string \<Rightarrow> PersistentState \<Rightarrow> fs \<Rightarrow> event list \<Rightarrow> bool" where
  "diskTrace L os path s f [] = True"
| "diskTrace L os path s f (EvPersist n ok f' # es) =
     ((\<exists>io r. persist L os io path n f = (r, f') \<and> ok = (r = None)) \<and> successor L s n \<and>
      diskTrace L os path (if ok then n else s) f' es)"
| "diskTrace L os path s f (EvSend c r a # es) = diskTrace L os path s f es"

lemma filesAfter_append [simp]: "filesAfter f (xs @ ys) = filesAfter (filesAfter f xs) ys"
  by (induction f xs rule: filesAfter.induct) auto

lemma stateAfter_append [simp]: "stateAfter s (xs @ ys) = stateAfter (stateAfter s xs) ys"
  by (induction s xs rule: stateAfter.induct) auto

lemma diskTrace_append [simp]:
  "diskTrace L os path s f (xs @ ys) \<longleftrightarrow>
     diskTrace L os path s f xs \<and> diskTrace L os path (stateAfter s xs) (filesAfter f xs) ys"
  by (induction L os path s f xs rule: diskTrace.induct) auto

definition runsTo :: "platform \<Rightarrow> world \<Rightarrow> event list \<Rightarrow> world \<Rightarrow> bool" where
  "runsTo P w evs v \<longleftrightarrow>
     w_trace v = w_trace w @ evs \<and> st_path (w_store v) = st_path (w_store w) \<and>
     stateOf v = stateAfter (stateOf w) evs \<and> w_fs v = filesAfter (w_fs w) evs \<and>
     diskTrace (pf_lib P) (pf_os P) (st_path (w_store w)) (stateOf w) (w_fs w) evs"

lemma runsTo_trans: "runsTo P w xs v \<Longrightarrow> runsTo P v ys u \<Longrightarrow> runsTo P w (xs @ ys) u"
  by (simp add: runsTo_def)

lemma runsTo_tick [simp]: "runsTo P w [] (tick1 w)"
  by (simp add: runsTo_def)

lemma runsTo_emit [simp]: "runsTo P w [EvSend c r a] (emit (EvSend c r a) w)"
  by (simp add: runsTo_def)

lemma tame_successor:
  assumes "tame fn" and "nextState L fn s = Inr n"
  shows "successor L s n"
proof -
  obtain m where "fn (cloneState L s) = Inr m" "n = bumpSequence m"
    using assms(2) by (auto simp: nextState_Inr)
  with assms(1) show ?thesis
    unfolding tame_def growsLedger_def keepsMeta_def successor_def by auto
qed

lemma update_runsTo:
  assumes "tame fn"
  shows "\<exists>evs. runsTo P w evs (snd (update P fn w))"
proof (cases rule: update_cases [of P fn w])
  case refused
  then show ?thesis by (intro exI [of _ "[]"]) simp
next
  case (failed n e f)
  then show ?thesis
    using tame_successor [OF assms failed(1)]
    by (intro exI [of _ "[EvPersist n False f]"]) (auto simp: runsTo_def intro!: exI)
next
  case (committed n f)
  then show ?thesis
    using tame_successor [OF assms committed(1)]
    by (intro exI [of _ "[EvPersist n True f]"]) (auto simp: runsTo_def intro!: exI)
qed

lemma commit_runsTo: "tame fn \<Longrightarrow> commit P fn w = (r, w') \<Longrightarrow> \<exists>evs. runsTo P w evs w'"
  using update_runsTo [of fn P w] by (auto simp: commit_def split: prod.splits sum.splits)

lemma ctl_step_runsTo:
  assumes "ctl_step P allow w v"
  shows "\<exists>evs. runsTo P w evs v"
  using assms
proof (cases rule: ctl_step.cases)
  case call
  then show ?thesis using runsTo_tick by blast
next
  case (transact fn)
  then show ?thesis using update_runsTo by simp
next
  case (activate cred req a' a w1 t w2)
  obtain e1 where e1: "runsTo P w e1 w1" using commit_runsTo [OF tame_tx(7) activate(4)] by blast
  obtain e2 where e2: "runsTo P (tick1 w1) e2 w2"
    using commit_runsTo [OF tame_tx(8) activate(6)] by blast
  from runsTo_trans [OF e1 runsTo_trans [OF runsTo_tick runsTo_trans [OF e2 runsTo_trans [OF runsTo_tick runsTo_emit]]]]
  show ?thesis unfolding activate(1) by blast
qed

lemma ctl_steps_runsTo: "ctl_steps P allow w v \<Longrightarrow> \<exists>evs. runsTo P w evs v"
proof (induction rule: ctl_steps.induct)
  case (refl w)
  show ?case by (intro exI [of _ "[]"]) (simp add: runsTo_def)
next
  case (step w v u)
  then show ?case using ctl_step_runsTo runsTo_trans by blast
qed

section \<open>One life on the disk\<close>

lemma sequence_grows: "(x :: 64 word) + 1 \<noteq> 0 \<Longrightarrow> x < x + 1"
  using unatSuc [of x] by (simp add: word_less_nat_alt add.commute)

text \<open>
  What a life may meet: states the codec represents, sequence numbers that do not wrap around,
  and no I/O failure of a persist except the one that the
  crash itself is. (A failure the life survives leaves the files settled on a state the memory
  does not have; the next persist then reuses its sequence number.)
\<close>

definition representable :: "golib \<Rightarrow> PersistentState \<Rightarrow> bool" where
  "representable L s \<longleftrightarrow> exact L s \<and> cloneState L s = s \<and> ps_Sequence s \<noteq> 0"

fun calm :: "golib \<Rightarrow> string \<Rightarrow> fs \<Rightarrow> event list \<Rightarrow> bool" where
  "calm L path f [] = True"
| "calm L path f (EvPersist n ok f' # es) =
     (representable L n \<and>
      (if ok then calm L path f' es
       else es = [] \<and> walText path f' \<noteq> walText path f @ walLine L n))"
| "calm L path f (EvSend c r a # es) = calm L path f es"

lemma life_settles:
  assumes "tornSafe L" and "settled L path f s" and "cloneState L s = s"
    and "diskTrace L Unix path s f es" and "calm L path f es"
  shows "\<exists>s'. settled L path (filesAfter f es) s' \<and> cloneState L s' = s' \<and>
    ledgerAfter (ledgerDom s) es \<subseteq> ledgerDom s'"
  using assms
proof (induction L path f es arbitrary: s rule: calm.induct)
  case (2 L path f n ok f' es)
  note torn = 2(2) and st = 2(3) and cl = 2(4) and ca = 2(6)
  from 2(5) obtain io r where io: "persist L Unix io path n f = (r, f')" "ok = (r = None)"
    and succ: "successor L s n" and rest: "diskTrace L Unix path (if ok then n else s) f' es"
    by auto
  from ca have rep: "representable L n"
    by auto
  have n: "exact L n" "cloneState L n = n" "ps_Sequence n \<noteq> 0" using rep by (auto simp: representable_def)
  have newer: "ps_Sequence s < ps_Sequence n"
    using succ cl n(3) unfolding successor_def by (metis sequence_grows)
  have grow: "ledgerDom s \<subseteq> ledgerDom n" using succ cl by (simp add: successor_def)
  show ?case
  proof (cases r)
    case None
    have "settled L path f' n"
      by (rule persist_success [OF torn st n(1) newer]) (use io None in simp)
    then show ?thesis
      using 2(1) [of n] torn io(2) None n(2) rest ca by simp
  next
    case (Some e)
    with io ca have es: "es = []" and cut: "walText path f' \<noteq> walText path f @ walLine L n" by auto
    have "settled L path f' s \<or> settled L path f' n"
      by (rule persist_failure [OF torn st n(1) newer _ cut]) (use io Some in simp)
    then show ?thesis
      using es io(2) Some grow n(2) cl by auto
  qed
qed auto

section \<open>Any number of lives\<close>

definition boot :: "Store \<Rightarrow> fs \<Rightarrow> world" where
  "boot st f = \<lparr>w_store = st, w_fs = f, w_n = 0, w_trace = []\<rparr>"

text \<open>
  \<open>history L path f sent\<close>: the files \<open>f\<close> and the requests \<open>sent\<close> so far are what some
  number of lives leave, each with its own platform and operations, cut off anywhere.
\<close>

inductive history ::
  "golib \<Rightarrow> string \<Rightarrow> fs \<Rightarrow> (Credential \<times> ActivationRequest \<times> ProbeAttempt) list \<Rightarrow> bool" for L path where
  installed: "fmlookup f path = None \<Longrightarrow> fmlookup f (walPath path) = None \<Longrightarrow> history L path f []"
| life: "history L path f sent \<Longrightarrow> newStore L goodLoad path f = Inr st \<Longrightarrow>
    pf_lib P = L \<Longrightarrow> pf_os P = Unix \<Longrightarrow> es @ rest = w_trace (runOps P xs (boot st f)) \<Longrightarrow>
    \<forall>s ok g. EvPersist s ok g \<in> set (es @ rest) \<longrightarrow> cloneState L s = s \<Longrightarrow>
    calm L path f es \<Longrightarrow> history L path (filesAfter f es) (sent @ sends es)"

lemma settled_installed:
  "fmlookup f path = None \<Longrightarrow> fmlookup f (walPath path) = None \<Longrightarrow> settled L path f emptyState"
  by (rule settledI [where ls = "[]" and te = "[]"]) (simp_all add: walText_def getOr_def)

definition onRecord :: "golib \<Rightarrow> string \<Rightarrow> fs \<Rightarrow> (Credential \<times> ActivationRequest \<times> ProbeAttempt) list \<Rightarrow> bool" where
  "onRecord L path f sent \<longleftrightarrow>
     (\<exists>s. settled L path f s \<and> cloneState L s = s \<and> (\<forall>x \<in> set sent. cyclesOf x \<subseteq> ledgerDom s))"

lemma life_covered:
  assumes "pf_lib P = L" and "cloneState L (st_state st) = st_state st"
    and "es @ rest = w_trace (runOps P xs (boot st f))"
    and "\<forall>s ok g. EvPersist s ok g \<in> set (es @ rest) \<longrightarrow> cloneState L s = s"
  shows "covered (ledgerDom (st_state st)) (ledgerDom (st_state st)) es"
    and "diskTrace L (pf_os P) (st_path st) (st_state st) f es"
proof -
  let ?w = "boot st f"
  have w: "w_trace ?w = []" "stateOf ?w = st_state st" "w_fs ?w = f" "st_path (w_store ?w) = st_path st"
    by (simp_all add: boot_def)
  obtain evs where evs: "runsTo P ?w evs (runOps P xs ?w)"
    using ctl_steps_runsTo [OF runOps_steps] by blast
  then have e: "evs = es @ rest" using assms(3) w(1) by (simp add: runsTo_def)
  have "ledgerKept L (st_state st)" "allKept L (es @ rest)"
    using assms(2,4) by (simp_all add: ledgerKept_def allKept_def)
  then have "coversRun P (ledgerDom (st_state st)) ?w (es @ rest) (runOps P xs ?w)"
    by (intro ctl_steps_covers [OF runOps_steps]) (use assms w in simp_all)
  then show "covered (ledgerDom (st_state st)) (ledgerDom (st_state st)) es"
    by (simp add: coversRun_def covered_append w(2))
  show "diskTrace L (pf_os P) (st_path st) (st_state st) f es"
    using evs e w assms(1) by (simp add: runsTo_def)
qed

lemma history_safe:
  assumes "history L path f sent" and torn: "tornSafe L" and empty: "cloneState L emptyState = emptyState"
  shows "onRecord L path f sent \<and> sorted_wrt (\<lambda>x y. cyclesOf x \<inter> cyclesOf y = {}) sent"
  using assms(1)
proof (induction rule: history.induct)
  case (installed f)
  with settled_installed [OF installed] empty show ?case by (auto simp: onRecord_def)
next
  case (life f sent st P es rest xs)
  then obtain s where s: "settled L path f s" "cloneState L s = s"
    "\<forall>x \<in> set sent. cyclesOf x \<subseteq> ledgerDom s"
    by (auto simp: onRecord_def)
  have st: "st = \<lparr>st_path = path, st_state = s\<rparr>"
    using life.hyps(2) settled_loads [OF s(1)] by (auto simp: newStore_def split: if_splits sum.splits)
  have keep: "cloneState L (st_state st) = st_state st" using s(2) st by simp
  note run = life_covered [OF life.hyps(3) keep life.hyps(5,6)]
  have cov: "covered (ledgerDom s) (ledgerDom s) es" using run(1) st by simp
  obtain s' where s': "settled L path (filesAfter f es) s'" "cloneState L s' = s'"
    "ledgerAfter (ledgerDom s) es \<subseteq> ledgerDom s'"
    using life_settles [OF torn s(1,2) _ life.hyps(7)] run(2) st life.hyps(4) by auto
  have up: "ledgerDom s \<union> sentCycles es \<subseteq> ledgerDom s'"
    using covered_final [OF cov] s'(3) by blast
  have old: "cyclesOf x \<subseteq> ledgerDom s'" if "x \<in> set sent" for x using s(3) up that by blast
  have new: "cyclesOf x \<subseteq> ledgerDom s'" if "x \<in> set (sends es)" for x
    using up that unfolding sentCycles_sends by blast
  have "\<forall>x \<in> set (sent @ sends es). cyclesOf x \<subseteq> ledgerDom s'"
    unfolding set_append ball_Un using old new by blast
  moreover have "\<forall>x \<in> set sent. \<forall>y \<in> set (sends es). cyclesOf x \<inter> cyclesOf y = {}"
    using covered_sends [OF cov] s(3) by blast
  then have "sorted_wrt (\<lambda>x y. cyclesOf x \<inter> cyclesOf y = {}) (sent @ sends es)"
    unfolding sorted_wrt_append using covered_sends [OF cov] life.IH by blast
  ultimately show ?case using s'(1,2) unfolding onRecord_def by blast
qed

end
