(* ===== verification/ReferenceCodec.thy ===== *)
theory ReferenceCodec
  imports ControllerOps
begin

text \<open>
  An executable instance of the record \<open>golib\<close>: a codec for the two types the store encodes,
  as a stand-in for \<open>encoding/json\<close>, and a polynomial digest of 16 bytes for SHA-256. It exists to
  show that the hypotheses on the standard library can hold together; the theorems hold for
  every \<open>golib\<close> that satisfies their hypotheses.

  A value is first written as a list of tokens (natural numbers); a \<open>codec\<close> is a writer and
  a reader of which the second undoes the first. The tokens are then framed as text in binary,
  between braces.
\<close>

section \<open>Token codecs\<close>

type_synonym 'a writer = "'a \<Rightarrow> nat list"
type_synonym 'a reader = "nat list \<Rightarrow> ('a \<times> nat list) option"

definition codec :: "'a writer \<Rightarrow> 'a reader \<Rightarrow> bool" where
  "codec wr rd \<longleftrightarrow> (\<forall>x r. rd (wr x @ r) = Some (x, r))"

lemma codecI: "(\<And>x r. rd (wr x @ r) = Some (x, r)) \<Longrightarrow> codec wr rd"
  by (simp add: codec_def)

lemma codecD [simp]: "codec wr rd \<Longrightarrow> rd (wr x @ r) = Some (x, r)"
  by (simp add: codec_def)

named_theorems codecs \<open>the codecs of the model's types\<close>

definition wNat :: "nat writer" where "wNat n = [n]"

fun rNat :: "nat reader" where
  "rNat [] = None"
| "rNat (n # r) = Some (n, r)"

lemma codec_nat [codecs]: "codec wNat rNat"
  by (rule codecI) (simp add: wNat_def)

text \<open>A type that is an image of another one.\<close>

definition wVia :: "('a \<Rightarrow> 'b) \<Rightarrow> 'b writer \<Rightarrow> 'a writer" where
  "wVia f wr x = wr (f x)"

definition rVia :: "('b \<Rightarrow> 'a) \<Rightarrow> 'b reader \<Rightarrow> 'a reader" where
  "rVia g rd ts = map_option (apfst g) (rd ts)"

lemma codec_via: "codec wr rd \<Longrightarrow> (\<And>x. g (f x) = x) \<Longrightarrow> codec (wVia f wr) (rVia g rd)"
  by (rule codecI) (simp add: wVia_def rVia_def)

definition wPair :: "'a writer \<Rightarrow> 'b writer \<Rightarrow> ('a \<times> 'b) writer" where
  "wPair wa wb p = wa (fst p) @ wb (snd p)"

definition rPair :: "'a reader \<Rightarrow> 'b reader \<Rightarrow> ('a \<times> 'b) reader" where
  "rPair ra rb ts =
     (case ra ts of None \<Rightarrow> None
      | Some (x, ts1) \<Rightarrow> map_option (apfst (Pair x)) (rb ts1))"

lemma codec_pair [codecs]: "codec wa ra \<Longrightarrow> codec wb rb \<Longrightarrow> codec (wPair wa wb) (rPair ra rb)"
  by (rule codecI) (simp add: wPair_def rPair_def)

definition wList :: "'a writer \<Rightarrow> 'a list writer" where
  "wList wr xs = length xs # concat (map wr xs)"

primrec rCount :: "'a reader \<Rightarrow> nat \<Rightarrow> 'a list reader" where
  "rCount rd 0 ts = Some ([], ts)"
| "rCount rd (Suc n) ts =
     (case rd ts of None \<Rightarrow> None
      | Some (x, ts1) \<Rightarrow> map_option (apfst (Cons x)) (rCount rd n ts1))"

fun rList :: "'a reader \<Rightarrow> 'a list reader" where
  "rList rd [] = None"
| "rList rd (n # ts) = rCount rd n ts"

lemma codec_list [codecs]:
  assumes "codec wr rd"
  shows "codec (wList wr) (rList rd)"
proof (rule codecI)
  fix xs r
  have "rCount rd (length xs) (concat (map wr xs) @ r) = Some (xs, r)"
    by (induction xs) (simp_all add: assms)
  then show "rList rd (wList wr xs @ r) = Some (xs, r)" by (simp add: wList_def)
qed

definition wOption :: "'a writer \<Rightarrow> 'a option writer" where
  "wOption wr = wVia (\<lambda>x. case x of None \<Rightarrow> [] | Some y \<Rightarrow> [y]) (wList wr)"

definition rOption :: "'a reader \<Rightarrow> 'a option reader" where
  "rOption rd = rVia (\<lambda>xs. case xs of [] \<Rightarrow> None | y # ys \<Rightarrow> Some y) (rList rd)"

lemma codec_option [codecs]: "codec wr rd \<Longrightarrow> codec (wOption wr) (rOption rd)"
  unfolding wOption_def rOption_def
  by (rule codec_via [OF codec_list]) (auto split: option.splits)

section \<open>Base types\<close>

definition wInt :: "int writer" where
  "wInt = wVia (\<lambda>i. (if i < 0 then 1 else 0, nat \<bar>i\<bar>)) (wPair wNat wNat)"

definition rInt :: "int reader" where
  "rInt = rVia (\<lambda>(s, n). if s = 1 then - int n else int n) (rPair rNat rNat)"

lemma codec_int [codecs]: "codec wInt rInt"
  unfolding wInt_def rInt_def by (rule codec_via) (auto intro: codecs)

definition wBool :: "bool writer" where "wBool = wVia of_bool wNat"
definition rBool :: "bool reader" where "rBool = rVia (\<lambda>n. n = 1) rNat"

lemma codec_bool [codecs]: "codec wBool rBool"
  unfolding wBool_def rBool_def by (rule codec_via) (auto intro: codecs)

definition wWord :: "64 word writer" where "wWord = wVia unat wNat"
definition rWord :: "64 word reader" where "rWord = rVia of_nat rNat"

lemma codec_word [codecs]: "codec wWord rWord"
  unfolding wWord_def rWord_def by (rule codec_via) (auto intro: codecs)

definition wString :: "string writer" where "wString = wList (wVia of_char wNat)"
definition rString :: "string reader" where "rString = rList (rVia char_of rNat)"

lemma codec_string [codecs]: "codec wString rString"
  unfolding wString_def rString_def by (rule codec_list, rule codec_via) (auto intro: codecs)

definition wRat :: "rat writer" where "wRat = wVia quotient_of (wPair wInt wInt)"
definition rRat :: "rat reader" where "rRat = rVia (\<lambda>(a, b). Fract a b) (rPair rInt rInt)"

lemma codec_rat [codecs]: "codec wRat rRat"
proof -
  have "(case quotient_of x of (a, b) \<Rightarrow> Fract a b) = x" for x
    by (cases "quotient_of x") (simp add: Fract_of_int_quotient flip: quotient_of_div)
  then show ?thesis
    unfolding wRat_def rRat_def by (intro codec_via codecs)
qed

definition wFloat :: "float64 writer" where
  "wFloat = wVia (\<lambda>x. case x of FNaN \<Rightarrow> (0, 0) | FInf True \<Rightarrow> (1, 0) | FInf False \<Rightarrow> (2, 0)
     | FFin q \<Rightarrow> (3, q)) (wPair wNat wRat)"

definition rFloat :: "float64 reader" where
  "rFloat = rVia (\<lambda>(n, q). if n = 0 then FNaN else if n = 1 then FInf True
     else if n = 2 then FInf False else FFin q) (rPair rNat rRat)"

lemma codec_float [codecs]: "codec wFloat rFloat"
  unfolding wFloat_def rFloat_def
  by (rule codec_via) (auto intro: codecs split: float64.splits bool.splits)

definition wMap :: "'v writer \<Rightarrow> (string, 'v) fmap writer" where
  "wMap wr = wVia (\<lambda>m. map (\<lambda>k. (k, the (fmlookup m k))) (fmkeys m)) (wList (wPair wString wr))"

definition rMap :: "'v reader \<Rightarrow> (string, 'v) fmap reader" where
  "rMap rd = rVia fmap_of_list (rList (rPair rString rd))"

lemma fmap_of_keys: "fmap_of_list (map (\<lambda>k. (k, the (fmlookup m k))) (fmkeys m)) = m"
proof (rule fmap_ext)
  fix k
  have "map_of (map (\<lambda>k. (k, the (fmlookup m k))) ks) k =
      (if k \<in> set ks then Some (the (fmlookup m k)) else None)" for ks
    by (induction ks) auto
  then show "fmlookup (fmap_of_list (map (\<lambda>k. (k, the (fmlookup m k))) (fmkeys m))) k = fmlookup m k"
    by (auto simp: fmlookup_of_list fmlookup_dom_iff)
qed

lemma codec_map [codecs]: "codec wr rd \<Longrightarrow> codec (wMap wr) (rMap rd)"
  unfolding wMap_def rMap_def
  by (intro codec_via codec_list codec_pair codec_string) (simp_all add: fmap_of_keys)

section \<open>The model's types\<close>

text \<open>The tag of an enumeration is the position of its constructor; 99 stands for other texts.\<close>

definition probeStates :: "ProbeState list" where
  "probeStates = [StateObserving, StateWaitingReset, StatePendingPrecheck, StateNormalReset,
     StateLazyDetected, StateActivationSending, StateActivationSent, StateSentUnknown,
     StateVerifying, StateConfirmed, StateRetryWait, StateAuthBlocked, StateUnsupported,
     StateDisabled]"

fun stateTag :: "ProbeState \<Rightarrow> nat \<times> string" where
  "stateTag StateObserving = (0, [])"
| "stateTag StateWaitingReset = (1, [])"
| "stateTag StatePendingPrecheck = (2, [])"
| "stateTag StateNormalReset = (3, [])"
| "stateTag StateLazyDetected = (4, [])"
| "stateTag StateActivationSending = (5, [])"
| "stateTag StateActivationSent = (6, [])"
| "stateTag StateSentUnknown = (7, [])"
| "stateTag StateVerifying = (8, [])"
| "stateTag StateConfirmed = (9, [])"
| "stateTag StateRetryWait = (10, [])"
| "stateTag StateAuthBlocked = (11, [])"
| "stateTag StateUnsupported = (12, [])"
| "stateTag StateDisabled = (13, [])"
| "stateTag (StateOther s) = (99, s)"

definition wState :: "ProbeState writer" where
  "wState = wVia stateTag (wPair wNat wString)"

definition rState :: "ProbeState reader" where
  "rState = rVia (\<lambda>(n, s). if n < 14 then probeStates ! n else StateOther s) (rPair rNat rString)"

lemma codec_state [codecs]: "codec wState rState"
  unfolding wState_def rState_def
proof (rule codec_via)
  show "(case stateTag x of (n, s) \<Rightarrow> if n < 14 then probeStates ! n else StateOther s) = x" for x
    by (cases x) (simp_all add: probeStates_def)
qed (intro codecs)

fun phaseTag :: "AttemptPhase \<Rightarrow> nat \<times> string" where
  "phaseTag (AttemptOther s) = (0, s)"
| "phaseTag p = (phaseRank p, [])"

definition rankPhase :: "nat \<Rightarrow> string \<Rightarrow> AttemptPhase" where
  "rankPhase n s = (if n = 1 then AttemptPrepared else if n = 2 then AttemptSending
     else if n = 3 then AttemptSent else if n = 4 then AttemptSentUnknown
     else if n = 5 then AttemptCompleted else AttemptOther s)"

definition wPhase :: "AttemptPhase writer" where
  "wPhase = wVia phaseTag (wPair wNat wString)"

definition rPhase :: "AttemptPhase reader" where
  "rPhase = rVia (\<lambda>(n, s). rankPhase n s) (rPair rNat rString)"

lemma codec_phase [codecs]: "codec wPhase rPhase"
  unfolding wPhase_def rPhase_def
proof (rule codec_via)
  show "(case phaseTag x of (n, s) \<Rightarrow> rankPhase n s) = x" for x
    by (cases x) (simp_all add: rankPhase_def)
qed (intro codecs)

text \<open>Records are written as the tuples of their fields.\<close>

definition wBaseline :: "Baseline writer" where
  "wBaseline = wVia (\<lambda>x. (bl_ResetAt x, bl_WindowDuration x, bl_UsedPercent x, bl_ObservedAt x,
     bl_CycleID x))
     (wPair wInt (wPair wInt (wPair (wOption wFloat) (wPair wInt wString))))"

definition rBaseline :: "Baseline reader" where
  "rBaseline = rVia (\<lambda>(a0, a1, a2, a3, a4). \<lparr>bl_ResetAt = a0, bl_WindowDuration = a1,
     bl_UsedPercent = a2, bl_ObservedAt = a3, bl_CycleID = a4\<rparr>)
     (rPair rInt (rPair rInt (rPair (rOption rFloat) (rPair rInt rString))))"

lemma codec_Baseline [codecs]: "codec wBaseline rBaseline"
  unfolding wBaseline_def rBaseline_def by (rule codec_via) (simp_all add: codecs)

definition wWindow :: "QuotaWindow writer" where
  "wWindow = wVia (\<lambda>x. (qw_Provider x, qw_AuthID x, qw_BucketID x, qw_ModelFamily x, qw_Scope x,
     qw_UsedPercent x, qw_ResetAt x, qw_WindowDuration x, qw_ObservedAt x, qw_ServerTime x,
     qw_ActivationGroup x, qw_LazyHint x, qw_Complete x))
     (wPair wString (wPair wString (wPair wString (wPair wString (wPair wString (wPair
     (wOption wFloat) (wPair wInt (wPair wInt (wPair wInt (wPair wInt (wPair wString (wPair
     wBool wBool))))))))))))"

definition rWindow :: "QuotaWindow reader" where
  "rWindow = rVia (\<lambda>(a0, a1, a2, a3, a4, a5, a6, a7, a8, a9, a10, a11, a12). \<lparr>qw_Provider =
     a0, qw_AuthID = a1, qw_BucketID = a2, qw_ModelFamily = a3, qw_Scope = a4, qw_UsedPercent
     = a5, qw_ResetAt = a6, qw_WindowDuration = a7, qw_ObservedAt = a8, qw_ServerTime = a9,
     qw_ActivationGroup = a10, qw_LazyHint = a11, qw_Complete = a12\<rparr>)
     (rPair rString (rPair rString (rPair rString (rPair rString (rPair rString (rPair
     (rOption rFloat) (rPair rInt (rPair rInt (rPair rInt (rPair rInt (rPair rString (rPair
     rBool rBool))))))))))))"

lemma codec_Window [codecs]: "codec wWindow rWindow"
  unfolding wWindow_def rWindow_def by (rule codec_via) (simp_all add: codecs)

definition wRecord :: "WindowRecord writer" where
  "wRecord = wVia (\<lambda>x. (wr_Key x, wr_InstanceKey x, wr_Provider x, wr_AuthID x, wr_BucketID x,
     wr_ModelFamily x, wr_ActivationGroup x, wr_CredentialFP x, wr_Baseline x, wr_Latest x,
     wr_State x, wr_LastProbe x, wr_NextCheck x, wr_LastActivation x, wr_LastResult x,
     wr_RetryCount x, wr_ActiveAttemptID x, wr_ActivationDisabled x))
     (wPair wString (wPair wString (wPair wString (wPair wString (wPair wString (wPair wString
     (wPair wString (wPair wString (wPair wBaseline (wPair wWindow (wPair wState (wPair wInt
     (wPair wInt (wPair wInt (wPair wString (wPair wInt (wPair wString wBool)))))))))))))))))"

definition rRecord :: "WindowRecord reader" where
  "rRecord = rVia (\<lambda>(a0, a1, a2, a3, a4, a5, a6, a7, a8, a9, a10, a11, a12, a13, a14, a15, a16,
     a17). \<lparr>wr_Key = a0, wr_InstanceKey = a1, wr_Provider = a2, wr_AuthID = a3,
     wr_BucketID = a4, wr_ModelFamily = a5, wr_ActivationGroup = a6, wr_CredentialFP = a7,
     wr_Baseline = a8, wr_Latest = a9, wr_State = a10, wr_LastProbe = a11, wr_NextCheck =
     a12, wr_LastActivation = a13, wr_LastResult = a14, wr_RetryCount = a15,
     wr_ActiveAttemptID = a16, wr_ActivationDisabled = a17\<rparr>)
     (rPair rString (rPair rString (rPair rString (rPair rString (rPair rString (rPair rString
     (rPair rString (rPair rString (rPair rBaseline (rPair rWindow (rPair rState (rPair rInt
     (rPair rInt (rPair rInt (rPair rString (rPair rInt (rPair rString rBool)))))))))))))))))"

lemma codec_Record [codecs]: "codec wRecord rRecord"
  unfolding wRecord_def rRecord_def by (rule codec_via) (simp_all add: codecs)

definition wAttempt :: "ProbeAttempt writer" where
  "wAttempt = wVia (\<lambda>x. (pa_ID x, pa_InstanceKey x, pa_Provider x, pa_AuthID x, pa_AuthIndex x,
     pa_CredentialFP x, pa_ActivationGroup x, pa_WindowKeys x, pa_CycleIDs x, pa_Phase x,
     pa_CreatedAt x, pa_SendingAt x, pa_SentAt x, pa_VerifyNotBefore x, pa_SuppressUntil x,
     pa_LastError x))
     (wPair wString (wPair wString (wPair wString (wPair wString (wPair wString (wPair wString
     (wPair wString (wPair (wList wString) (wPair (wList wString) (wPair wPhase (wPair wInt
     (wPair wInt (wPair wInt (wPair wInt (wPair wInt wString)))))))))))))))"

definition rAttempt :: "ProbeAttempt reader" where
  "rAttempt = rVia (\<lambda>(a0, a1, a2, a3, a4, a5, a6, a7, a8, a9, a10, a11, a12, a13, a14, a15).
     \<lparr>pa_ID = a0, pa_InstanceKey = a1, pa_Provider = a2, pa_AuthID = a3, pa_AuthIndex
     = a4, pa_CredentialFP = a5, pa_ActivationGroup = a6, pa_WindowKeys = a7, pa_CycleIDs =
     a8, pa_Phase = a9, pa_CreatedAt = a10, pa_SendingAt = a11, pa_SentAt = a12,
     pa_VerifyNotBefore = a13, pa_SuppressUntil = a14, pa_LastError = a15\<rparr>)
     (rPair rString (rPair rString (rPair rString (rPair rString (rPair rString (rPair rString
     (rPair rString (rPair (rList rString) (rPair (rList rString) (rPair rPhase (rPair rInt
     (rPair rInt (rPair rInt (rPair rInt (rPair rInt rString)))))))))))))))"

lemma codec_Attempt [codecs]: "codec wAttempt rAttempt"
  unfolding wAttempt_def rAttempt_def by (rule codec_via) (simp_all add: codecs)

definition wEntry :: "CycleLedgerEntry writer" where
  "wEntry = wVia (\<lambda>x. (cl_CycleID x, cl_AttemptID x, cl_SendingAt x, cl_SendOutcome x))
     (wPair wString (wPair wString (wPair wInt wString)))"

definition rEntry :: "CycleLedgerEntry reader" where
  "rEntry = rVia (\<lambda>(a0, a1, a2, a3). \<lparr>cl_CycleID = a0, cl_AttemptID = a1, cl_SendingAt =
     a2, cl_SendOutcome = a3\<rparr>)
     (rPair rString (rPair rString (rPair rInt rString)))"

lemma codec_Entry [codecs]: "codec wEntry rEntry"
  unfolding wEntry_def rEntry_def by (rule codec_via) (simp_all add: codecs)

definition wRaw :: "RawState writer" where
  "wRaw = wVia (\<lambda>x. (rs_Version x, rs_Sequence x, rs_Windows x, rs_Attempts x, rs_CycleLedger
     x))
     (wPair wInt (wPair wWord (wPair (wOption (wMap wRecord)) (wPair (wOption (wMap wAttempt))
     (wOption (wMap wEntry))))))"

definition rRaw :: "RawState reader" where
  "rRaw = rVia (\<lambda>(a0, a1, a2, a3, a4). \<lparr>rs_Version = a0, rs_Sequence = a1, rs_Windows =
     a2, rs_Attempts = a3, rs_CycleLedger = a4\<rparr>)
     (rPair rInt (rPair rWord (rPair (rOption (rMap rRecord)) (rPair (rOption (rMap rAttempt))
     (rOption (rMap rEntry))))))"

lemma codec_Raw [codecs]: "codec wRaw rRaw"
  unfolding wRaw_def rRaw_def by (rule codec_via) (simp_all add: codecs)

definition wEnvelope :: "StateEnvelope writer" where
  "wEnvelope = wVia (\<lambda>x. (en_State x, en_Checksum x))
     (wPair wRaw wString)"

definition rEnvelope :: "StateEnvelope reader" where
  "rEnvelope = rVia (\<lambda>(a0, a1). \<lparr>en_State = a0, en_Checksum = a1\<rparr>)
     (rPair rRaw rString)"

lemma codec_Envelope [codecs]: "codec wEnvelope rEnvelope"
  unfolding wEnvelope_def rEnvelope_def by (rule codec_via) (simp_all add: codecs)

section \<open>Framing as text\<close>

text \<open>A token is its binary digits, lowest first, up to a comma.\<close>

fun bits :: "nat \<Rightarrow> string" where
  "bits n = (if n = 0 then [] else (if odd n then CHR ''1'' else CHR ''0'') # bits (n div 2))"

declare bits.simps [simp del]

definition frame :: "nat list \<Rightarrow> string" where
  "frame ts = CHR 0x7B # concat (map (\<lambda>n. bits n @ '','') ts) @ [CHR 0x7D]"

fun unframeBody :: "string \<Rightarrow> nat list option" where
  "unframeBody [] = None"
| "unframeBody (c # cs) =
     (if c = CHR 0x7D then (if cs = [] then Some [] else None)
      else
        (case unframeBody cs of
           None \<Rightarrow> None
         | Some ts \<Rightarrow>
             if c = CHR '','' then Some (0 # ts)
             else if c = CHR ''0'' then
               (case ts of [] \<Rightarrow> None | t # r \<Rightarrow> Some (2 * t # r))
             else if c = CHR ''1'' then
               (case ts of [] \<Rightarrow> None | t # r \<Rightarrow> Some (Suc (2 * t) # r))
             else None))"

fun unframe :: "string \<Rightarrow> nat list option" where
  "unframe [] = None"
| "unframe (c # cs) =
     (if c = CHR '' '' then unframe cs else if c = CHR 0x7B then unframeBody cs else None)"

definition trimRight :: "string \<Rightarrow> string" where
  "trimRight s = rev (dropWhile (\<lambda>c. c = newline) (rev s))"

lemma unframe_token: "unframeBody (bits n @ CHR '','' # r) = map_option (Cons n) (unframeBody r)"
proof (induction n rule: bits.induct)
  case (1 n)
  show ?case
  proof (cases "n = 0")
    case True
    then show ?thesis by (simp add: bits.simps split: option.splits)
  next
    case False
    have "odd n \<Longrightarrow> Suc (2 * (n div 2)) = n" "even n \<Longrightarrow> 2 * (n div 2) = n" by simp_all
    with 1 [OF False] False show ?thesis
      by (subst bits.simps) (auto split: option.splits)
  qed
qed

lemma unframe_frame [simp]: "unframe (frame ts) = Some ts"
proof -
  have "unframeBody (concat (map (\<lambda>n. bits n @ '','') ts) @ [CHR 0x7D]) = Some ts"
    by (induction ts) (simp_all add: unframe_token)
  then show ?thesis by (simp add: frame_def)
qed

definition readAll :: "'a reader \<Rightarrow> string \<Rightarrow> error + 'a" where
  "readAll rd s =
     (case unframe (trimRight s) of
        None \<Rightarrow> Inl (ErrMsg ''unexpected end of JSON input'')
      | Some ts \<Rightarrow>
          (case rd ts of
             None \<Rightarrow> Inl (ErrMsg ''cannot unmarshal'')
           | Some (x, r) \<Rightarrow> if r = [] then Inr x else Inl (ErrMsg ''invalid character after value'')))"

lemma trimRight_frame [simp]:
  "trimRight (frame ts) = frame ts" "trimRight (CHR '' '' # frame ts) = CHR '' '' # frame ts"
  "trimRight (frame ts @ [newline]) = frame ts"
  "trimRight (CHR '' '' # frame ts @ [newline]) = CHR '' '' # frame ts"
  by (simp_all add: trimRight_def frame_def newline_def)

lemma readAll_frame [simp]:
  assumes "codec wr rd"
  shows "readAll rd (frame (wr x)) = Inr x" "readAll rd (CHR '' '' # frame (wr x)) = Inr x"
    "readAll rd (CHR '' '' # frame (wr x) @ [newline]) = Inr x"
  using codecD [OF assms, of x "[]"] by (simp_all add: readAll_def)

definition refDigest :: "string \<Rightarrow> string" where
  "refDigest s =
     (let h = fold (\<lambda>c h. (h * 1099511628211 + of_char c) mod 2 ^ 128) s (0 :: int)
      in map (\<lambda>i. char_of (h div 256 ^ i)) [0..<16])"

definition refLib :: golib where
  "refLib = \<lparr>sha256Sum = refDigest,
     marshalState = (\<lambda>r. Inr (frame (wRaw r))), unmarshalState = readAll rRaw,
     marshalEnvelope = (\<lambda>e. Inr (frame (wEnvelope e))),
     marshalIndentEnvelope = (\<lambda>e. Inr (CHR '' '' # frame (wEnvelope e))),
     unmarshalEnvelope = readAll rEnvelope\<rparr>"

lemma clone_refLib [simp]: "cloneState refLib s = s"
  by (simp add: cloneState_def refLib_def codecs)

end
