(* ===== verification/Activation.thy ===== *)
theory Activation
  imports FenceSafety
begin

text \<open>
  The activation of a lazy window, end to end, on a store that works: the reconciliation of the
  first observation, the second authoritative read, the attempt, its fence, the request, its
  outcome and the verification.
\<close>

section \<open>A store that works\<close>

definition workingStore :: "platform \<Rightarrow> bool" where
  "workingStore P \<longleftrightarrow>
     (\<forall>s. cloneState (pf_lib P) s = s) \<and>
     (\<forall>n path s f. fst (persist (pf_lib P) (pf_os P) (pf_io P n) path s f) = None)"

definition committed :: "platform \<Rightarrow> PersistentState \<Rightarrow> world \<Rightarrow> world" where
  "committed P s w =
     (let f = snd (persist (pf_lib P) (pf_os P) (pf_io P (w_n w)) (st_path (w_store w)) s (w_fs w))
      in emit (EvPersist s True f) (tick1 (w\<lparr>w_store := (w_store w)\<lparr>st_state := s\<rparr>, w_fs := f\<rparr>)))"

lemma committed_simps [simp]:
  "stateOf (committed P s w) = s" "sends (w_trace (committed P s w)) = sends (w_trace w)"
  "length (w_trace (committed P s w)) = Suc (length (w_trace w))"
  by (simp_all add: committed_def Let_def)

lemma emit_send [simp]: "stateOf (emit e w) = stateOf w" "stateOf (tick1 w) = stateOf w"
  by simp_all

lemma working_clone: "workingStore P \<Longrightarrow> cloneState (pf_lib P) s = s"
  by (simp add: workingStore_def)

lemma working_update:
  assumes "workingStore P" and "fn (stateOf w) = Inr n"
  shows "update P fn w = (Inr (bumpSequence n), committed P (bumpSequence n) w)"
proof -
  have "fst (persist (pf_lib P) (pf_os P) (pf_io P (w_n w)) (st_path (w_store w)) (bumpSequence n) (w_fs w)) = None"
    using assms(1) by (simp add: workingStore_def)
  then obtain f where f: "persist (pf_lib P) (pf_os P) (pf_io P (w_n w)) (st_path (w_store w))
      (bumpSequence n) (w_fs w) = (None, f)"
    by (metis prod.collapse)
  have "nextState (pf_lib P) fn (stateOf w) = Inr (bumpSequence n)"
    using assms by (simp add: nextState_Inr working_clone)
  with f show ?thesis
    using assms by (simp add: update_def storeUpdate_def committed_def working_clone)
qed

lemma working_commit:
  "workingStore P \<Longrightarrow> fn (stateOf w) = Inr n \<Longrightarrow>
     commit P fn w = (None, committed P (bumpSequence n) w)"
  by (simp add: commit_def working_update)

section \<open>The stages\<close>

definition winDom :: "PersistentState \<Rightarrow> string set" where
  "winDom s = fset (fmdom (ps_Windows s))"

lemma winDom_simps [simp]:
  "winDom (rangeWindows f s) = winDom s"
  "winDom (modifyWindows g ks s) = winDom s \<union> set ks"
  "winDom (putWindow k r s) = insert k (winDom s)"
  "winDom (putAttempt a s) = winDom s"
  "winDom (bumpSequence s) = winDom s"
  "winDom (s\<lparr>ps_Attempts := x\<rparr>) = winDom s"
  "winDom (s\<lparr>ps_CycleLedger := y\<rparr>) = winDom s"
  by (simp_all add: winDom_def rangeWindows_def modifyWindows_def putWindow_def putAttempt_def)

lemma winDom_verify: "winDom (fold (verifyStep L cfg t v bs) ks s) = winDom s"
  by (induction ks arbitrary: s)
    (auto simp: verifyStep_def winDom_def putWindow_def fmlookup_dom_iff split: option.splits)

lemma verify_stage:
  assumes P: "workingStore P" and q: "ad_ReadQuota ad (w_n w) cred = Inr obs"
    and n: "normalizeWindows (ob_Windows obs) = Inr ws"
    and a: "fmlookup (ps_Attempts (stateOf w)) (pa_ID a) = Some cur"
  shows "\<exists>v. verifyAttempt P C cred ad ops a w = (None, v) \<and>
    sends (w_trace v) = sends (w_trace w) \<and> length (w_trace v) = length (w_trace w) + 1 \<and>
    ledgerDom (stateOf v) = ledgerDom (stateOf w) \<and> winDom (stateOf v) = winDom (stateOf w) \<and>
    fmlookup (ps_Attempts (stateOf v)) (pa_ID a) = Some (cur\<lparr>pa_Phase := AttemptCompleted\<rparr>)"
proof -
  let ?tx = "verifyTx (pf_lib P) (ctl_cfg C) (ctl_now C (w_n (tick1 w))) (ac_VerifyActivation ops) ws (pa_ID a)"
  let ?w = "tick1 (tick1 w)"
  obtain m where m: "?tx (stateOf ?w) = Inr m"
    "fmlookup (ps_Attempts m) (pa_ID a) = Some (cur\<lparr>pa_Phase := AttemptCompleted\<rparr>)"
    "ledgerDom m = ledgerDom (stateOf w)" "winDom m = winDom (stateOf w)"
    using a by (simp add: verifyTx_def Let_def ledgerDom_verify winDom_verify)
  have "commit P ?tx ?w = (None, committed P (bumpSequence m) ?w)"
    by (rule working_commit [where fn = ?tx, OF P m(1)])
  then show ?thesis
    using q n m(2-4) by (simp add: verifyAttempt_def readQuota_def readClock_def)
qed

lemma outcome_stage:
  assumes P: "workingStore P"
    and a: "fmlookup (ps_Attempts (stateOf w)) (pa_ID a) = Some cur"
  shows "\<exists>v cur'. markSendOutcome P C a ph out cause w = (None, v) \<and>
    sends (w_trace v) = sends (w_trace w) \<and> length (w_trace v) = length (w_trace w) + 1 \<and>
    ledgerDom (stateOf v) = ledgerDom (stateOf w) \<union> set (pa_CycleIDs cur) \<and>
    winDom (stateOf v) = winDom (stateOf w) \<union> set (pa_WindowKeys cur) \<and>
    fmlookup (ps_Attempts (stateOf v)) (pa_ID a) = Some cur' \<and> pa_CycleIDs cur' = pa_CycleIDs cur"
proof -
  let ?tx = "markSendOutcomeTx (ctl_now C (w_n w)) a ph out cause"
  obtain m cur' where m: "?tx (stateOf (tick1 w)) = Inr m"
    "fmlookup (ps_Attempts m) (pa_ID a) = Some cur'" "pa_CycleIDs cur' = pa_CycleIDs cur"
    "ledgerDom m = ledgerDom (stateOf w) \<union> set (pa_CycleIDs cur)"
    "winDom m = winDom (stateOf w) \<union> set (pa_WindowKeys cur)"
    using a by (simp add: markSendOutcomeTx_def Let_def modifyWindows_def ledgerDom_def winDom_def)
  have "commit P ?tx (tick1 w) = (None, committed P (bumpSequence m) (tick1 w))"
    by (rule working_commit [where fn = ?tx, OF P m(1)])
  then show ?thesis
    using m(2-5) by (simp add: markSendOutcome_def readClock_def)
qed

lemma send_stage:
  assumes P: "workingStore P" and q: "\<And>n. ad_ReadQuota ad n cred = Inr obs"
    and n: "normalizeWindows (ob_Windows obs) = Inr ws"
    and a: "fmlookup (ps_Attempts (stateOf w)) (pa_ID a) = Some cur"
    and send: "\<And>n. send n cred req = None" and wait: "\<And>n. ctl_wait C n (cfg_VerifyDelay (ctl_cfg C)) = None"
  shows "\<exists>v cur'. sendAndVerify P C send cred ad ops req a w = (None, v) \<and>
    sends (w_trace v) = sends (w_trace w) @ [(cred, req, a)] \<and>
    length (w_trace v) = length (w_trace w) + 3 \<and>
    ledgerDom (stateOf v) = ledgerDom (stateOf w) \<union> set (pa_CycleIDs cur) \<and>
    winDom (stateOf v) = winDom (stateOf w) \<union> set (pa_WindowKeys cur) \<and>
    fmlookup (ps_Attempts (stateOf v)) (pa_ID a) = Some cur' \<and>
    pa_CycleIDs cur' = pa_CycleIDs cur \<and> pa_Phase cur' = AttemptCompleted"
proof -
  let ?w1 = "emit (EvSend cred req a) (tick1 w)"
  let ?a = "a\<lparr>pa_Phase := AttemptSent, pa_SentAt := ctl_now C (w_n ?w1)\<rparr>"
  have "fmlookup (ps_Attempts (stateOf (tick1 ?w1))) (pa_ID ?a) = Some cur" using a by simp
  from outcome_stage [OF P this, of C AttemptSent "''sent''" None] obtain v1 c1 where
    v1: "markSendOutcome P C ?a AttemptSent ''sent'' None (tick1 ?w1) = (None, v1)"
    "sends (w_trace v1) = sends (w_trace w) @ [(cred, req, a)]"
    "fmlookup (ps_Attempts (stateOf v1)) (pa_ID ?a) = Some c1" "pa_CycleIDs c1 = pa_CycleIDs cur"
    "ledgerDom (stateOf v1) = ledgerDom (stateOf w) \<union> set (pa_CycleIDs cur)"
    "winDom (stateOf v1) = winDom (stateOf w) \<union> set (pa_WindowKeys cur)"
    "length (w_trace v1) = length (w_trace w) + 2"
    by auto
  then have "fmlookup (ps_Attempts (stateOf (tick1 v1))) (pa_ID ?a) = Some c1" by simp
  from verify_stage [OF P q n this, of C ops] obtain v where
    v: "verifyAttempt P C cred ad ops ?a (tick1 v1) = (None, v)"
    "sends (w_trace v) = sends (w_trace v1)"
    "fmlookup (ps_Attempts (stateOf v)) (pa_ID a) = Some (c1\<lparr>pa_Phase := AttemptCompleted\<rparr>)"
    "ledgerDom (stateOf v) = ledgerDom (stateOf v1)" "winDom (stateOf v) = winDom (stateOf v1)"
    "length (w_trace v) = length (w_trace v1) + 1"
    by auto
  have "sendAndVerify P C send cred ad ops req a w = (None, v)"
    using v1(1) v(1) send wait by (simp add: sendAndVerify_def readClock_def Let_def)
  with v v1 show ?thesis by simp
qed

text \<open>An attempt whose cycles are not in the ledger passes both transactions.\<close>

lemma fence_stage:
  assumes P: "workingStore P" and q: "\<And>n. ad_ReadQuota ad n cred = Inr obs"
    and n: "normalizeWindows (ob_Windows obs) = Inr ws"
    and fresh: "set (pa_CycleIDs a) \<inter> ledgerDom (stateOf w) = {}" and ph: "pa_Phase a = AttemptPrepared"
    and send: "\<And>n. send n cred req = None" and wait: "\<And>n. ctl_wait C n (cfg_VerifyDelay (ctl_cfg C)) = None"
  shows "\<exists>v a' cur. fenceAndSend P C send cred ad ops req a w = (None, v) \<and>
    sends (w_trace v) = sends (w_trace w) @ [(cred, req, a')] \<and>
    length (w_trace v) = length (w_trace w) + 5 \<and>
    pa_ID a' = pa_ID a \<and> pa_CycleIDs a' = pa_CycleIDs a \<and>
    ledgerDom (stateOf v) = ledgerDom (stateOf w) \<union> set (pa_CycleIDs a) \<and>
    winDom (stateOf v) = winDom (stateOf w) \<union> set (pa_WindowKeys a) \<and>
    fmlookup (ps_Attempts (stateOf v)) (pa_ID a) = Some cur \<and>
    pa_CycleIDs cur = pa_CycleIDs a \<and> pa_Phase cur = AttemptCompleted"
proof -
  have "firstFenced (stateOf w) (pa_CycleIDs a) = None"
    using fresh by (auto simp: firstFenced_def find_None_iff ledgerDom_def fmlookup_dom_iff)
  then obtain m where m: "prepareTx a (stateOf w) = Inr m"
    "fmlookup (ps_Attempts m) (pa_ID a) = Some a" "ledgerDom m = ledgerDom (stateOf w)"
    "winDom m = winDom (stateOf w) \<union> set (pa_WindowKeys a)"
    by (simp add: prepareTx_def modifyWindows_def putAttempt_def ledgerDom_def winDom_def)
  let ?w1 = "tick1 (committed P (bumpSequence m) w)"
  have p: "commit P (prepareTx a) w = (None, committed P (bumpSequence m) w)"
    by (rule working_commit [where fn = "prepareTx a", OF P m(1)])
  let ?t = "ctl_now C (w_n (committed P (bumpSequence m) w))"
  let ?a = "a\<lparr>pa_Phase := AttemptSending, pa_SendingAt := ?t\<rparr>"
  obtain m2 where m2: "fenceTx ?a ?t (stateOf ?w1) = Inr m2"
    using m(2) ph by (simp add: fenceTx_def Let_def)
  then have at: "fmlookup (ps_Attempts m2) (pa_ID a) = Some ?a" using fenceTx_Inr(2) by fastforce
  have doms: "ledgerDom m2 = ledgerDom (stateOf w) \<union> set (pa_CycleIDs a)"
    using fenceTx_Inr(1) [OF m2] m(3) by simp
  have wdom: "winDom m2 = winDom (stateOf w) \<union> set (pa_WindowKeys a)"
    using m2 m(2,4) ph by (auto simp: fenceTx_def Let_def)
  let ?w2 = "committed P (bumpSequence m2) ?w1"
  have f: "commit P (fenceTx ?a ?t) ?w1 = (None, ?w2)"
    by (rule working_commit [where fn = "fenceTx ?a ?t", OF P m2])
  have "fmlookup (ps_Attempts (stateOf ?w2)) (pa_ID ?a) = Some ?a" using at by simp
  from send_stage [where send = send and C = C and ad = ad and ops = ops, OF P q n this send wait] obtain v cur where
    v: "sendAndVerify P C send cred ad ops req ?a ?w2 = (None, v)"
    "sends (w_trace v) = sends (w_trace ?w2) @ [(cred, req, ?a)]"
    "fmlookup (ps_Attempts (stateOf v)) (pa_ID a) = Some cur"
    "pa_CycleIDs cur = pa_CycleIDs a" "pa_Phase cur = AttemptCompleted"
    "ledgerDom (stateOf v) = ledgerDom m2 \<union> set (pa_CycleIDs a)"
    "winDom (stateOf v) = winDom m2 \<union> set (pa_WindowKeys a)"
    "length (w_trace v) = length (w_trace ?w2) + 3"
    by auto
  have "fenceAndSend P C send cred ad ops req a w = (None, v)"
    using p f v(1) by (simp add: fenceAndSend_def readClock_def Let_def)
  with v doms wdom show ?thesis by (intro exI [of _ v] exI [of _ ?a] exI [of _ cur]) simp
qed


lemma activate_stage:
  assumes P: "workingStore P" and q: "\<And>n. ad_ReadQuota ad n cred = Inr obs"
    and n: "normalizeWindows (ob_Windows obs) = Inr ws"
    and fresh: "set (map (bl_CycleID \<circ> wr_Baseline) rs) \<inter> ledgerDom (stateOf w) = {}"
    and plan: "ac_PlanActivation ops (w_n w) cred rs = Inr plan"
    and bounded: "pl_MaxInput plan > 0" "pl_MaxOutput plan > 0" "rq_URL (pl_Request plan) \<noteq> ''''"
    and rand: "pf_rand P (Suc (w_n w)) = Inr b"
    and sender: "ctl_sender C = Some send" and send: "\<And>n. send n cred (pl_Request plan) = None"
    and wait: "\<And>n d. ctl_wait C n d = None"
  shows "\<exists>v a cur. activateGroup P C cred ad ops rs w = (None, v) \<and>
    sends (w_trace v) = sends (w_trace w) @ [(cred, pl_Request plan, a)] \<and>
    length (w_trace v) = length (w_trace w) + 5 \<and>
    pa_ID a = hexEncode b \<and> pa_CycleIDs a = map (bl_CycleID \<circ> wr_Baseline) rs \<and>
    ledgerDom (stateOf v) = ledgerDom (stateOf w) \<union> set (pa_CycleIDs a) \<and>
    winDom (stateOf v) = winDom (stateOf w) \<union> wr_Key ` set rs \<and>
    fmlookup (ps_Attempts (stateOf v)) (pa_ID a) = Some cur \<and>
    pa_CycleIDs cur = pa_CycleIDs a \<and> pa_Phase cur = AttemptCompleted"
proof -
  let ?w = "tick1 (tick1 (tick1 w))"
  let ?a = "newAttempt (ctl_cfg C) cred (hexEncode b) (pl_Group plan) (ctl_now C (w_n (tick1 (tick1 w)))) rs"
  have ids: "pa_ID ?a = hexEncode b" "pa_CycleIDs ?a = map (bl_CycleID \<circ> wr_Baseline) rs"
    "pa_WindowKeys ?a = map wr_Key rs"
    by (simp_all add: newAttempt_def)
  have "set (pa_CycleIDs ?a) \<inter> ledgerDom (stateOf ?w) = {}" using fresh ids by simp
  from fence_stage [where send = send and C = C and ad = ad and ops = ops and req = "pl_Request plan",
      OF P q n this newAttempt_phase send wait]
  obtain v a' cur where v: "fenceAndSend P C send cred ad ops (pl_Request plan) ?a ?w = (None, v)"
    "sends (w_trace v) = sends (w_trace ?w) @ [(cred, pl_Request plan, a')]"
    "pa_ID a' = pa_ID ?a" "pa_CycleIDs a' = pa_CycleIDs ?a"
    "fmlookup (ps_Attempts (stateOf v)) (pa_ID ?a) = Some cur"
    "pa_CycleIDs cur = pa_CycleIDs ?a" "pa_Phase cur = AttemptCompleted"
    "ledgerDom (stateOf v) = ledgerDom (stateOf ?w) \<union> set (pa_CycleIDs ?a)"
    "winDom (stateOf v) = winDom (stateOf ?w) \<union> set (pa_WindowKeys ?a)"
    "length (w_trace v) = length (w_trace ?w) + 5"
    by blast
  have "activateGroup P C cred ad ops rs w = (None, v)"
    using v(1) plan bounded rand sender
    by (simp add: activateGroup_def randomID_def readClock_def tick1_def)
  with v ids show ?thesis by (intro exI [of _ v] exI [of _ a'] exI [of _ cur]) simp
qed

text \<open>A first observation that is lazy makes one group, of the stored record.\<close>

lemma firstRecord_lazy:
  assumes "qw_LazyHint obs"
  shows "\<exists>r. firstRecord L cfg now cred ik fp True obs = (r, True) \<and>
    wr_Key r = windowKey ik (qw_BucketID obs) \<and> wr_InstanceKey r = ik \<and> wr_BucketID r = qw_BucketID obs \<and>
    wr_State r = StatePendingPrecheck \<and> wr_ActivationGroup r = qw_ActivationGroup obs \<and>
    wr_Baseline r = baselineFrom L ik obs"
  using assms by (simp add: firstRecord_def Let_def)

lemma precheckRecord_lazy:
  assumes "qw_LazyHint aft" and "can aft" and "qw_ActivationGroup aft = wr_ActivationGroup r"
  shows "\<exists>r'. precheckRecord L cfg now can (Some aft) r = (r', True) \<and>
    wr_Baseline r' = wr_Baseline r \<and> wr_Key r' = wr_Key r \<and> wr_Latest r' = aft \<and>
    wr_ActivationGroup r' = wr_ActivationGroup r"
  using assms by (simp add: precheckRecord_def Let_def)

lemma reconcile_stage:
  assumes P: "workingStore P" and lazy: "qw_LazyHint win" and can: "canActivate act (attribute cred win)"
    and new: "fmlookup (ps_Windows (stateOf w)) (windowKey ik (qw_BucketID win)) = None"
  shows "\<exists>r v. reconcileObservation P C cred ik fp [win] act w = (Inr [[r]], v) \<and>
    sends (w_trace v) = sends (w_trace w) \<and> ledgerDom (stateOf v) = ledgerDom (stateOf w) \<and>
    length (w_trace v) = length (w_trace w) + 1 \<and>
    winDom (stateOf v) = insert (wr_Key r) (winDom (stateOf w)) \<and>
    fmlookup (ps_Windows (stateOf v)) (wr_Key r) = Some r \<and>
    wr_Key r = windowKey ik (qw_BucketID win) \<and> wr_InstanceKey r = ik \<and>
    wr_BucketID r = qw_BucketID win \<and>
    wr_State r = StatePendingPrecheck \<and> wr_ActivationGroup r = qw_ActivationGroup win \<and>
    wr_Baseline r = baselineFrom (pf_lib P) ik win"
proof -
  let ?obs = "attribute cred win"
  let ?t = "ctl_now C (w_n w)"
  let ?body = "reconcileState (pf_lib P) (ctl_cfg C) ?t cred ik fp (canActivate act) [win]"
  obtain r where r: "firstRecord (pf_lib P) (ctl_cfg C) ?t cred ik fp True ?obs = (r, True)"
    "wr_Key r = windowKey ik (qw_BucketID win)" "wr_InstanceKey r = ik" "wr_BucketID r = qw_BucketID win"
    "wr_State r = StatePendingPrecheck" "wr_ActivationGroup r = qw_ActivationGroup win"
    "wr_Baseline r = baselineFrom (pf_lib P) ik win"
    using firstRecord_lazy [of ?obs "pf_lib P" "ctl_cfg C" ?t cred ik fp] lazy
    by (auto simp: attribute_def baselineFrom_def)
  let ?s = "stateOf (tick1 w)"
  have b: "?body ?s = (markAbsent (ctl_cfg C) ?t ik [windowKey ik (qw_BucketID win)] (putWindow (wr_Key r) r ?s),
      addGroup (groupOf ?obs) r fmempty)"
    using new can r by (simp add: reconcileState_def reconcileWindow_def attribute_def Let_def)
  have win: "fmlookup (ps_Windows (fst (?body ?s))) (wr_Key r) = Some r"
    using b r by (simp add: markAbsent_def rangeWindows_def putWindow_def)
  have dom: "ledgerDom (fst (?body ?s)) = ledgerDom (stateOf w)"
    by (simp add: ledgerDom_reconcile)
  have wdom: "winDom (fst (?body ?s)) = insert (wr_Key r) (winDom (stateOf w))"
    using b by (simp add: markAbsent_def)
  have g: "groupList (snd (?body ?s)) = [[r]]"
    using b by (simp add: groupList_def addGroup_def getOr_def fmkeys_def sorted_list_of_fset.rep_eq)
  let ?v = "committed P (bumpSequence (fst (?body ?s))) (tick1 w)"
  have "update P (\<lambda>s. Inr (fst (?body s))) (tick1 w) =
      (Inr (bumpSequence (fst (?body ?s))), ?v)"
    by (rule working_update [where fn = "\<lambda>s. Inr (fst (?body s))", OF P HOL.refl])
  then have "reconcileObservation P C cred ik fp [win] act w = (Inr [[r]], ?v)"
    using g by (simp add: reconcileObservation_def readClock_def Let_def working_clone [OF P])
  with win dom wdom r show ?thesis by (intro exI [of _ r] exI [of _ ?v]) simp
qed

lemma precheck_stage:
  assumes P: "workingStore P" and q: "ad_ReadQuota ad (w_n w) cred = Inr \<lparr>ob_Windows = [win]\<rparr>"
    and valid: "validWindow win" and lazy: "qw_LazyHint win" and can: "ac_CanActivate ops win"
    and r: "fmlookup (ps_Windows (stateOf w)) (wr_Key r) = Some r"
    "wr_BucketID r = qw_BucketID win" "wr_ActivationGroup r = qw_ActivationGroup win"
  shows "\<exists>r' v. precheckGroup P C cred ad ops [r] w = (Inr [r'], v) \<and>
    sends (w_trace v) = sends (w_trace w) \<and> ledgerDom (stateOf v) = ledgerDom (stateOf w) \<and>
    length (w_trace v) = length (w_trace w) + 1 \<and>
    winDom (stateOf v) = winDom (stateOf w) \<and> wr_Baseline r' = wr_Baseline r \<and> wr_Key r' = wr_Key r \<and>
    wr_Latest r' = win \<and> wr_ActivationGroup r' = qw_ActivationGroup win"
proof -
  let ?t = "ctl_now C (w_n (tick1 w))"
  let ?body = "precheckState (pf_lib P) (ctl_cfg C) ?t (ac_CanActivate ops) [win] [r]"
  obtain r' where r': "precheckRecord (pf_lib P) (ctl_cfg C) ?t (ac_CanActivate ops) (Some win) r = (r', True)"
    "wr_Baseline r' = wr_Baseline r" "wr_Key r' = wr_Key r" "wr_Latest r' = win"
    "wr_ActivationGroup r' = qw_ActivationGroup win"
    using precheckRecord_lazy [where can = "ac_CanActivate ops" and r = r, OF lazy can] r(3) by force
  let ?w = "tick1 (tick1 w)"
  have b: "snd (?body (stateOf ?w)) = [r']"
    using r r' by (simp add: precheckState_def precheckStep_def byBucket_def)
  have wdom: "winDom (fst (?body (stateOf ?w))) = winDom (stateOf w)"
    using r r' by (auto simp: precheckState_def precheckStep_def byBucket_def winDom_def putWindow_def
        fmlookup_dom_iff)
  let ?v = "committed P (bumpSequence (fst (?body (stateOf ?w)))) ?w"
  have "update P (\<lambda>s. Inr (fst (?body s))) ?w = (Inr (bumpSequence (fst (?body (stateOf ?w)))), ?v)"
    by (rule working_update [where fn = "\<lambda>s. Inr (fst (?body s))", OF P HOL.refl])
  moreover have "normalizeWindows [win] = Inr [win]"
    using valid by (simp add: normalizeWindows_Inr)
  ultimately have "precheckGroup P C cred ad ops [r] w = (Inr [r'], ?v)"
    using q b by (simp add: precheckGroup_def readQuota_def readClock_def Let_def working_clone [OF P])
  with r' wdom show ?thesis by (intro exI [of _ r'] exI [of _ ?v]) (simp add: ledgerDom_precheck)
qed

section \<open>The whole tick\<close>

lemma tick_activates:
  assumes P: "workingStore P" and live: "\<not> cfg_DryRun (ctl_cfg C)"
    and cred: "\<not> cred_Disabled cred" "ad_Match ad cred" "\<And>n. ad_Fingerprint ad n cred = Inr fp"
    and q: "\<And>n. ad_ReadQuota ad n cred = Inr \<lparr>ob_Windows = [win]\<rparr>"
    and win: "validWindow win" "qw_LazyHint win"
    and ops: "ad_Activation ad = Some ops" "ac_CanActivate ops win" "ac_CanActivate ops (attribute cred win)"
    and plan: "\<And>n r. wr_Latest r = win \<Longrightarrow> wr_ActivationGroup r = qw_ActivationGroup win \<Longrightarrow>
      \<exists>plan. ac_PlanActivation ops n cred [r] = Inr plan \<and> pl_MaxInput plan > 0 \<and>
        pl_MaxOutput plan > 0 \<and> rq_URL (pl_Request plan) \<noteq> '''' \<and> Q (pl_Request plan)"
    and rand: "\<And>n. \<exists>b. pf_rand P n = Inr b"
    and send: "ctl_sender C = Some send" "\<And>n req. Q req \<Longrightarrow> send n cred req = None"
    and wait: "\<And>n d. ctl_wait C n d = None"
    and ik: "ik = instanceKey cred (ad_ID ad) fp"
    and new: "windowKey ik (qw_BucketID win) \<notin> winDom (stateOf w)"
    and cycle: "newCycleID (pf_lib P) ik (qw_BucketID win) (qw_ResetAt win) \<notin> ledgerDom (stateOf w)"
  shows "\<exists>v req a cur. tick P C cred (Some ad) w = (None, v) \<and>
    sends (w_trace v) = sends (w_trace w) @ [(cred, req, a)] \<and> Q req \<and>
    length (w_trace v) = length (w_trace w) + 8 \<and>
    pa_CycleIDs a = [newCycleID (pf_lib P) ik (qw_BucketID win) (qw_ResetAt win)] \<and>
    ledgerDom (stateOf v) = ledgerDom (stateOf w) \<union> set (pa_CycleIDs a) \<and>
    winDom (stateOf v) = insert (windowKey ik (qw_BucketID win)) (winDom (stateOf w)) \<and>
    fmlookup (ps_Attempts (stateOf v)) (pa_ID a) = Some cur \<and> pa_Phase cur = AttemptCompleted"
proof -
  have nw: "normalizeWindows (ob_Windows \<lparr>ob_Windows = [win]\<rparr>) = Inr [win]"
    using win(1) by (simp add: normalizeWindows_Inr)
  let ?f = "\<lambda>key r. if wr_AuthID r = cred_AuthID cred \<and> wr_InstanceKey r \<noteq> ik
       then r\<lparr>wr_State := StateDisabled, wr_LastResult := ''credential identity replaced'',
              wr_NextCheck := zeroTime\<rparr> else r"
  let ?w1 = "committed P (bumpSequence (rangeWindows ?f (stateOf w))) w"
  have w1: "retireReplacedInstances P cred ik w = (None, ?w1)"
    unfolding retireReplacedInstances_def
    by (rule working_commit [where fn = "retireReplacedTx cred ik", OF P])
      (simp add: retireReplacedTx_def)
  let ?u = "tick1 ?w1"
  have new1: "fmlookup (ps_Windows (stateOf ?u)) (windowKey ik (qw_BucketID win)) = None"
    using new by (simp add: rangeWindows_def fmdom_notD winDom_def)
  have can1: "canActivate (ad_Activation ad) (attribute cred win)"
    using ops by (simp add: canActivate_def)
  have u: "sends (w_trace ?u) = sends (w_trace w)" "ledgerDom (stateOf ?u) = ledgerDom (stateOf w)"
    "winDom (stateOf ?u) = winDom (stateOf w)"
    by simp_all
  from reconcile_stage [where C = C and fp = fp, OF P win(2) can1 new1] obtain r w2 where
    w2: "reconcileObservation P C cred ik fp [win] (ad_Activation ad) (tick1 ?w1) = (Inr [[r]], w2)"
    "sends (w_trace w2) = sends (w_trace ?u)" "ledgerDom (stateOf w2) = ledgerDom (stateOf ?u)"
    "fmlookup (ps_Windows (stateOf w2)) (wr_Key r) = Some r" "wr_BucketID r = qw_BucketID win"
    "wr_State r = StatePendingPrecheck" "wr_ActivationGroup r = qw_ActivationGroup win"
    "wr_Baseline r = baselineFrom (pf_lib P) ik win"
    "winDom (stateOf w2) = insert (wr_Key r) (winDom (stateOf ?u))"
    "length (w_trace w2) = length (w_trace ?u) + 1"
    "wr_Key r = windowKey ik (qw_BucketID win)"
    by blast
  note w2 = w2 [unfolded u]
  from precheck_stage [where C = C, OF P q win ops(2) w2(4,5,7)] obtain r' w3 where
    pre: "precheckGroup P C cred ad ops [r] w2 = (Inr [r'], w3)"
    "sends (w_trace w3) = sends (w_trace w2)" "ledgerDom (stateOf w3) = ledgerDom (stateOf w2)"
    "length (w_trace w3) = length (w_trace w2) + 1" "winDom (stateOf w3) = winDom (stateOf w2)"
    "wr_Baseline r' = wr_Baseline r" "wr_Key r' = wr_Key r" "wr_Latest r' = win"
    "wr_ActivationGroup r' = qw_ActivationGroup win"
    by blast
  have w3: "sends (w_trace w3) = sends (w_trace w)" "ledgerDom (stateOf w3) = ledgerDom (stateOf w)"
    "bl_CycleID (wr_Baseline r') = newCycleID (pf_lib P) ik (qw_BucketID win) (qw_ResetAt win)"
    "wr_Key r' = windowKey ik (qw_BucketID win)"
    "winDom (stateOf w3) = insert (windowKey ik (qw_BucketID win)) (winDom (stateOf w))"
    by (simp_all only: pre w2 baselineFrom_def Baseline.simps)
  have fresh: "set (map (bl_CycleID \<circ> wr_Baseline) [r']) \<inter> ledgerDom (stateOf w3) = {}"
    using w3 cycle by simp
  obtain b where b: "pf_rand P (Suc (w_n w3)) = Inr b" using rand by blast
  obtain plan where p: "ac_PlanActivation ops (w_n w3) cred [r'] = Inr plan" "pl_MaxInput plan > 0"
    "pl_MaxOutput plan > 0" "rq_URL (pl_Request plan) \<noteq> ''''" "Q (pl_Request plan)"
    using plan [OF pre(8,9)] by blast
  from activate_stage [where send = send and C = C, OF P q nw fresh p(1-4) b send(1) send(2) [OF p(5)] wait]
  obtain v a cur where
    v: "activateGroup P C cred ad ops [r'] w3 = (None, v)"
    "sends (w_trace v) = sends (w_trace w3) @ [(cred, pl_Request plan, a)]"
    "pa_CycleIDs a = map (bl_CycleID \<circ> wr_Baseline) [r']"
    "fmlookup (ps_Attempts (stateOf v)) (pa_ID a) = Some cur" "pa_Phase cur = AttemptCompleted"
    "ledgerDom (stateOf v) = ledgerDom (stateOf w3) \<union> set (pa_CycleIDs a)"
    "winDom (stateOf v) = winDom (stateOf w3) \<union> wr_Key ` set [r']"
    "length (w_trace v) = length (w_trace w3) + 5"
    by blast
  have "runGroup P C cred ad ops [r] w2 = (None, v)"
    using w2(6) pre(1) v(1) live by (simp add: runGroup_def needsPrecheck_def dryRunOrActivate_def)
  then have "tick P C cred (Some ad) w = (None, v)"
    using w1 w2(1) cred q nw ops(1) ik by (simp add: tick_def readQuota_def Let_def)
  with v w3 pre(4) w2(10) p(5) show ?thesis
    by (intro exI [of _ v] exI [of _ "pl_Request plan"] exI [of _ a] exI [of _ cur]) simp
qed

end
