(* ===== verification/Scenario.thy ===== *)
theory Scenario
  imports ReferenceCodec Activation
begin

text \<open>
  A concrete run, after the repository's own controller tests: one credential whose quota
  window is lazy, an adapter that can activate it, a clock, a file system without faults and a
  sender that accepts the request. The witnesses evaluate the model on it.
\<close>

section \<open>The environment\<close>

definition demoCred :: Credential where
  "demoCred = \<lparr>cred_AuthID = ''auth'', cred_AuthIndex = ''1'', cred_Provider = ''codex'',
     cred_Label = '''', cred_Disabled = False, cred_RuntimeOnly = False,
     cred_Attributes = fmempty, cred_Metadata = fmempty, cred_RawJSON = ''''\<rparr>"

definition demoWindow :: "time \<Rightarrow> QuotaWindow" where
  "demoWindow reset = \<lparr>qw_Provider = '''', qw_AuthID = '''', qw_BucketID = ''5h'',
     qw_ModelFamily = '''', qw_Scope = '''', qw_UsedPercent = Some (FFin 0), qw_ResetAt = reset,
     qw_WindowDuration = 5 * hour, qw_ObservedAt = unixTime 20000, qw_ServerTime = zeroTime,
     qw_ActivationGroup = ''chat'', qw_LazyHint = True, qw_Complete = True\<rparr>"

definition demoRequest :: ActivationRequest where
  "demoRequest = \<lparr>rq_Method = ''POST'', rq_URL = ''https://example.test'', rq_Headers = fmempty,
     rq_Body = ''x''\<rparr>"

definition demoOps :: ActivationOps where
  "demoOps = \<lparr>ac_CanActivate = (\<lambda>_. True),
     ac_PlanActivation = (\<lambda>_ _ _. Inr \<lparr>pl_Group = ''chat'', pl_Request = demoRequest,
        pl_WindowKeys = [], pl_TargetModel = ''m'', pl_MaxInput = 16, pl_MaxOutput = 16\<rparr>),
     ac_VerifyActivation = (\<lambda>_ _. \<lparr>vr_Confirmed = True, vr_Reason = ''ok''\<rparr>)\<rparr>"

text \<open>The adapter sees the window with the given reset.\<close>

definition demoAdapter :: "time \<Rightarrow> Adapter" where
  "demoAdapter reset = \<lparr>ad_ID = ''codex'', ad_Match = (\<lambda>c. True), ad_Fingerprint = (\<lambda>_ _. Inr ''fp''),
     ad_ReadQuota = (\<lambda>_ _. Inr \<lparr>ob_Windows = [demoWindow reset]\<rparr>), ad_Activation = Some demoOps\<rparr>"

definition demoPlatform :: platform where
  "demoPlatform = \<lparr>pf_lib = refLib, pf_os = Unix, pf_io = (\<lambda>_. goodIO),
     pf_rand = (\<lambda>n. Inr [char_of n])\<rparr>"

definition demoController :: "bool \<Rightarrow> Controller" where
  "demoController dry = \<lparr>ctl_sender = Some (\<lambda>_ _ _. None),
     ctl_cfg = defaultConfig\<lparr>cfg_DryRun := dry\<rparr>, ctl_now = (\<lambda>_. unixTime 20000),
     ctl_nowAt = (\<lambda>_ _. unixTime 20000), ctl_wait = (\<lambda>_ _. None)\<rparr>"

definition demoWorld :: world where
  "demoWorld = \<lparr>w_store = \<lparr>st_path = ''state.json'', st_state = emptyState\<rparr>, w_fs = fmempty,
     w_n = 0, w_trace = []\<rparr>"

section \<open>Persisting without faults\<close>

definition writtenFiles :: "string \<Rightarrow> PersistentState \<Rightarrow> fs \<Rightarrow> fs" where
  "writtenFiles path s f = snd (persist refLib Unix goodIO path s f)"

lemma persist_good [simp]: "persist refLib Unix goodIO path s f = (None, writtenFiles path s f)"
  unfolding writtenFiles_def
  by (simp add: persist_def checksumState_def refLib_def goodIO_def persistSnapshot_def Let_def
      replaceFile_def replaceUnix_def renameFile_def)

lemma demo_platform_simps [simp]:
  "pf_lib demoPlatform = refLib" "pf_os demoPlatform = Unix" "pf_io demoPlatform n = goodIO"
  "pf_rand demoPlatform n = Inr [char_of n]"
  by (simp_all add: demoPlatform_def)

lemma update_demo:
  "update demoPlatform fn w =
     (case fn (stateOf w) of
        Inl e \<Rightarrow> (Inl e, tick1 w)
      | Inr n \<Rightarrow>
          (Inr (bumpSequence n), emit (EvPersist (bumpSequence n) True
             (writtenFiles (st_path (w_store w)) (bumpSequence n) (w_fs w)))
           (tick1 (w\<lparr>w_store := (w_store w)\<lparr>st_state := bumpSequence n\<rparr>,
                     w_fs := writtenFiles (st_path (w_store w)) (bumpSequence n) (w_fs w)\<rparr>))))"
  by (simp add: update_def storeUpdate_def nextState_def bumpSequence_def split: sum.splits)


section \<open>Two ticks\<close>

text \<open>Two credentials, one lazy window each; each tick sends one request.\<close>

definition demoCred2 :: Credential where
  "demoCred2 = demoCred\<lparr>cred_AuthID := ''other'', cred_AuthIndex := ''2''\<rparr>"

definition demoTick :: "bool \<Rightarrow> Credential \<Rightarrow> operation" where
  "demoTick dry cred = OpTick (demoController dry) cred (Some (demoAdapter (unixTime 38000)))"

definition demoCycle :: "Credential \<Rightarrow> string" where
  "demoCycle cred = newCycleID refLib (instanceKey cred ''codex'' ''fp'') ''5h'' (unixTime 38000)"

lemma demo_working: "workingStore demoPlatform"
  by (simp add: workingStore_def)

lemma demo_valid: "validWindow (demoWindow (unixTime 38000))"
  by (simp add: validWindow_def demoWindow_def unixTime_def duration_units)

lemma demo_tick_sends:
  assumes "\<not> cred_Disabled cred"
    and "windowKey (instanceKey cred ''codex'' ''fp'') ''5h'' \<notin> winDom (stateOf w)"
    and "demoCycle cred \<notin> ledgerDom (stateOf w)"
  shows "\<exists>v a. runOp demoPlatform (demoTick False cred) w = (None, v) \<and>
    sends (w_trace v) = sends (w_trace w) @ [(cred, demoRequest, a)] \<and>
    length (w_trace v) = length (w_trace w) + 8 \<and>
    pa_CycleIDs a = [demoCycle cred] \<and>
    ledgerDom (stateOf v) = insert (demoCycle cred) (ledgerDom (stateOf w)) \<and>
    winDom (stateOf v) = insert (windowKey (instanceKey cred ''codex'' ''fp'') ''5h'') (winDom (stateOf w))"
proof -
  have "\<exists>v req a cur. tick demoPlatform (demoController False) cred (Some (demoAdapter (unixTime 38000))) w = (None, v) \<and>
    sends (w_trace v) = sends (w_trace w) @ [(cred, req, a)] \<and> req = demoRequest \<and>
    length (w_trace v) = length (w_trace w) + 8 \<and>
    pa_CycleIDs a = [newCycleID (pf_lib demoPlatform) (instanceKey cred ''codex'' ''fp'')
      (qw_BucketID (demoWindow (unixTime 38000))) (qw_ResetAt (demoWindow (unixTime 38000)))] \<and>
    ledgerDom (stateOf v) = ledgerDom (stateOf w) \<union> set (pa_CycleIDs a) \<and>
    winDom (stateOf v) = insert (windowKey (instanceKey cred ''codex'' ''fp'')
      (qw_BucketID (demoWindow (unixTime 38000)))) (winDom (stateOf w)) \<and>
    fmlookup (ps_Attempts (stateOf v)) (pa_ID a) = Some cur \<and> pa_Phase cur = AttemptCompleted"
    by (rule tick_activates [where Q = "\<lambda>req. req = demoRequest" and ops = demoOps and send = "\<lambda>_ _ _. None", OF demo_working _ assms(1)])
      (use assms demo_valid in \<open>auto simp: demoController_def demoAdapter_def demoOps_def demoRequest_def
        demoWindow_def demoCycle_def\<close>)
  then show ?thesis
    by (auto simp: demoTick_def demoCycle_def demoWindow_def)
qed

text \<open>The two ticks, one after the other, from the empty state.\<close>

definition demoOpsList :: "operation list" where
  "demoOpsList = [demoTick False demoCred, demoTick False demoCred2]"

lemma demo_cycles: "demoCycle demoCred \<noteq> demoCycle demoCred2"
  unfolding demoCycle_def newCycleID_def cyclePreimage_def
  by code_simp

lemma demo_run:
  "\<exists>a b. sends (w_trace (runOps demoPlatform demoOpsList demoWorld)) =
      [(demoCred, demoRequest, a), (demoCred2, demoRequest, b)] \<and>
    length (w_trace (runOps demoPlatform demoOpsList demoWorld)) = 16 \<and>
    pa_CycleIDs a = [demoCycle demoCred] \<and> pa_CycleIDs b = [demoCycle demoCred2]"
proof -
  have empty: "winDom (stateOf demoWorld) = {}" "ledgerDom (stateOf demoWorld) = {}"
    by (simp_all add: demoWorld_def emptyState_def winDom_def ledgerDom_def)
  obtain v a where v: "runOp demoPlatform (demoTick False demoCred) demoWorld = (None, v)"
    "sends (w_trace v) = [(demoCred, demoRequest, a)]" "length (w_trace v) = 8"
    "pa_CycleIDs a = [demoCycle demoCred]"
    "ledgerDom (stateOf v) = {demoCycle demoCred}"
    "winDom (stateOf v) = {windowKey (instanceKey demoCred ''codex'' ''fp'') ''5h''}"
    using demo_tick_sends [of demoCred demoWorld] empty
    by (auto simp: demoCred_def demoWorld_def)
  obtain u b where u: "runOp demoPlatform (demoTick False demoCred2) v = (None, u)"
    "sends (w_trace u) = [(demoCred, demoRequest, a), (demoCred2, demoRequest, b)]"
    "length (w_trace u) = 16"
    "pa_CycleIDs b = [demoCycle demoCred2]"
    using demo_tick_sends [of demoCred2 v] v demo_cycles
    by (auto simp: demoCred2_def demoCred_def windowKey_def instanceKey_def)
  from v(1,4) u show ?thesis by (simp add: demoOpsList_def)
qed

lemma demo_kept [simp]: "ledgerKept refLib s" "allKept refLib evs"
  by (simp_all add: ledgerKept_def allKept_def)

end
