(* ===== verification/RefDurable.thy ===== *)
theory RefDurable
  imports Restart Scenario
begin

text \<open>The reference codec satisfies the two hypotheses on the codec of the store.\<close>

section \<open>The text of a frame\<close>

lemma set_bits: "set (bits n) \<subseteq> {CHR ''0'', CHR ''1''}"
proof (induction n rule: bits.induct)
  case (1 n)
  then show ?case by (subst bits.simps) auto
qed

definition frameBody :: "nat list \<Rightarrow> string" where
  "frameBody ts = concat (map (\<lambda>n. bits n @ '','') ts)"

lemma frame_body: "frame ts = CHR 0x7B # frameBody ts @ [CHR 0x7D]"
  by (simp add: frame_def frameBody_def)

lemma set_frameBody: "set (frameBody ts) \<subseteq> {CHR ''0'', CHR ''1'', CHR '',''}"
  using set_bits by (induction ts) (fastforce simp: frameBody_def)+

lemma set_frame: "set (frame ts) \<subseteq> {CHR ''0'', CHR ''1'', CHR '','', CHR 0x7B, CHR 0x7D}"
  using set_frameBody [of ts] by (auto simp: frame_body)

lemma unframeBody_open: "CHR 0x7D \<notin> set s \<Longrightarrow> unframeBody s = None"
  by (induction s) (auto split: option.splits)

lemma unframeBody_nested: "CHR 0x7B \<in> set s \<Longrightarrow> unframeBody s = None"
  by (induction s) (auto split: option.splits)

text \<open>A proper prefix of a frame has no closing brace.\<close>

lemma frame_prefix:
  assumes "prefix p (frame ts)" and "p \<noteq> []"
  shows "p = frame ts \<or> (\<exists>q. p = CHR 0x7B # q \<and> CHR 0x7D \<notin> set q)"
proof -
  from assms obtain q where q: "p = CHR 0x7B # q" "prefix q (frameBody ts @ [CHR 0x7D])"
    by (cases p) (auto simp: frame_body)
  show ?thesis
  proof (cases "q = frameBody ts @ [CHR 0x7D]")
    case True
    with q show ?thesis by (simp add: frame_body)
  next
    case False
    with q(2) have "prefix q (frameBody ts)" by (metis prefix_snoc)
    then have "CHR 0x7D \<notin> set q" using set_frameBody [of ts] set_mono_prefix by fastforce
    with q(1) show ?thesis by simp
  qed
qed

section \<open>The hypotheses hold\<close>

lemma refLib_simps [simp]:
  "marshalState refLib r = Inr (frame (wRaw r))"
  "marshalEnvelope refLib e = Inr (frame (wEnvelope e))"
  "marshalIndentEnvelope refLib e = Inr (CHR '' '' # frame (wEnvelope e))"
  "unmarshalEnvelope refLib = readAll rEnvelope"
  by (simp_all add: refLib_def)

lemma walLine_refLib: "\<exists>c. walLine refLib s = frame (wEnvelope (envelopeOf c s))"
  by (auto simp: walLine_def checksumState_def)

lemma exact_refLib [simp]: "exact refLib s \<longleftrightarrow> ps_Version s = stateVersion"
proof -
  have "newline \<notin> set (frame ts) \<and> frame ts \<noteq> [] \<and> last (frame ts) \<noteq> CHR 0x0D" for ts
    using set_frame [of ts] by (auto simp: frame_body newline_def)
  then show ?thesis
    by (auto simp: exact_def checksumState_def codec_Envelope)
qed

lemma undecodable:
  assumes "unframe (trimRight s) = None"
  shows "\<exists>e. decodeEnvelope refLib s = Inl e"
  using assms by (simp add: decodeEnvelope_def readAll_def)

lemma trim_frameChars:
  assumes "set s \<subseteq> {CHR ''0'', CHR ''1'', CHR '','', CHR 0x7B, CHR 0x7D}"
  shows "trimRight (dropCR s) = s"
proof (cases s rule: rev_cases)
  case Nil
  then show ?thesis by (simp add: trimRight_def dropCR_def)
next
  case (snoc ys y)
  then have "y \<in> {CHR ''0'', CHR ''1'', CHR '','', CHR 0x7B, CHR 0x7D}" using assms by simp
  with snoc show ?thesis by (auto simp: trimRight_def dropCR_def newline_def)
qed

lemma pieces_frames:
  assumes "pieces refLib ps" and "p \<in> set ps"
  shows "\<exists>ts. prefix p (frame ts)" "p \<noteq> []"
    "set p \<subseteq> {CHR ''0'', CHR ''1'', CHR '','', CHR 0x7B, CHR 0x7D}"
proof -
  from assms obtain s where s: "prefix p (walLine refLib s)" "p \<noteq> []" by (auto simp: pieces_def)
  then obtain ts where ts: "prefix p (frame ts)" using walLine_refLib by metis
  then show "\<exists>ts. prefix p (frame ts)" by blast
  show "p \<noteq> []" by (rule s)
  show "set p \<subseteq> {CHR ''0'', CHR ''1'', CHR '','', CHR 0x7B, CHR 0x7D}"
    using set_mono_prefix [OF ts] set_frame [of ts] by blast
qed

lemma tornSafe_refLib: "tornSafe refLib"
  unfolding tornSafe_def
proof (intro conjI allI impI)
  fix ps
  assume ps: "pieces refLib ps \<and> \<not> (\<exists>s. exact refLib s \<and> ps = [walLine refLib s])"
  then have "set (concat ps) \<subseteq> {CHR ''0'', CHR ''1'', CHR '','', CHR 0x7B, CHR 0x7D}"
    using pieces_frames(3) by fastforce
  then have trim: "trimRight (dropCR (concat ps)) = concat ps" by (rule trim_frameChars)
  have "unframe (concat ps) = None"
  proof (cases ps)
    case Nil
    then show ?thesis by simp
  next
    case (Cons p qs)
    with ps obtain s where s: "exact refLib s" "prefix p (walLine refLib s)" "p \<noteq> []"
      by (auto simp: pieces_def)
    obtain c where c: "walLine refLib s = frame (wEnvelope (envelopeOf c s))"
      using walLine_refLib by blast
    then obtain p' where p': "p = CHR 0x7B # p'" using s(2,3) by (cases p) (auto simp: frame_body)
    show ?thesis
    proof (cases qs)
      case Nil
      with ps Cons s(1) have "p \<noteq> walLine refLib s" by auto
      then have "CHR 0x7D \<notin> set p'" using frame_prefix [OF s(2) [unfolded c] s(3)] c p' by auto
      with Cons Nil p' show ?thesis by (simp add: unframeBody_open)
    next
      case (Cons q rs)
      have "q \<in> set ps" using \<open>ps = p # qs\<close> Cons by simp
      then obtain ts where "prefix q (frame ts)" "q \<noteq> []" using pieces_frames(1,2) ps by blast
      then obtain q' where "q = CHR 0x7B # q'" by (cases q) (auto simp: frame_body)
      with \<open>ps = p # qs\<close> Cons p' show ?thesis by (simp add: unframeBody_nested)
    qed
  qed
  then show "\<exists>e. decodeEnvelope refLib (dropCR (concat ps)) = Inl e"
    using trim by (intro undecodable) simp
next
  fix s s'
  assume a: "exact refLib s \<and> exact refLib s' \<and> prefix (walLine refLib s') (walLine refLib s)"
  obtain c c' where c: "walLine refLib s = frame (wEnvelope (envelopeOf c s))"
    "walLine refLib s' = frame (wEnvelope (envelopeOf c' s'))"
    using walLine_refLib by meson
  have "CHR 0x7D \<in> set (walLine refLib s')" "walLine refLib s' \<noteq> []" by (simp_all add: c frame_body)
  with a show "walLine refLib s' = walLine refLib s"
    using frame_prefix [of "walLine refLib s'" "wEnvelope (envelopeOf c s)"] c(1) by auto
qed

end
