(* ===== verification/DemoLives.thy ===== *)
theory DemoLives
  imports RefDurable
begin

text \<open>
  Two lives of the demonstration: the first runs the two ticks of \<open>Scenario\<close> and ends, the
  second starts from the files the first one left.
\<close>

lemma demo_step_good:
  assumes "ctl_steps demoPlatform allow w v"
  shows "(\<forall>s f. EvPersist s False f \<notin> set (w_trace w)) \<and> walText (st_path (w_store w)) (w_fs w) = [] \<Longrightarrow>
    (\<forall>s f. EvPersist s False f \<notin> set (w_trace v)) \<and> walText (st_path (w_store v)) (w_fs v) = []"
  using assms
proof (induction rule: ctl_steps.induct)
  case (step w v u)
  define good where "good w \<longleftrightarrow> (\<forall>s f. EvPersist s False f \<notin> set (w_trace w)) \<and>
    walText (st_path (w_store w)) (w_fs w) = []" for w :: world
  have wal: "walText p (writtenFiles p s f) = []" for p s f
  proof -
    have "persist refLib Unix goodIO p s f = (None, writtenFiles p s f)" by simp
    then show ?thesis
      by (auto simp: persist_def checksumState_def goodIO_def Let_def
          dest: persistSnapshot_ok(2) [where io = goodIO, unfolded goodIO_def])
  qed
  have upd: "good (snd (update demoPlatform fn w))" if "good w" for fn w
    using that wal by (auto simp: good_def update_demo split: sum.splits)
  have com: "good w'" if "good w" "commit demoPlatform fn w = (r, w')" for fn w r w'
    using upd [OF that(1), of fn] that(2) by (auto simp: commit_def split: prod.splits sum.splits)
  from step have g: "good v" by (simp add: good_def)
  from step(2) have "good u"
  proof (cases rule: ctl_step.cases)
    case call
    with g show ?thesis by (simp add: good_def)
  next
    case (transact fn)
    with g upd show ?thesis by simp
  next
    case (activate cred req a' a w1 t w2)
    from com [OF g activate(4)] have "good (tick1 w1)" by (simp add: good_def)
    from com [OF this activate(6)] show ?thesis by (simp add: good_def activate(1))
  qed
  then show ?case by (simp add: good_def)
qed simp

lemma calm_demo:
  assumes "diskTrace refLib Unix path s f es" and "\<forall>n g. EvPersist n False g \<notin> set es"
    and "ps_Version s = stateVersion" and "unat (ps_Sequence s) + length es < 2 ^ 64"
  shows "calm refLib path f es"
  using assms
proof (induction refLib Unix path s f es rule: diskTrace.induct)
  case (2 path s f n ok f' es)
  then have ok: "ok = True" by auto
  have n: "ps_Version n = stateVersion" "ps_Sequence n = ps_Sequence s + 1"
    using 2(2,4) by (auto simp: successor_def)
  have "unat (ps_Sequence s) + 1 < 2 ^ 64" using 2(5) by simp
  then have "unat (ps_Sequence n) = Suc (unat (ps_Sequence s))"
    by (simp add: n(2) unat_word_ariths)
  with 2 n ok show ?case
    by (auto simp: representable_def)
qed auto

definition demoPath :: string where
  "demoPath = ''state.json''"

definition demoTrace :: "event list" where
  "demoTrace = w_trace (runOps demoPlatform demoOpsList demoWorld)"

lemma demo_boot: "boot \<lparr>st_path = demoPath, st_state = emptyState\<rparr> fmempty = demoWorld"
  by (simp add: boot_def demoWorld_def demoPath_def)

lemma demo_trace:
  "diskTrace refLib Unix demoPath emptyState fmempty demoTrace"
  "\<forall>n g. EvPersist n False g \<notin> set demoTrace"
  "walText demoPath (filesAfter fmempty demoTrace) = []" "length demoTrace = 16"
proof -
  have w: "w_trace demoWorld = []" "stateOf demoWorld = emptyState" "w_fs demoWorld = fmempty"
    "st_path (w_store demoWorld) = demoPath"
    by (simp_all add: demoWorld_def demoPath_def)
  obtain evs where evs: "runsTo demoPlatform demoWorld evs (runOps demoPlatform demoOpsList demoWorld)"
    using ctl_steps_runsTo [OF runOps_steps] by blast
  then have e: "evs = demoTrace" using w(1) by (simp add: runsTo_def demoTrace_def)
  show "diskTrace refLib Unix demoPath emptyState fmempty demoTrace"
    using evs e w by (simp add: runsTo_def)
  have "\<forall>n g. EvPersist n False g \<notin> set (w_trace demoWorld)"
    "walText (st_path (w_store demoWorld)) (w_fs demoWorld) = []"
    by (simp_all add: w walText_def getOr_def)
  from demo_step_good [OF runOps_steps, of demoWorld demoOpsList] this
  have g: "\<forall>n g. EvPersist n False g \<notin> set demoTrace"
    "walText (st_path (w_store (runOps demoPlatform demoOpsList demoWorld)))
       (w_fs (runOps demoPlatform demoOpsList demoWorld)) = []"
    unfolding demoTrace_def by blast+
  then show "\<forall>n g. EvPersist n False g \<notin> set demoTrace" by blast
  show "walText demoPath (filesAfter fmempty demoTrace) = []"
    using g(2) evs e w by (simp add: runsTo_def)
  show "length demoTrace = 16" using demo_run by (auto simp: demoTrace_def)
qed

lemma demo_calm: "calm refLib demoPath fmempty demoTrace"
  by (rule calm_demo [OF demo_trace(1,2)]) (simp_all add: emptyState_def demo_trace(4))

lemma demo_first_life: "history refLib demoPath (filesAfter fmempty demoTrace) (sends demoTrace)"
proof -
  have "newStore refLib goodLoad demoPath fmempty = Inr \<lparr>st_path = demoPath, st_state = emptyState\<rparr>"
    by (simp add: newStore_def load_def loadSnapshot_def loadWal_def openFile_def goodLoad_def demoPath_def)
  from history.life [OF history.installed this, of demoPlatform demoTrace "[]" demoOpsList]
  show ?thesis using demo_calm by (simp add: demo_boot flip: demoTrace_def)
qed

lemma demo_second_life: "\<exists>st. newStore refLib goodLoad demoPath (filesAfter fmempty demoTrace) = Inr st"
proof -
  from history_safe [OF demo_first_life tornSafe_refLib] obtain s where
    "settled refLib demoPath (filesAfter fmempty demoTrace) s"
    by (auto simp: onRecord_def)
  moreover have "\<not> scanTooLong (walText demoPath (filesAfter fmempty demoTrace))"
    by (simp add: demo_trace(3) scanTooLong_def)
  ultimately have "load refLib goodLoad demoPath (filesAfter fmempty demoTrace) = Inr s"
    by (rule settled_load)
  then show ?thesis by (simp add: newStore_def demoPath_def)
qed

text \<open>The second life is cut off before its first persist.\<close>

lemma demo_history: "history refLib demoPath (filesAfter fmempty demoTrace) (sends demoTrace @ [])"
proof -
  obtain st where st: "newStore refLib goodLoad demoPath (filesAfter fmempty demoTrace) = Inr st"
    using demo_second_life by blast
  let ?rest = "w_trace (runOps demoPlatform demoOpsList (boot st (filesAfter fmempty demoTrace)))"
  have "history refLib demoPath (filesAfter (filesAfter fmempty demoTrace) []) (sends demoTrace @ sends [])"
    by (rule history.life [OF demo_first_life st, of demoPlatform _ ?rest demoOpsList]) simp_all
  then show ?thesis by simp
qed

lemma demo_history_sends: "length (sends demoTrace @ []) = 2"
  using demo_run by (auto simp: demoTrace_def)

end
