(* ===== verification/StoreProps.thy ===== *)
theory StoreProps
  imports DemoLives
begin

text \<open>
  The properties of the durable store: what an update does to the memory and to the files, what
  a load returns, and two runs in which the write-ahead log loses a state.
\<close>

section \<open>States and files for the witnesses\<close>

definition demoState :: "nat \<Rightarrow> PersistentState" where
  "demoState k = emptyState\<lparr>ps_Sequence := of_nat k\<rparr>"

lemma demoState_simps [simp]:
  "ps_Sequence (demoState k) = of_nat k" "ps_Version (demoState k) = stateVersion"
  "ps_Sequence emptyState = 0"
  by (simp_all add: demoState_def emptyState_def)

definition tornIO :: persistIO where
  "tornIO = goodIO\<lparr>io_walWrite := Some (1, ErrOS OsOther ''no space left on device'')\<rparr>"

definition tornFiles :: fs where
  "tornFiles = appendFile (walPath demoPath) (take 1 (walLine refLib (demoState 1) @ [newline])) fmempty"

lemma demo_installed: "settled refLib demoPath fmempty emptyState"
  by (rule settled_installed) simp_all

lemma demo_written: "walText demoPath (writtenFiles demoPath s f) = []"
proof -
  have "persist refLib Unix goodIO demoPath s f = (None, writtenFiles demoPath s f)" by simp
  then show ?thesis
    by (auto simp: persist_def checksumState_def goodIO_def Let_def
        dest: persistSnapshot_ok(2) [where io = goodIO, unfolded goodIO_def])
qed

lemma demo_torn:
  "persist refLib Unix tornIO demoPath (demoState 1) fmempty =
     (Some (ErrOS OsOther ''no space left on device''), tornFiles)"
  by (simp add: persist_def checksumState_def tornIO_def goodIO_def Let_def tornFiles_def walLine_def
      envelopeOf_def)

lemma demo_line: "\<exists>b. walLine refLib s = CHR 0x7B # b @ [CHR 0x7D]"
  using walLine_refLib [of s] by (auto simp: frame_body)

lemma demo_torn_wal: "walText demoPath tornFiles = [CHR 0x7B]"
  using demo_line [of "demoState 1"] by (auto simp: tornFiles_def) (simp add: walText_def getOr_def)

section \<open>Updates\<close>

text \<open>
  C14: An update either fails and leaves the state in memory as it was, or succeeds, and then
  the new state is the transaction's result on a copy of the old one with the sequence number
  incremented, its persist has returned success, and the caller gets a copy of it.
\<close>

theorem update_all_or_nothing:
  "case storeUpdate L os io fn s f of
     (Inl e, s', f') \<Rightarrow> s' = s
   | (Inr r, s', f') \<Rightarrow>
       \<exists>n. fn (cloneState L (st_state s)) = Inr n \<and>
         s' = s\<lparr>st_state := n\<lparr>ps_Sequence := ps_Sequence n + 1\<rparr>\<rparr> \<and>
         persist L os io (st_path s) (st_state s') f = (None, f') \<and>
         r = cloneState L (st_state s')"
  by (auto simp: storeUpdate_def nextState_def split: sum.splits prod.splits option.splits)





section \<open>Loads\<close>

definition documents :: "string \<Rightarrow> fs \<Rightarrow> string list" where
  "documents path f = (case fmlookup f path of None \<Rightarrow> [] | Some raw \<Rightarrow> [raw]) @ tokens (walText path f)"

lemma replay_newest:
  assumes "fold (replayStep L) ts (b, fd) = (b', fd')"
  shows "(fd' \<longleftrightarrow> fd \<or> (\<exists>t \<in> set ts. \<exists>x. decodeEnvelope L t = Inr x)) \<and>
    ((fd \<and> b' = b) \<or> (\<not> fd' \<and> b' = b) \<or> (\<exists>t \<in> set ts. decodeEnvelope L t = Inr b')) \<and>
    (fd \<longrightarrow> ps_Sequence b \<le> ps_Sequence b') \<and>
    (\<forall>t \<in> set ts. \<forall>x. decodeEnvelope L t = Inr x \<longrightarrow> ps_Sequence x \<le> ps_Sequence b')"
  using assms
proof (induction ts arbitrary: b fd)
  case (Cons t ts)
  show ?case
  proof (cases "decodeEnvelope L t")
    case (Inl e)
    then have "replayStep L t (b, fd) = (b, fd)" by (simp add: replayStep_def)
    with Cons.prems have "fold (replayStep L) ts (b, fd) = (b', fd')" by simp
    from Cons.IH [OF this] Inl show ?thesis by auto
  next
    case (Inr x)
    show ?thesis
    proof (cases "\<not> fd \<or> ps_Sequence b \<le> ps_Sequence x")
      case True
      with Inr have "replayStep L t (b, fd) = (x, True)" by (auto simp: replayStep_def)
      with Cons.prems have "fold (replayStep L) ts (x, True) = (b', fd')" by simp
      from Cons.IH [OF this] Inr True show ?thesis by auto
    next
      case False
      with Inr have "replayStep L t (b, fd) = (b, fd)" by (auto simp: replayStep_def)
      with Cons.prems have "fold (replayStep L) ts (b, fd) = (b', fd')" by simp
      from Cons.IH [OF this] Inr False show ?thesis by auto
    qed
  qed
qed auto

text \<open>
  C13: A load that succeeds returns a state that one of the documents on disk decodes to, with
  the checksum and the version checked, and no document holds a newer one; only when no document
  decodes and there is no snapshot file does it return the empty state.
\<close>

theorem load_returns_newest_document:
  assumes "load L goodLoad path f = Inr s"
  shows "(\<exists>d \<in> set (documents path f). decodeEnvelope L d = Inr s) \<and>
       (\<forall>d \<in> set (documents path f). \<forall>x. decodeEnvelope L d = Inr x \<longrightarrow> ps_Sequence x \<le> ps_Sequence s)
     \<or> s = emptyState \<and> path |\<notin>| fmdom f \<and>
       (\<forall>d \<in> set (documents path f). \<exists>e. decodeEnvelope L d = Inl e)"
proof -
  have wal: "\<not> scanTooLong (walText path f)" using assms load_too_long [of path f L] by auto
  obtain b fd where snap: "loadSnapshot L goodLoad path f = Inr (b, fd)"
    using assms by (cases "loadSnapshot L goodLoad path f") (auto simp: load_def)
  obtain b' fd' where rep: "fold (replayStep L) (tokens (walText path f)) (b, fd) = (b', fd')"
    by fastforce
  have s: "if fd' then s = b' else s = emptyState \<and> fmlookup f path = None"
    using assms snap rep by (auto simp: load_def loadWal_tokens [OF wal] split: if_splits)
  have b: "(fd \<longrightarrow> (\<exists>raw. fmlookup f path = Some raw \<and> decodeEnvelope L raw = Inr b)) \<and>
      (\<not> fd \<longrightarrow> (\<forall>raw. fmlookup f path = Some raw \<longrightarrow> (\<exists>e. decodeEnvelope L raw = Inl e)))"
    using snap
    by (auto simp: loadSnapshot_def openFile_def goodLoad_def split: option.splits sum.splits if_splits)
  show ?thesis
  proof (cases fd')
    case True
    with s have "s = b'" by simp
    with True b replay_newest [OF rep] show ?thesis
      by (cases "fmlookup f path"; cases fd) (auto simp: documents_def)
  next
    case False
    with s b replay_newest [OF rep] show ?thesis
      by (intro disjI2)
        (auto simp: documents_def fmdom_notI split: option.splits; metis Inl_Inr_False obj_sumE)
  qed
qed

theorem load_returns_newest_document_witness:
  "\<exists>d \<in> set (documents demoPath (writtenFiles demoPath (demoState 1) fmempty)).
     decodeEnvelope refLib d = Inr (demoState 1)"
proof -
  have "load refLib goodLoad demoPath (writtenFiles demoPath (demoState 1) fmempty) = Inr (demoState 1)"
    by (rule settled_load [OF persist_success [OF tornSafe_refLib demo_installed _ _ persist_good]])
      (simp_all add: demo_written scanTooLong_def)
  from load_returns_newest_document [OF this] show ?thesis
    by (auto simp: demoState_def emptyState_def)
qed

section \<open>Two ways to lose a state\<close>

text \<open>
  A write of the WAL that is torn exactly before the newline leaves a document that a load
  accepts, so the program resumes from it; but the next append continues the same line, after
  which neither document decodes. If that persist fails after its append, the following load
  falls back to the older snapshot: the state the program had resumed from is gone.
\<close>

lemma tokens_one: "newline \<notin> set l \<Longrightarrow> l \<noteq> [] \<Longrightarrow> tokens l = [dropCR l]"
  "newline \<notin> set l \<Longrightarrow> tokens (l @ [newline]) = [dropCR l]"
  using rawLines_shape [of "[]" l] rawLines_shape [of "[l]" "[]"] by (simp_all add: tokens_def)

lemma two_lines_undecodable:
  assumes "tornSafe L" and "exact L a" and "exact L b" and "0 < k"
  shows "\<exists>e. decodeEnvelope L (dropCR (take k (walLine L a) @ walLine L b)) = Inl e"
proof -
  have "pieces L [take k (walLine L a), walLine L b]"
    using assms(2-4) exact_line(3) take_is_prefix by (fastforce simp: pieces_def)
  with assms(1) show ?thesis unfolding tornSafe_def by fastforce
qed

theorem torn_line_end_loses_state:
  assumes "tornSafe L" and "exact L a" and "exact L b" and "exact L c"
    and seq: "ps_Sequence a < ps_Sequence b"
    and files: "fmlookup f path = Some raw" "decodeEnvelope L raw = Inr a" "walText path f = walLine L b"
    and short: "length (walLine L b) + length (walLine L c) < scanLimit"
    and io: "io_mkdir io = None" "io_walOpen io = None" "io_walWrite io = None" "io_walSync io = Some e"
  shows "load L goodLoad path f = Inr b \<and>
    (\<exists>f'. persist L Unix io path c f = (Some e, f') \<and> load L goodLoad path f' = Inr a)"
proof -
  let ?f' = "appendFile (walPath path) (walLine L c @ [newline]) f"
  have nl: "newline \<notin> set (walLine L b @ walLine L c)"
    using exact_line(2) assms(3,4) by simp
  have snap: "loadSnapshot L goodLoad path f = Inr (a, True)" "loadSnapshot L goodLoad path ?f' = Inr (a, True)"
    using files by (simp_all add: loadSnapshot_def openFile_def goodLoad_def)
  have tok: "tokens (walText path f) = [walLine L b]"
    using tokens_one(1) [of "walLine L b"] exact_line(2,3,4) [OF assms(3)] files(3) by simp
  have tok': "tokens (walText path ?f') = [dropCR (walLine L b @ walLine L c)]"
    using tokens_one(2) [OF nl] files(3) by simp
  have long: "\<not> scanTooLong (walText path f)" "\<not> scanTooLong (walText path ?f')"
    using rawLines_shape [of "[]" "walLine L b"] rawLines_shape [of "[walLine L b @ walLine L c]" "[]"]
      nl files(3) short exact_line(2,3) [OF assms(3)] by (auto simp: scanTooLong_def)
  have "load L goodLoad path f = Inr b"
    using exact_line(1) [OF assms(3)] seq
    by (simp add: load_def snap loadWal_tokens [OF long(1)] tok replayStep_def)
  moreover have "persist L Unix io path c f = (Some e, ?f')"
    using assms(4) io by (auto simp: exact_def persist_def Let_def walLine_def envelopeOf_def)
  moreover have "load L goodLoad path ?f' = Inr a"
  proof -
    have "loadWal L goodLoad path ?f' (a, True) = Inr (a, True)"
      unfolding loadWal_tokens [OF long(2)] tok'
      using two_lines_undecodable [OF assms(1,3,4), of "length (walLine L b)"] exact_line(3) [OF assms(3)] by (auto simp: replayStep_def)
    then show ?thesis by (simp add: load_def snap)
  qed
  ultimately show ?thesis by blast
qed

text \<open>
  On Windows, a write torn anywhere is enough: the replacement moves the snapshot away before
  it moves the new one in, and at that moment the WAL, whose only newer line runs on from the
  torn one, holds nothing that decodes. A crash there restarts from the empty state, with an
  empty ledger.
\<close>

lemma replaceWindows_interrupted:
  assumes "io_rename io = Some (ErrOS OsPermission m)" "io_toBackup io = None"
    "io_rename2 io = Some e" "io_restore io = Some e'" and "fmlookup g path = Some raw"
  shows "replaceWindows io (tmpPath path) path g =
    (Some e, fmupd (prevPath path) raw (fmdrop path (removeFile (io_rmPrevious io) (prevPath path) g)))"
  using assms by (simp add: replaceWindows_def renameFile_def Let_def)

theorem windows_replace_after_torn_write_loses_everything:
  assumes "tornSafe L" and "exact L b" and "exact L c"
    and torn: "0 < k" "walText path f = take k (walLine L b)"
    and snap: "fmlookup f path = Some raw"
    and short: "k + length (walLine L c) < scanLimit"
    and io: "io_mkdir io = None" "io_walOpen io = None" "io_walWrite io = None" "io_walSync io = None"
      "io_walClose io = None" "io_tmpOpen io = None" "io_tmpWrite io = None" "io_tmpSync io = None"
      "io_tmpClose io = None" "io_rename io = Some (ErrOS OsPermission m)" "io_toBackup io = None"
      "io_rename2 io = Some e" "io_restore io = Some e'"
  shows "\<exists>f'. persist L Windows io path c f = (Some e, f') \<and> load L goodLoad path f' = Inr emptyState"
proof -
  let ?f1 = "appendFile (walPath path) (walLine L c @ [newline]) f"
  obtain doc where doc: "persist L Windows io path c f = persistSnapshot Windows io path doc ?f1"
    using io assms(3) by (auto simp: exact_def persist_def Let_def walLine_def envelopeOf_def)
  obtain f' where f': "persistSnapshot Windows io path doc ?f1 = (Some e, f')"
    "fmlookup f' path = None" "walText path f' = walText path ?f1"
  proof -
    let ?g = "fmupd (tmpPath path) doc ?f1"
    let ?h = "removeFile (io_rmTmp io) (tmpPath path)
      (fmupd (prevPath path) raw (fmdrop path (removeFile (io_rmPrevious io) (prevPath path) ?g)))"
    have g: "fmlookup ?g path = Some raw" using snap by simp
    have "persistSnapshot Windows io path doc ?f1 = (Some e, ?h)"
      using io replaceWindows_interrupted [OF io(10-13) g]
      by (simp add: persistSnapshot_def replaceFile_def Let_def)
    then show thesis by (rule that) (simp_all add: walText_def getOr_def)
  qed
  have nl: "newline \<notin> set (take k (walLine L b) @ walLine L c)"
    using exact_line(2) assms(2,3) by (auto dest: in_set_takeD)
  have tok: "tokens (walText path f') = [dropCR (take k (walLine L b) @ walLine L c)]"
    using tokens_one(2) [OF nl] f'(3) torn(2) by simp
  have long: "\<not> scanTooLong (walText path f')"
    using rawLines_shape [of "[take k (walLine L b) @ walLine L c]" "[]"] nl f'(3) torn(2) short
    by (simp add: scanTooLong_def)
  have "loadWal L goodLoad path f' (emptyState, False) = Inr (emptyState, False)"
    unfolding loadWal_tokens [OF long] tok
    using two_lines_undecodable [OF assms(1-3) torn(1)] by (auto simp: replayStep_def)
  then have "load L goodLoad path f' = Inr emptyState"
    using f'(2) by (simp add: load_def loadSnapshot_def openFile_def goodLoad_def)
  with doc f'(1) show ?thesis by auto
qed

end
