(* ===== verification/StateInvariant.thy ===== *)
theory StateInvariant
  imports Scenario
begin

text \<open>
  The invariant of the persistent state: every record and every attempt stands under its own key, an
  attempt names windows that exist, and all cycles of an attempt that has left the phase Prepared are in the
  ledger. Every operation of the controller keeps it, and never drops a window.
\<close>

section \<open>The invariant\<close>

definition keyed :: "(string, WindowRecord) fmap \<Rightarrow> bool" where
  "keyed m \<longleftrightarrow> (\<forall>k \<in> fset (fmdom m). wr_Key (getOr zeroWindowRecord m k) = k)"

definition windowsKeyed :: "PersistentState \<Rightarrow> bool" where
  "windowsKeyed s \<longleftrightarrow> keyed (ps_Windows s)"

lemma keyed_upd: "keyed m \<Longrightarrow> wr_Key r = k \<Longrightarrow> keyed (fmupd k r m)"
  by (simp add: keyed_def getOr_def)

lemma keyedD:
  assumes "keyed m" and "fmlookup m k = Some r"
  shows "wr_Key r = k"
proof -
  have "k \<in> fset (fmdom m)" using assms(2) by (rule fmdomI)
  with assms show ?thesis by (auto simp: keyed_def getOr_def)
qed

lemma keyed_range:
  assumes "keyed m" and "\<And>k r. wr_Key (f k r) = wr_Key r"
  shows "keyed (fmmap_keys f m)"
proof -
  have "wr_Key (getOr zeroWindowRecord (fmmap_keys f m) k) = k" if k: "k \<in> fset (fmdom m)" for k
  proof -
    obtain r where "fmlookup m k = Some r" using k by (auto simp: fmlookup_dom_iff)
    with keyedD [OF assms(1) this] assms(2) show ?thesis by (simp add: getOr_def)
  qed
  then show ?thesis by (simp add: keyed_def)
qed

lemma keyed_putAll:
  assumes "\<And>k r. wr_Key (f k r) = wr_Key r"
  shows "keyed m \<Longrightarrow> set ks \<subseteq> fset (fmdom m) \<Longrightarrow> keyed (putAll f zeroWindowRecord ks m)"
proof (induction ks arbitrary: m)
  case (Cons a ks)
  let ?m = "fmupd a (f a (getOr zeroWindowRecord m a)) m"
  have "wr_Key (getOr zeroWindowRecord m a) = a" using Cons.prems by (simp add: keyed_def)
  with assms have "keyed ?m" by (intro keyed_upd Cons.prems) simp
  moreover have "set ks \<subseteq> fset (fmdom ?m)" using Cons.prems(2) by auto
  ultimately have "keyed (putAll f zeroWindowRecord ks ?m)" by (rule Cons.IH)
  then show ?case by simp
qed simp

definition attemptOK :: "PersistentState \<Rightarrow> string \<Rightarrow> ProbeAttempt \<Rightarrow> bool" where
  "attemptOK s i a \<longleftrightarrow> pa_ID a = i \<and> set (pa_WindowKeys a) \<subseteq> winDom s \<and>
     (pa_Phase a \<noteq> AttemptPrepared \<longrightarrow> set (pa_CycleIDs a) \<subseteq> ledgerDom s)"

definition attemptsOK :: "PersistentState \<Rightarrow> bool" where
  "attemptsOK s \<longleftrightarrow> (\<forall>i a. fmlookup (ps_Attempts s) i = Some a \<longrightarrow> attemptOK s i a)"

definition stateOK :: "PersistentState \<Rightarrow> bool" where
  "stateOK s \<longleftrightarrow> windowsKeyed s \<and> attemptsOK s"

lemma stateOK_empty [simp]: "stateOK emptyState"
  by (simp add: stateOK_def windowsKeyed_def attemptsOK_def keyed_def emptyState_def)

text \<open>A step from one state to another that keeps the invariant and the windows.\<close>

definition keeps :: "PersistentState \<Rightarrow> PersistentState \<Rightarrow> bool" where
  "keeps s t \<longleftrightarrow> (stateOK s \<longrightarrow> stateOK t) \<and> winDom s \<subseteq> winDom t"

lemma keeps_refl [simp, intro]: "keeps s s"
  by (simp add: keeps_def)

lemma keeps_trans [trans]: "keeps s t \<Longrightarrow> keeps t u \<Longrightarrow> keeps s u"
  by (auto simp: keeps_def)

lemma keeps_dom: "keeps s t \<Longrightarrow> X \<subseteq> winDom s \<Longrightarrow> X \<subseteq> winDom t"
  by (auto simp: keeps_def)

lemma attemptOK_mono:
  "attemptOK s i a \<Longrightarrow> winDom s \<subseteq> winDom t \<Longrightarrow> ledgerDom s \<subseteq> ledgerDom t \<Longrightarrow> attemptOK t i a"
  by (auto simp: attemptOK_def)

text \<open>A change of the windows alone.\<close>

lemma keeps_windows:
  assumes "ps_Attempts t = ps_Attempts s" and "ledgerDom s \<subseteq> ledgerDom t" and "winDom s \<subseteq> winDom t"
    and "windowsKeyed s \<Longrightarrow> windowsKeyed t"
  shows "keeps s t"
  using assms attemptOK_mono [of s _ _ t] by (auto simp: keeps_def stateOK_def attemptsOK_def)

section \<open>The building blocks\<close>

lemma windowsKeyed_range:
  "windowsKeyed s \<Longrightarrow> (\<And>k r. wr_Key (f k r) = wr_Key r) \<Longrightarrow> windowsKeyed (rangeWindows f s)"
  unfolding windowsKeyed_def rangeWindows_def by (simp add: keyed_range)

lemma windowsKeyed_put: "windowsKeyed s \<Longrightarrow> wr_Key r = k \<Longrightarrow> windowsKeyed (putWindow k r s)"
  unfolding windowsKeyed_def putWindow_def by (simp add: keyed_upd)

lemma windowsKeyed_modify:
  "windowsKeyed s \<Longrightarrow> set ks \<subseteq> winDom s \<Longrightarrow> (\<And>k r. wr_Key (f k r) = wr_Key r) \<Longrightarrow>
     windowsKeyed (modifyWindows f ks s)"
  by (simp add: windowsKeyed_def modifyWindows_def winDom_def keyed_putAll)

lemma windowsKeyed_simps [simp]:
  "windowsKeyed (bumpSequence s) = windowsKeyed s" "windowsKeyed (putAttempt a s) = windowsKeyed s"
  "windowsKeyed (s\<lparr>ps_Attempts := x\<rparr>) = windowsKeyed s" "windowsKeyed (s\<lparr>ps_CycleLedger := y\<rparr>) = windowsKeyed s"
  by (simp_all add: windowsKeyed_def bumpSequence_def putAttempt_def)

lemma stateOK_bump [simp]: "stateOK (bumpSequence s) = stateOK s"
proof -
  have "ps_Attempts (bumpSequence s) = ps_Attempts s" by (simp add: bumpSequence_def)
  then show ?thesis by (simp add: stateOK_def attemptsOK_def attemptOK_def)
qed

lemma bump_keeps: "keeps s t \<Longrightarrow> keeps s (bumpSequence t)"
  by (simp add: keeps_def)

lemma modify_rest [simp]:
  "ps_Attempts (modifyWindows f ks s) = ps_Attempts s" "ps_CycleLedger (modifyWindows f ks s) = ps_CycleLedger s"
  "ps_Attempts (rangeWindows g s) = ps_Attempts s" "ps_CycleLedger (rangeWindows g s) = ps_CycleLedger s"
  by (simp_all add: modifyWindows_def rangeWindows_def)

lemma range_keeps: "(\<And>k r. wr_Key (f k r) = wr_Key r) \<Longrightarrow> keeps s (rangeWindows f s)"
  by (rule keeps_windows) (simp_all add: ledgerDom_def windowsKeyed_range)

lemma modify_keeps:
  assumes "stateOK s \<Longrightarrow> set ks \<subseteq> winDom s" and "\<And>k r. wr_Key (f k r) = wr_Key r"
  shows "keeps s (modifyWindows f ks s)"
proof (cases "stateOK s")
  case True
  with assms show ?thesis by (intro keeps_windows) (simp_all add: ledgerDom_def windowsKeyed_modify)
qed (simp add: keeps_def)

lemma put_keeps: "wr_Key r = k \<Longrightarrow> keeps s (putWindow k r s)"
  by (rule keeps_windows) (simp_all add: windowsKeyed_put, simp_all add: putWindow_def ledgerDom_def winDom_def subset_insertI)

section \<open>The transactions\<close>

lemma firstRecord_key: "wr_Key (fst (firstRecord L cfg now cred ik fp can w)) = windowKey ik (qw_BucketID w)"
  by (simp add: firstRecord_def Let_def)

lemma nextRecord_key: "wr_Key (fst (nextRecord L cfg now ik can ledger w r)) = wr_Key r"
  by (simp add: nextRecord_def Let_def)

lemma precheckRecord_key: "wr_Key (fst (precheckRecord L cfg now can found r)) = wr_Key r"
  by (cases found) (simp_all add: precheckRecord_def Let_def)

lemma verifyRecord_key: "wr_Key (verifyRecord L cfg now v found r) = wr_Key r"
  by (cases found) (simp_all add: verifyRecord_def Let_def)

definition txOK :: "transaction \<Rightarrow> PersistentState \<Rightarrow> bool" where
  "txOK fn s \<longleftrightarrow> (\<forall>t. fn s = Inr t \<longrightarrow> keeps s t)"

lemma markCredentialStateTx_ok [simp]: "txOK (markCredentialStateTx cred st res) s"
  by (simp add: txOK_def markCredentialStateTx_def range_keeps)

lemma retireReplacedTx_ok [simp]: "txOK (retireReplacedTx cred cur) s"
  by (simp add: txOK_def retireReplacedTx_def range_keeps)

lemma markReadFailureTx_ok [simp]: "txOK (markReadFailureTx cfg t ik cause) s"
  by (simp add: txOK_def markReadFailureTx_def range_keeps)

lemma dryRunTx_ok: "wr_Key ` set rs \<subseteq> winDom s \<Longrightarrow> txOK (dryRunTx cfg t rs) s"
  by (simp add: txOK_def dryRunTx_def modify_keeps)

lemma recordGroupFailureTx_ok: "wr_Key ` set rs \<subseteq> winDom s \<Longrightarrow> txOK (recordGroupFailureTx cfg t rs e) s"
  by (simp add: txOK_def recordGroupFailureTx_def modify_keeps)

text \<open>An attempt put under its own key.\<close>

lemma attempts_keep:
  assumes "stateOK s \<Longrightarrow> attemptOK t i a" and "ps_Attempts t = fmupd i a (ps_Attempts s)"
    and "winDom s \<subseteq> winDom t" and "ledgerDom s \<subseteq> ledgerDom t" and "windowsKeyed s \<Longrightarrow> windowsKeyed t"
  shows "keeps s t"
  using assms attemptOK_mono [of s _ _ t] by (auto simp: keeps_def stateOK_def attemptsOK_def)

lemma prepareTx_ok:
  assumes "set (pa_WindowKeys a) \<subseteq> winDom s" and "pa_Phase a = AttemptPrepared"
  shows "txOK (prepareTx a) s"
proof -
  have "keeps s (putAttempt a s)"
    by (rule attempts_keep [where i = "pa_ID a" and a = a])
      (use assms in \<open>simp_all add: attemptOK_def putAttempt_def winDom_def ledgerDom_def\<close>)
  moreover have "keeps (putAttempt a s) (modifyWindows f (pa_WindowKeys a) (putAttempt a s))"
    if "\<And>k r. wr_Key (f k r) = wr_Key r" for f
    using assms(1) that by (intro modify_keeps) simp_all
  ultimately show ?thesis
    by (auto simp: txOK_def prepareTx_def split: option.splits intro: keeps_trans)
qed

lemma winDom_ledger [simp]: "winDom (s\<lparr>ps_Attempts := x, ps_CycleLedger := y\<rparr>) = winDom s"
  by (simp add: winDom_def)

lemma fenceTx_ok:
  assumes "set (pa_WindowKeys a) \<subseteq> winDom s"
  shows "txOK (fenceTx a t) s"
proof -
  let ?s = "(putAttempt a s)\<lparr>ps_CycleLedger := putAll (\<lambda>c e. fenceEntry a t c) zeroLedgerEntry (pa_CycleIDs a)
    (ps_CycleLedger (putAttempt a s))\<rparr>"
  have "keeps s ?s"
    by (rule attempts_keep [where i = "pa_ID a" and a = a])
      (use assms in \<open>auto simp: attemptOK_def putAttempt_def winDom_def ledgerDom_def windowsKeyed_def\<close>)
  moreover have "keeps ?s (modifyWindows f (pa_WindowKeys a) ?s)"
    if "\<And>k r. wr_Key (f k r) = wr_Key r" for f
    using assms that by (intro modify_keeps) simp_all
  ultimately show ?thesis
    by (auto simp: txOK_def fenceTx_def Let_def split: option.splits if_splits intro: keeps_trans)
qed

lemma markSendOutcomeTx_ok [simp]: "txOK (markSendOutcomeTx t a ph out cause) s"
proof (cases "fmlookup (ps_Attempts s) (pa_ID a)")
  case None
  then show ?thesis by (simp add: txOK_def markSendOutcomeTx_def)
next
  case (Some cur)
  have ok: "attemptOK s (pa_ID a) cur" if "stateOK s" using Some that by (simp add: stateOK_def attemptsOK_def)
  have upd: "keeps s ((s\<lparr>ps_Attempts := fmupd (pa_ID a) c (ps_Attempts s),
      ps_CycleLedger := putAll g zeroLedgerEntry (pa_CycleIDs c) (ps_CycleLedger s)\<rparr>))"
    if "pa_ID c = pa_ID cur" "pa_WindowKeys c = pa_WindowKeys cur" for c g
    by (rule attempts_keep [where i = "pa_ID a" and a = c])
      (use ok that in \<open>auto simp: attemptOK_def winDom_def ledgerDom_def windowsKeyed_def\<close>)
  have mod: "keeps s (modifyWindows f (pa_WindowKeys cur) (s\<lparr>ps_Attempts := fmupd (pa_ID a) c (ps_Attempts s),
      ps_CycleLedger := putAll g zeroLedgerEntry (pa_CycleIDs cur) (ps_CycleLedger s)\<rparr>))"
    if "pa_ID c = pa_ID cur" "pa_WindowKeys c = pa_WindowKeys cur" "pa_CycleIDs c = pa_CycleIDs cur"
      "\<And>k r. wr_Key (f k r) = wr_Key r" for c f g
  proof (cases "stateOK s")
    case True
    with ok that have "set (pa_WindowKeys cur) \<subseteq> winDom s" by (simp add: attemptOK_def)
    with that(4) show ?thesis
      by (intro keeps_trans [OF upd [OF that(1,2), of g, unfolded that(3)]] modify_keeps) simp_all
  qed (simp add: keeps_def)
  show ?thesis
    unfolding txOK_def markSendOutcomeTx_def Let_def using Some
    by (auto intro!: mod)
qed

lemma attempts_verify: "ps_Attempts (fold (verifyStep L cfg t v bs) ks s) = ps_Attempts s"
  by (induction ks arbitrary: s) (simp_all add: verifyStep_def putWindow_def split: option.splits)

lemma verify_fold_keeps: "keeps s (fold (verifyStep L cfg t v bs) ks s)"
proof (induction ks arbitrary: s)
  case (Cons k ks)
  have "keeps s (verifyStep L cfg t v bs k s)"
  proof (cases "stateOK s")
    case True
    then show ?thesis
      using keyedD [of "ps_Windows s" k]
      by (auto simp: verifyStep_def stateOK_def windowsKeyed_def verifyRecord_key intro: put_keeps
          split: option.splits)
  next
    case False
    then show ?thesis by (auto simp: keeps_def verifyStep_def split: option.splits)
  qed
  with Cons show ?case by (auto intro: keeps_trans)
qed simp

text \<open>No attempt stored under \<open>i\<close> is still in the phase Prepared.\<close>

definition launched :: "string \<Rightarrow> PersistentState \<Rightarrow> bool" where
  "launched i s \<longleftrightarrow> (\<forall>a. fmlookup (ps_Attempts s) i = Some a \<longrightarrow> pa_Phase a \<noteq> AttemptPrepared)"

lemma verifyTx_ok:
  assumes "launched i s"
  shows "txOK (verifyTx L cfg t v ws i) s"
proof (cases "fmlookup (ps_Attempts s) i")
  case None
  then show ?thesis by (simp add: txOK_def verifyTx_def)
next
  case (Some cur)
  let ?s = "fold (verifyStep L cfg t v (byBucket ws)) (pa_WindowKeys cur) s"
  have at: "ps_Attempts ?s = ps_Attempts s" "ledgerDom ?s = ledgerDom s" "winDom ?s = winDom s"
    by (simp_all add: attempts_verify ledgerDom_verify winDom_verify)
  have "keeps ?s (?s\<lparr>ps_Attempts := fmupd i (cur\<lparr>pa_Phase := AttemptCompleted\<rparr>) (ps_Attempts ?s)\<rparr>)"
  proof (rule attempts_keep [where i = i and a = "cur\<lparr>pa_Phase := AttemptCompleted\<rparr>"])
    assume "stateOK ?s"
    then have "attemptOK ?s i cur" using Some at by (simp add: stateOK_def attemptsOK_def)
    with assms Some at show "attemptOK (?s\<lparr>ps_Attempts := fmupd i (cur\<lparr>pa_Phase := AttemptCompleted\<rparr>) (ps_Attempts ?s)\<rparr>) i
        (cur\<lparr>pa_Phase := AttemptCompleted\<rparr>)"
      by (simp add: attemptOK_def launched_def)
  qed simp_all
  with verify_fold_keeps [of s L cfg t v "byBucket ws" "pa_WindowKeys cur"] show ?thesis
    using Some by (auto simp: txOK_def verifyTx_def Let_def intro: keeps_trans)
qed

lemma dropPreparedTx_ok:
  assumes "stateOK s \<Longrightarrow> set (pa_WindowKeys a) \<subseteq> winDom s"
  shows "txOK (dropPreparedTx t i a) s"
proof -
  let ?s = "s\<lparr>ps_Attempts := fmdrop i (ps_Attempts s)\<rparr>"
  have drop: "keeps s ?s"
    by (auto simp: keeps_def stateOK_def attemptsOK_def attemptOK_def)
  have "keeps s (modifyWindows f (pa_WindowKeys a) ?s)" if "\<And>k r. wr_Key (f k r) = wr_Key r" for f
  proof (cases "stateOK s")
    case True
    with assms that show ?thesis by (intro keeps_trans [OF drop] modify_keeps) simp_all
  qed (simp add: keeps_def)
  then show ?thesis by (simp add: txOK_def dropPreparedTx_def)
qed

lemma reconcileWindow_keeps: "keeps s (fst (reconcileWindow L cfg t cred ik fp can w (s, gs)))"
proof (cases "fmlookup (ps_Windows s) (windowKey ik (qw_BucketID (attribute cred w)))")
  case None
  then show ?thesis by (simp add: reconcileWindow_def Let_def case_prod_beta firstRecord_key put_keeps)
next
  case (Some r)
  show ?thesis
  proof (cases "stateOK s")
    case True
    then have "wr_Key r = windowKey ik (qw_BucketID (attribute cred w))"
      using keyedD Some by (auto simp: stateOK_def windowsKeyed_def)
    then show ?thesis
      using Some by (simp add: reconcileWindow_def Let_def case_prod_beta nextRecord_key put_keeps)
  next
    case False
    then show ?thesis using Some by (auto simp: keeps_def reconcileWindow_def Let_def case_prod_beta)
  qed
qed

lemma reconcile_keeps: "keeps s (fst (reconcileState L cfg t cred ik fp can ws s))"
proof -
  have "keeps s (fst (fold (reconcileWindow L cfg t cred ik fp can) ws (s, gs)))" for s gs
  proof (induction ws arbitrary: s gs)
    case (Cons w ws)
    obtain s' gs' where x: "reconcileWindow L cfg t cred ik fp can w (s, gs) = (s', gs')" by fastforce
    with reconcileWindow_keeps [of s L cfg t cred ik fp can w gs] Cons [of s' gs'] show ?case by (auto intro: keeps_trans)
  qed simp
  moreover have "keeps s' (markAbsent cfg t ik ks s')" for s' ks
    by (simp add: markAbsent_def range_keeps)
  ultimately show ?thesis unfolding reconcileState_def Let_def case_prod_beta fst_conv by (rule keeps_trans)
qed

lemma precheck_keeps: "keeps s (fst (precheckState L cfg t can ws rs s))"
proof -
  have step: "keeps s (fst (precheckStep L cfg t can bs r (s, cs)))" for s cs r bs
  proof (cases "fmlookup (ps_Windows s) (wr_Key r)")
    case (Some r0)
    let ?p = "precheckRecord L cfg t can (fmlookup bs (wr_BucketID r0)) r0"
    have "fst (precheckStep L cfg t can bs r (s, cs)) = putWindow (wr_Key (fst ?p)) (fst ?p) s"
      using Some by (simp add: precheckStep_def case_prod_beta)
    then show ?thesis by (simp add: put_keeps)
  qed (simp add: precheckStep_def)
  have "keeps s (fst (fold (precheckStep L cfg t can bs) rs (s, cs)))" for s cs bs
  proof (induction rs arbitrary: s cs)
    case (Cons r rs)
    obtain s' cs' where x: "precheckStep L cfg t can bs r (s, cs) = (s', cs')" by fastforce
    with step [of s bs r cs] Cons [of s' cs'] show ?case by (auto intro: keeps_trans)
  qed simp
  then show ?thesis by (simp add: precheckState_def)
qed

text \<open>The records a reconciliation or a second read hands on are in the state they leave.\<close>

lemma groupsAll_mono: "groupsAll Q gs \<Longrightarrow> (\<And>r. Q r \<Longrightarrow> Q' r) \<Longrightarrow> groupsAll Q' gs"
  by (auto simp: groupsAll_def)

lemma reconcileWindow_key:
  assumes "stateOK s" and "reconcileWindow L cfg t cred ik fp can w (s, gs) = (s', gs')"
    and "groupsAll (\<lambda>r. wr_Key r \<in> winDom s) gs"
  shows "groupsAll (\<lambda>r. wr_Key r \<in> winDom s') gs'"
proof -
  let ?k = "windowKey ik (qw_BucketID (attribute cred w))"
  obtain r j where r: "(case fmlookup (ps_Windows s) ?k of
      None \<Rightarrow> firstRecord L cfg t cred ik fp (can (attribute cred w)) (attribute cred w)
    | Some r \<Rightarrow> nextRecord L cfg t ik (can (attribute cred w)) (ps_CycleLedger s) (attribute cred w) r) = (r, j)"
    by fastforce
  have "wr_Key r = ?k"
  proof (cases "fmlookup (ps_Windows s) ?k")
    case None
    with r firstRecord_key [of L cfg t cred ik fp "can (attribute cred w)" "attribute cred w"] show ?thesis by simp
  next
    case (Some r0)
    with assms(1) keyedD have "wr_Key r0 = ?k" by (auto simp: stateOK_def windowsKeyed_def)
    with Some r nextRecord_key [of L cfg t ik "can (attribute cred w)" "ps_CycleLedger s" "attribute cred w" r0]
    show ?thesis by simp
  qed
  moreover have "s' = putWindow ?k r s" "gs' = (if j then addGroup (groupOf (attribute cred w)) r gs else gs)"
    using assms(2) r by (simp_all add: reconcileWindow_def Let_def)
  ultimately show ?thesis
    using groupsAll_mono [OF assms(3), of "\<lambda>r. wr_Key r \<in> winDom s'"] by auto
qed

lemma reconcile_groups:
  assumes "stateOK s" and "g \<in> set (groupList (snd (reconcileState L cfg t cred ik fp can ws s)))"
  shows "wr_Key ` set g \<subseteq> winDom (fst (reconcileState L cfg t cred ik fp can ws s))"
proof -
  have "stateOK s' \<Longrightarrow> groupsAll (\<lambda>r. wr_Key r \<in> winDom s') gs' \<Longrightarrow>
      groupsAll (\<lambda>r. wr_Key r \<in> winDom (fst (fold (reconcileWindow L cfg t cred ik fp can) ws (s', gs'))))
        (snd (fold (reconcileWindow L cfg t cred ik fp can) ws (s', gs')))" for s' gs'
  proof (induction ws arbitrary: s' gs')
    case (Cons w ws)
    obtain s1 gs1 where x: "reconcileWindow L cfg t cred ik fp can w (s', gs') = (s1, gs1)" by fastforce
    have "keeps s' s1" using reconcileWindow_keeps [of s' L cfg t cred ik fp can w gs'] x by simp
    with Cons.prems have "stateOK s1" by (simp add: keeps_def)
    from Cons.IH [OF this reconcileWindow_key [OF Cons.prems(1) x Cons.prems(2)]] show ?case by (simp add: x)
  qed simp
  from groupsAll_list [OF this [OF assms(1) groupsAll_empty], of g] assms(2)
  show ?thesis by (auto simp: reconcileState_def Let_def case_prod_beta markAbsent_def)
qed

lemma precheck_confirmed:
  "wr_Key ` set (snd (precheckState L cfg t can ws rs s)) \<subseteq> winDom (fst (precheckState L cfg t can ws rs s))"
proof -
  have step: "wr_Key ` set cs' \<subseteq> winDom s'"
    if x: "precheckStep L cfg t can bs r (s, cs) = (s', cs')" "wr_Key ` set cs \<subseteq> winDom s" for s cs s' cs' bs r
    using x by (auto simp: precheckStep_def case_prod_beta image_subset_iff split: option.splits if_splits)
  have "wr_Key ` set cs \<subseteq> winDom s \<Longrightarrow>
      wr_Key ` set (snd (fold (precheckStep L cfg t can bs) rs (s, cs))) \<subseteq>
        winDom (fst (fold (precheckStep L cfg t can bs) rs (s, cs)))" for s cs bs
  proof (induction rs arbitrary: s cs)
    case (Cons r rs)
    obtain s' cs' where x: "precheckStep L cfg t can bs r (s, cs) = (s', cs')" by fastforce
    from Cons.IH [OF step [OF x Cons.prems]] show ?case by (simp add: x)
  qed simp
  then show ?thesis by (simp add: precheckState_def)
qed

section \<open>The operations\<close>

text \<open>What the invariant needs of the library: a copy of a state is the state.\<close>

definition faithful :: "golib \<Rightarrow> bool" where
  "faithful L \<longleftrightarrow> (\<forall>s. cloneState L s = s)"

abbreviation keepsW :: "world \<Rightarrow> world \<Rightarrow> bool" where
  "keepsW w v \<equiv> keeps (stateOf w) (stateOf v)"

lemma faithful_update:
  assumes "faithful (pf_lib P)" and "update P fn w = (r, v)"
  obtains e where "r = Inl e" "stateOf v = stateOf w"
  | n x where "fn (stateOf w) = Inr n" "r = Inr x" "stateOf v = bumpSequence n"
proof -
  have c: "cloneState (pf_lib P) s = s" for s using assms(1) by (simp add: faithful_def)
  consider (err) e where "nextState (pf_lib P) fn (stateOf w) = Inl e"
    | (ok) n where "fn (stateOf w) = Inr n" "nextState (pf_lib P) fn (stateOf w) = Inr (bumpSequence n)"
    by (cases "fn (stateOf w)") (auto simp: nextState_def c bumpSequence_def)
  then show thesis
  proof cases
    case err
    show thesis
      by (rule that(1) [of e]) (use assms(2) in \<open>auto simp: update_def storeUpdate_def err\<close>)
  next
    case ok
    obtain e f where p: "persist (pf_lib P) (pf_os P) (pf_io P (w_n w)) (st_path (w_store w)) (bumpSequence n)
        (w_fs w) = (e, f)" by fastforce
    show thesis
      using assms(2) ok p that by (cases e) (auto simp: update_def storeUpdate_def)
  qed
qed

lemma faithful_commit:
  assumes "faithful (pf_lib P)" and "commit P fn w = (r, v)"
  obtains e where "r = Some e" "stateOf v = stateOf w"
  | n where "fn (stateOf w) = Inr n" "r = None" "stateOf v = bumpSequence n"
proof -
  obtain x u where x: "update P fn w = (x, u)" by fastforce
  with assms(2) have v: "v = u" "r = (case x of Inl e \<Rightarrow> Some e | Inr _ \<Rightarrow> None)"
    by (auto simp: commit_def split: sum.splits)
  show thesis by (rule faithful_update [OF assms(1) x]) (use v that in auto)
qed

lemma update_keeps:
  assumes "faithful (pf_lib P)" and "update P fn w = (r, v)" and "txOK fn (stateOf w)"
  shows "keepsW w v"
  by (rule faithful_update [OF assms(1,2)]) (use assms(3) in \<open>auto simp: txOK_def bump_keeps\<close>)

lemma commit_keeps:
  assumes "faithful (pf_lib P)" and "commit P fn w = (r, v)" and "txOK fn (stateOf w)"
  shows "keepsW w v"
  by (rule faithful_commit [OF assms(1,2)]) (use assms(3) in \<open>auto simp: txOK_def bump_keeps\<close>)

lemma recordGroupFailure_keeps:
  assumes "faithful (pf_lib P)" and "recordGroupFailure P C rs e b w = (r, v)"
    and "wr_Key ` set rs \<subseteq> winDom (stateOf w)"
  shows "keepsW w v"
  using assms(2) commit_keeps [OF assms(1) _ recordGroupFailureTx_ok [OF assms(3)]]
  by (auto simp: recordGroupFailure_def split: prod.splits option.splits)

lemma markSendOutcome_keeps:
  assumes "faithful (pf_lib P)" and "markSendOutcome P C a ph out cause w = (r, v)"
  shows "keepsW w v"
  using assms(2) commit_keeps [OF assms(1) _ markSendOutcomeTx_ok, of _ _ _ _ _ "tick1 w"]
  by (auto simp: markSendOutcome_def readClock_def)

text \<open>An outcome leaves no attempt in the phase Prepared.\<close>

lemma launched_bump [simp]: "launched i (bumpSequence s) = launched i s"
  by (simp add: launched_def bumpSequence_def)

lemma markSendOutcomeTx_launched:
  assumes "markSendOutcomeTx t a ph out cause s = Inr n" and "ph \<noteq> AttemptPrepared"
  shows "launched (pa_ID a) n"
  using assms by (auto simp: markSendOutcomeTx_def Let_def launched_def split: option.splits if_splits)

lemma markSendOutcome_launched:
  assumes "faithful (pf_lib P)" and "markSendOutcome P C a ph out cause w = (r, v)" and "ph \<noteq> AttemptPrepared"
    and "launched (pa_ID a) (stateOf w)"
  shows "launched (pa_ID a) (stateOf v)"
proof -
  have c: "commit P (markSendOutcomeTx (ctl_now C (w_n w)) a ph out cause) (tick1 w) = (r, v)"
    using assms(2) by (simp add: markSendOutcome_def readClock_def)
  show ?thesis
    by (rule faithful_commit [OF assms(1) c]) (use assms(3,4) markSendOutcomeTx_launched in auto)
qed

lemma verifyAttempt_keeps:
  assumes "faithful (pf_lib P)" and "verifyAttempt P C cred ad ops a w = (r, v)"
    and "launched (pa_ID a) (stateOf w)"
  shows "keepsW w v"
proof (cases "ad_ReadQuota ad (w_n w) cred")
  case (Inl e)
  with assms(2) markSendOutcome_keeps [OF assms(1), of C a _ _ _ "tick1 w"] show ?thesis
    by (auto simp: verifyAttempt_def readQuota_def)
next
  case (Inr obs)
  show ?thesis
  proof (cases "normalizeWindows (ob_Windows obs)")
    case (Inl e)
    with Inr assms(2) show ?thesis by (auto simp: verifyAttempt_def readQuota_def)
  next
    case ws: (Inr ws)
    have "commit P (verifyTx (pf_lib P) (ctl_cfg C) (ctl_now C (w_n (tick1 w))) (ac_VerifyActivation ops) ws (pa_ID a))
        (tick1 (tick1 w)) = (r, v)"
      using Inr ws assms(2) by (simp add: verifyAttempt_def readQuota_def readClock_def)
    from commit_keeps [OF assms(1) this verifyTx_ok] assms(3) show ?thesis by simp
  qed
qed

lemma sendAndVerify_keeps:
  assumes F: "faithful (pf_lib P)" and run: "sendAndVerify P C send cred ad ops req a w = (r, v)"
    and l: "launched (pa_ID a) (stateOf w)"
  shows "keepsW w v"
proof (cases "send (w_n w) cred req")
  case (Some e)
  with run markSendOutcome_keeps [OF F, of C a _ _ _ "emit (EvSend cred req a) (tick1 w)"] show ?thesis
    by (auto simp: sendAndVerify_def)
next
  case None
  let ?w = "tick1 (emit (EvSend cred req a) (tick1 w))"
  let ?a = "a\<lparr>pa_Phase := AttemptSent, pa_SentAt := ctl_now C (w_n (emit (EvSend cred req a) (tick1 w)))\<rparr>"
  obtain x u where x: "markSendOutcome P C ?a AttemptSent ''sent'' None ?w = (x, u)" by fastforce
  have u: "keepsW w u" "launched (pa_ID ?a) (stateOf u)"
    using markSendOutcome_keeps [OF F x] markSendOutcome_launched [OF F x] l by simp_all
  show ?thesis
  proof (cases x)
    case (Some e)
    with None run x u show ?thesis by (simp add: sendAndVerify_def readClock_def Let_def)
  next
    case sent: None
    have "keepsW u v"
      using None sent run x markSendOutcome_keeps [OF F, of C ?a _ _ _ "tick1 u"]
        verifyAttempt_keeps [OF F, of C cred ad ops ?a "tick1 u"] u(2)
      by (auto simp: sendAndVerify_def readClock_def Let_def split: option.splits)
    with u(1) show ?thesis by (rule keeps_trans)
  qed
qed

lemma fenceTx_launched:
  assumes "fenceTx a t s = Inr n" and "pa_Phase a \<noteq> AttemptPrepared"
  shows "launched (pa_ID a) n"
  using assms by (auto simp: fenceTx_def Let_def putAttempt_def launched_def split: option.splits if_splits)

lemma fenceAndSend_keeps:
  assumes F: "faithful (pf_lib P)" and run: "fenceAndSend P C send cred ad ops req a w = (r, v)"
    and a: "set (pa_WindowKeys a) \<subseteq> winDom (stateOf w)" "pa_Phase a = AttemptPrepared"
  shows "keepsW w v"
proof -
  obtain x u where x: "commit P (prepareTx a) w = (x, u)" by fastforce
  have u: "keepsW w u" by (rule commit_keeps [OF F x prepareTx_ok [OF a]])
  show ?thesis
  proof (cases x)
    case (Some e)
    with run x u show ?thesis by (simp add: fenceAndSend_def)
  next
    case None
    let ?t = "ctl_now C (w_n u)"
    let ?a = "a\<lparr>pa_Phase := AttemptSending, pa_SendingAt := ?t\<rparr>"
    obtain y z where y: "commit P (fenceTx ?a ?t) (tick1 u) = (y, z)" by fastforce
    have ka: "set (pa_WindowKeys ?a) \<subseteq> winDom (stateOf (tick1 u))" using a(1) u by (auto simp: keeps_def)
    have z: "keepsW u z" using commit_keeps [OF F y fenceTx_ok [OF ka]] by simp
    have rest: "fenceAndSend P C send cred ad ops req a w =
        (case y of Some e \<Rightarrow> (Some e, z) | None \<Rightarrow> sendAndVerify P C send cred ad ops req ?a z)"
      using x None y by (simp add: fenceAndSend_def readClock_def Let_def)
    have "keepsW z v"
    proof (cases y)
      case (Some e)
      with rest run show ?thesis by simp
    next
      case go: None
      have "launched (pa_ID ?a) (stateOf z)"
        by (rule faithful_commit [OF F y]) (use go fenceTx_launched [of ?a ?t "stateOf (tick1 u)"] in auto)
      with rest run go sendAndVerify_keeps [OF F, of C send cred ad ops req ?a z r v] show ?thesis by simp
    qed
    with u z show ?thesis by (blast intro: keeps_trans)
  qed
qed

lemma activateGroup_keeps:
  assumes F: "faithful (pf_lib P)" and run: "activateGroup P C cred ad ops rs w = (r, v)"
    and rs: "wr_Key ` set rs \<subseteq> winDom (stateOf w)"
  shows "keepsW w v"
proof -
  have fail: "keepsW w v'" if "recordGroupFailure P C rs e False (tick1 w) = (r', v')" for e r' v'
    using recordGroupFailure_keeps [OF F that] rs by simp
  have go: "keepsW w v'"
    if "fenceAndSend P C send cred ad ops req (newAttempt cfg cred i g t rs) (tick1 (tick1 (tick1 w))) = (r', v')"
    for send req cfg i g t r' v'
    using fenceAndSend_keeps [OF F that] rs by (simp add: newAttempt_def)
  show ?thesis
    using run fail go
    by (auto simp: activateGroup_def readClock_def split: option.splits sum.splits if_splits)
qed

lemma dryRunOrActivate_keeps:
  assumes "faithful (pf_lib P)" and "dryRunOrActivate P C cred ad ops rs w = (r, v)"
    and "wr_Key ` set rs \<subseteq> winDom (stateOf w)"
  shows "keepsW w v"
  using assms(2) activateGroup_keeps [OF assms(1) _ assms(3)] commit_keeps [OF assms(1) _ dryRunTx_ok [OF assms(3)]]
  by (auto simp: dryRunOrActivate_def split: if_splits)

lemma precheckGroup_keeps:
  assumes F: "faithful (pf_lib P)" and run: "precheckGroup P C cred ad ops rs w = (x, v)"
    and rs: "wr_Key ` set rs \<subseteq> winDom (stateOf w)"
  shows "keepsW w v \<and> (\<forall>cs. x = Inr cs \<longrightarrow> wr_Key ` set cs \<subseteq> winDom (stateOf v))"
proof -
  have fail: "keepsW w v'" if "recordGroupFailure P C rs e False (tick1 w) = (r', v')" for e r' v'
    using recordGroupFailure_keeps [OF F that] rs by simp
  consider (fail) e r' where "recordGroupFailure P C rs e False (tick1 w) = (r', v)"
      "x = Inr [] \<or> (\<exists>e. x = Inl e)"
    | (go) ws where "(case update P (\<lambda>s. Inr (fst (precheckState (pf_lib P) (ctl_cfg C) (ctl_now C (w_n (tick1 w)))
        (ac_CanActivate ops) ws rs s))) (tick1 (tick1 w)) of (Inl e, w3) \<Rightarrow> (Inl e, w3)
      | (Inr _, w3) \<Rightarrow> (Inr (snd (precheckState (pf_lib P) (ctl_cfg C) (ctl_now C (w_n (tick1 w)))
        (ac_CanActivate ops) ws rs (cloneState (pf_lib P) (stateOf (tick1 (tick1 w)))))), w3)) = (x, v)"
    using run by (auto simp: precheckGroup_def readQuota_def readClock_def Let_def
        split: sum.splits prod.splits option.splits)
  then show ?thesis
  proof cases
    case fail
    with \<open>\<And>e r' v'. recordGroupFailure P C rs e False (tick1 w) = (r', v') \<Longrightarrow> keepsW w v'\<close> show ?thesis by auto
  next
    case go
    let ?body = "precheckState (pf_lib P) (ctl_cfg C) (ctl_now C (w_n (tick1 w))) (ac_CanActivate ops) ws rs"
    obtain y z where y: "update P (\<lambda>s. Inr (fst (?body s))) (tick1 (tick1 w)) = (y, z)" by fastforce
    have "txOK (\<lambda>s. Inr (fst (?body s))) s" for s by (simp add: txOK_def precheck_keeps)
    from update_keeps [OF F y this] have k: "keepsW w z" by simp
    have c: "cloneState (pf_lib P) s = s" for s using F by (simp add: faithful_def)
    show ?thesis
    proof (rule faithful_update [OF F y])
      fix e assume "y = Inl e" "stateOf z = stateOf (tick1 (tick1 w))"
      with go y k show ?thesis by auto
    next
      fix n u assume n: "Inr (fst (?body (stateOf (tick1 (tick1 w))))) = Inr n" "y = Inr u" "stateOf z = bumpSequence n"
      with go y have "v = z" "x = Inr (snd (?body (stateOf w)))" by (simp_all add: c)
      with n k precheck_confirmed [of "pf_lib P" "ctl_cfg C" "ctl_now C (w_n (tick1 w))" "ac_CanActivate ops" ws rs "stateOf w"]
      show ?thesis by auto
    qed
  qed
qed

lemma runGroup_keeps:
  assumes F: "faithful (pf_lib P)" and run: "runGroup P C cred ad ops rs w = (r, v)"
    and rs: "wr_Key ` set rs \<subseteq> winDom (stateOf w)"
  shows "keepsW w v"
proof -
  obtain x u where x: "precheckGroup P C cred ad ops rs w = (x, u)" by fastforce
  note p = precheckGroup_keeps [OF F x rs]
  have go: "keepsW w v'" if "x = Inr cs" "dryRunOrActivate P C cred ad ops cs u = (r', v')" for cs r' v'
    using dryRunOrActivate_keeps [OF F that(2)] p that(1) by (blast intro: keeps_trans)
  show ?thesis
    using run x p go dryRunOrActivate_keeps [OF F _ rs]
    by (auto simp: runGroup_def split: if_splits sum.splits)
qed

lemma runGroups_keeps:
  assumes F: "faithful (pf_lib P)"
  shows "runGroups P C cred ad ops gs w = (r, v) \<Longrightarrow> (\<forall>g \<in> set gs. wr_Key ` set g \<subseteq> winDom (stateOf w)) \<Longrightarrow>
    keepsW w v"
proof (induction gs arbitrary: w)
  case (Cons g gs)
  obtain x u where x: "runGroup P C cred ad ops g w = (x, u)" by fastforce
  have u: "keepsW w u" by (rule runGroup_keeps [OF F x]) (use Cons.prems in auto)
  then have "\<forall>g \<in> set gs. wr_Key ` set g \<subseteq> winDom (stateOf u)" using Cons.prems(2) keeps_dom by (meson list.set_intros(2))
  with Cons.IH [of u] Cons.prems(1) x u show ?case by (auto split: option.splits intro: keeps_trans)
qed simp

lemma reconcileObservation_keeps:
  assumes F: "faithful (pf_lib P)" and ok: "stateOK (stateOf w)"
    and run: "reconcileObservation P C cred ik fp ws act w = (x, v)"
  shows "keepsW w v \<and> (\<forall>gs. x = Inr gs \<longrightarrow> (\<forall>g \<in> set gs. wr_Key ` set g \<subseteq> winDom (stateOf v)))"
proof -
  let ?body = "reconcileState (pf_lib P) (ctl_cfg C) (ctl_now C (w_n w)) cred ik fp (canActivate act) ws"
  obtain y z where y: "update P (\<lambda>s. Inr (fst (?body s))) (tick1 w) = (y, z)" by fastforce
  have "txOK (\<lambda>s. Inr (fst (?body s))) s" for s by (simp add: txOK_def reconcile_keeps)
  from update_keeps [OF F y this] have k: "keepsW w z" by simp
  have c: "cloneState (pf_lib P) s = s" for s using F by (simp add: faithful_def)
  have x: "v = z" "x = map_sum id (\<lambda>_. groupList (snd (?body (stateOf w)))) y"
    using run y by (auto simp: reconcileObservation_def readClock_def Let_def c split: sum.splits)
  show ?thesis
  proof (rule faithful_update [OF F y])
    fix e assume "y = Inl e"
    with x k show ?thesis by simp
  next
    fix n s assume n: "Inr (fst (?body (stateOf (tick1 w)))) = Inr n" "y = Inr s" "stateOf z = bumpSequence n"
    then have "winDom (stateOf v) = winDom (fst (?body (stateOf w)))" using x by auto
    with reconcile_groups [OF ok] x k n(2) show ?thesis by simp
  qed
qed

lemma tick_keeps:
  assumes F: "faithful (pf_lib P)" and ok: "stateOK (stateOf w)" and run: "tick P C cred adapter w = (r, w')"
  shows "keepsW w w'"
proof (cases adapter)
  case None
  with run show ?thesis by (simp add: tick_def)
next
  case (Some ad)
  show ?thesis
  proof (cases "cred_Disabled cred \<or> \<not> ad_Match ad cred \<or> isl (ad_Fingerprint ad (w_n w) cred)")
    case True
    with run Some show ?thesis
      by (auto simp: tick_def isl_def markCredentialState_def intro: commit_keeps [OF F] split: if_splits sum.splits)
  next
    case False
    then obtain fp where fp: "\<not> cred_Disabled cred" "ad_Match ad cred" "ad_Fingerprint ad (w_n w) cred = Inr fp"
      by (auto simp: isl_def split: sum.splits) (metis sum.exhaust)
    let ?ik = "instanceKey cred (ad_ID ad) fp"
    obtain x w1 where x: "retireReplacedInstances P cred ?ik w = (x, w1)" by fastforce
    obtain q where q: "readQuota ad cred w1 = (q, tick1 w1)" by (simp add: readQuota_def)
    have s1: "keepsW w w1" using commit_keeps [OF F x [unfolded retireReplacedInstances_def]] by simp
    then have ok1: "stateOK (stateOf (tick1 w1))" using ok by (simp add: keeps_def)
    have failure: "keepsW u v" if "markReadFailure P C ik e u = (r, v)" for ik e u v
      using that commit_keeps [OF F _ markReadFailureTx_ok]
      by (auto simp: markReadFailure_def commitThen_def split: prod.splits option.splits)
    consider "w' = w1" | "w' = tick1 w1"
      | e where "markReadFailure P C ?ik e (tick1 w1) = (r, w')"
      | ws y where "reconcileObservation P C cred ?ik fp ws (ad_Activation ad) (tick1 w1) = (y, w')"
      | ws gs ops w3 where "reconcileObservation P C cred ?ik fp ws (Some ops) (tick1 w1) = (Inr gs, w3)"
          "ad_Activation ad = Some ops" "runGroups P C cred ad ops gs w3 = (r, w')"
      using run Some fp x q
      by (auto simp: tick_def Let_def split: option.splits sum.splits prod.splits)
    then have "keepsW w1 w'"
    proof cases
      case 3
      from failure [OF 3] show ?thesis by simp
    next
      case 4
      from reconcileObservation_keeps [OF F ok1 4] show ?thesis by simp
    next
      case 5
      from reconcileObservation_keeps [OF F ok1 5(1)] have k: "keepsW w1 w3" "\<forall>g \<in> set gs. wr_Key ` set g \<subseteq> winDom (stateOf w3)"
        by simp_all
      with runGroups_keeps [OF F 5(3)] show ?thesis by (blast intro: keeps_trans)
    qed simp_all
    with s1 show ?thesis by (rule keeps_trans)
  qed
qed

section \<open>Recovery\<close>

definition attDom :: "PersistentState \<Rightarrow> string set" where
  "attDom s = fset (fmdom (ps_Attempts s))"

lemma attDom_bump [simp]: "attDom (bumpSequence s) = attDom s"
  by (simp add: attDom_def bumpSequence_def)

lemma attDom_commit:
  assumes "faithful (pf_lib P)" and "commit P fn w = (r, v)" and "\<And>n. fn (stateOf w) = Inr n \<Longrightarrow> attDom n = attDom (stateOf w)"
  shows "attDom (stateOf v) = attDom (stateOf w)"
  by (rule faithful_commit [OF assms(1,2)]) (use assms(3) in auto)

lemma attDom_outcomeTx: "markSendOutcomeTx t a ph out cause s = Inr n \<Longrightarrow> attDom n = attDom s"
  by (auto simp: markSendOutcomeTx_def Let_def attDom_def fmlookup_dom_iff split: option.splits if_splits)

lemma attDom_verifyTx: "verifyTx L cfg t v ws i s = Inr n \<Longrightarrow> attDom n = attDom s"
  by (auto simp: verifyTx_def Let_def attDom_def attempts_verify fmlookup_dom_iff split: option.splits)

lemma attDom_outcome:
  "faithful (pf_lib P) \<Longrightarrow> markSendOutcome P C a ph out cause w = (r, v) \<Longrightarrow> attDom (stateOf v) = attDom (stateOf w)"
  using attDom_commit [of P _ "tick1 w" r v] attDom_outcomeTx by (simp add: markSendOutcome_def readClock_def)

lemma attDom_verify:
  assumes "faithful (pf_lib P)" and "verifyAttempt P C cred ad ops a w = (r, v)"
  shows "attDom (stateOf v) = attDom (stateOf w)"
  using assms(2) attDom_outcome [OF assms(1), of C a _ _ _ "tick1 w" r v]
    attDom_commit [where w = "tick1 (tick1 w)" and r = r and v = v, OF assms(1) _ attDom_verifyTx]
  by (auto simp: verifyAttempt_def readQuota_def readClock_def split: sum.splits)

lemma recoverAttempt_keeps:
  assumes F: "faithful (pf_lib P)" and run: "recoverAttempt P C cred ad ops a w = (r, v)"
    and l: "launched (pa_ID a) (stateOf w)"
  shows "keepsW w v \<and> attDom (stateOf v) = attDom (stateOf w)"
proof -
  have v: "keepsW w v' \<and> attDom (stateOf v') = attDom (stateOf w)"
    if "verifyAttempt P C cred ad ops a u = (r', v')" "stateOf u = stateOf w" for u r' v'
    using verifyAttempt_keeps [OF F that(1)] attDom_verify [OF F that(1)] that(2) l by simp
  show ?thesis
    using run v by (auto simp: recoverAttempt_def readClock_def split: if_splits option.splits)
qed

lemma stored_launched:
  assumes "stateOK s" and "fmlookup (ps_Attempts s) i = Some a" and "pa_Phase a \<noteq> AttemptPrepared"
  shows "launched (pa_ID a) s"
proof -
  have "pa_ID a = i" using assms(1,2) by (simp add: stateOK_def attemptsOK_def attemptOK_def)
  with assms(2,3) show ?thesis by (simp add: launched_def)
qed

lemma recoverLoop_keeps:
  assumes F: "faithful (pf_lib P)"
  shows "recoverLoop P C cred ad ops ids w = (r, v) \<Longrightarrow> stateOK (stateOf w) \<Longrightarrow> distinct ids \<Longrightarrow>
    set ids \<subseteq> attDom (stateOf w) \<Longrightarrow> keepsW w v"
proof (induction ids arbitrary: w)
  case (Cons i ids)
  have c: "cloneState (pf_lib P) s = s" for s using F by (simp add: faithful_def)
  obtain a where a: "fmlookup (ps_Attempts (stateOf w)) i = Some a"
    using Cons.prems(4) by (auto simp: attDom_def fmlookup_dom_iff)
  have aOK: "attemptOK (stateOf w) i a" using Cons.prems(2) a by (simp add: stateOK_def attemptsOK_def)
  have get: "getOr zeroAttempt (ps_Attempts (snapshot (pf_lib P) (w_store w))) i = a"
    using a by (simp add: snapshot_def c getOr_def)
  have tail: "keepsW w v"
    if k: "keepsW w u" and d: "attDom (stateOf w) - {i} \<subseteq> attDom (stateOf u)"
      and rest: "(case x of Some e \<Rightarrow> (Some e, u) | None \<Rightarrow> recoverLoop P C cred ad ops ids u) = (r, v)" for x u
  proof (cases x)
    case None
    have "stateOK (stateOf u)" using k Cons.prems(2) by (simp add: keeps_def)
    moreover have "set ids \<subseteq> attDom (stateOf u)" using d Cons.prems(3,4) by auto
    ultimately have "keepsW u v" using Cons.IH [of u] rest None Cons.prems(3) by simp
    with k show ?thesis by (rule keeps_trans)
  qed (use k rest in simp)
  consider (prepared) "pa_Phase a = AttemptPrepared" | (sending) "pa_Phase a = AttemptSending"
    | (other) "pa_Phase a \<noteq> AttemptPrepared" "pa_Phase a \<noteq> AttemptSending" by blast
  then show ?case
  proof cases
    case prepared
    let ?tx = "dropPreparedTx (ctl_nowAt C (w_n w)) i a"
    obtain x u where x: "commit P ?tx w = (x, u)" by fastforce
    have "keepsW w u"
      by (rule commit_keeps [OF F x dropPreparedTx_ok]) (use aOK in \<open>simp add: attemptOK_def\<close>)
    moreover have "attDom (stateOf w) - {i} \<subseteq> attDom (stateOf u)"
      by (rule faithful_commit [OF F x]) (auto simp: dropPreparedTx_def attDom_def)
    ultimately show ?thesis
      using Cons.prems(1) prepared x by (intro tail) (auto simp: get Let_def split: option.splits)
  next
    case sending
    let ?a = "a\<lparr>pa_Phase := AttemptSentUnknown\<rparr>"
    obtain x u where x: "markSendOutcome P C ?a AttemptSentUnknown ''unknown''
        (Some (ErrMsg ''recovered during send'')) w = (x, u)" by fastforce
    note ku = markSendOutcome_keeps [OF F x] attDom_outcome [OF F x]
    have "launched (pa_ID ?a) (stateOf w)" using stored_launched [OF Cons.prems(2) a] sending by simp
    from markSendOutcome_launched [OF F x _ this] have l: "launched (pa_ID ?a) (stateOf u)" by simp
    obtain y z where y: "recoverAttempt P C cred ad ops ?a u = (y, z)" by fastforce
    have z: "keepsW w z" "attDom (stateOf z) = attDom (stateOf w)"
      using recoverAttempt_keeps [OF F y l] ku by (auto intro: keeps_trans)
    show ?thesis
    proof (cases x)
      case None
      with Cons.prems(1) sending x y show ?thesis
        by (intro tail [OF z(1), of y]) (use z(2) in \<open>auto simp: get Let_def split: option.splits\<close>)
    next
      case (Some e)
      with Cons.prems(1) sending x ku(1) show ?thesis by (simp add: get Let_def)
    qed
  next
    case other
    obtain y z where y: "recoverAttempt P C cred ad ops a w = (y, z)" by fastforce
    have z: "keepsW w z" "attDom (stateOf z) = attDom (stateOf w)"
      using recoverAttempt_keeps [OF F y stored_launched [OF Cons.prems(2) a other(1)]] by simp_all
    with Cons.prems(1) other y show ?thesis
      by (intro tail [OF z(1), of y]) (auto simp: get Let_def split: option.splits)
  qed
qed simp

lemma inFlight_ids: "distinct (inFlight s ik)" "set (inFlight s ik) \<subseteq> attDom s"
  by (auto simp: inFlight_def attDom_def)

lemma recover_keeps:
  assumes "faithful (pf_lib P)" and "stateOK (stateOf w)" and "recover P C cred ad ops w = (r, v)"
  shows "keepsW w v"
proof -
  have "snapshot (pf_lib P) (w_store w) = stateOf w" using assms(1) by (simp add: snapshot_def faithful_def)
  then show ?thesis
    using assms(3) recoverLoop_keeps [OF assms(1) _ _ inFlight_ids(1), of _ _ _ _ _ _ "tick1 w"] inFlight_ids(2) assms(2)
    by (auto simp: recover_def split: sum.splits)
qed

lemma runOp_keeps:
  assumes "faithful (pf_lib P)" and "stateOK (stateOf w)"
  shows "keepsW w (snd (runOp P x w))"
proof (cases x)
  case (OpTick C cred adapter)
  then show ?thesis using tick_keeps [OF assms surjective_pairing] by simp
next
  case (OpRecover C cred ad ops)
  then show ?thesis using recover_keeps [OF assms surjective_pairing] by simp
next
  case (OpBlock cred reason)
  then show ?thesis
    using commit_keeps [OF assms(1) surjective_pairing markCredentialStateTx_ok]
    by (simp add: blockCredential_def markCredentialState_def)
qed



end
