(* ===== verification/GoText.thy ===== *)
theory GoText
  imports GoBase
begin

text \<open>
  The part of Go's \<open>strings\<close> and \<open>unicode/utf8\<close> the adapters and the plugin use, on byte
  strings: trimming, splitting, case folding against ASCII constants, UTF-8.
\<close>

section \<open>UTF-8\<close>

abbreviation byte :: "int \<Rightarrow> char" where
  "byte n \<equiv> char_of n"

abbreviation code :: "char \<Rightarrow> int" where
  "code c \<equiv> of_char c"

text \<open>\<open>utf8.AppendRune\<close> on a code point in range.\<close>

definition encodeRune :: "int \<Rightarrow> string" where
  "encodeRune r =
     (if r < 0x80 then [byte r]
      else if r < 0x800 then [byte (0xC0 + r div 64), byte (0x80 + r mod 64)]
      else if r < 0x10000 then
        [byte (0xE0 + r div 4096), byte (0x80 + r div 64 mod 64), byte (0x80 + r mod 64)]
      else
        [byte (0xF0 + r div 262144), byte (0x80 + r div 4096 mod 64), byte (0x80 + r div 64 mod 64),
         byte (0x80 + r mod 64)])"

definition between :: "int \<Rightarrow> int \<Rightarrow> char \<Rightarrow> bool" where
  "between lo hi c \<longleftrightarrow> lo \<le> code c \<and> code c \<le> hi"

text \<open>
  The length of the valid encoding a text starts with: the table of accepted ranges of
  \<open>utf8.DecodeRune\<close>. 0 when the first byte starts none (Go reads U+FFFD, of width 1).
\<close>

definition runeTail :: "int \<Rightarrow> (int \<times> int) list option" where
  "runeTail n =
     (let c = (0x80, 0xBF)
      in if n < 0x80 then Some []
         else if n < 0xC2 then None
         else if n \<le> 0xDF then Some [c]
         else if n = 0xE0 then Some [(0xA0, 0xBF), c]
         else if n = 0xED then Some [(0x80, 0x9F), c]
         else if n \<le> 0xEF then Some [c, c]
         else if n = 0xF0 then Some [(0x90, 0xBF), c, c]
         else if n \<le> 0xF3 then Some [c, c, c]
         else if n = 0xF4 then Some [(0x80, 0x8F), c, c]
         else None)"

fun inRanges :: "(int \<times> int) list \<Rightarrow> string \<Rightarrow> bool" where
  "inRanges [] s = True"
| "inRanges (r # rs) [] = False"
| "inRanges (r # rs) (a # s) = (between (fst r) (snd r) a \<and> inRanges rs s)"

fun runeLength :: "string \<Rightarrow> nat" where
  "runeLength [] = 0"
| "runeLength (a # s) =
     (case runeTail (code a) of
        None \<Rightarrow> 0
      | Some rs \<Rightarrow> if inRanges rs s then Suc (length rs) else 0)"

function validUTF8 :: "string \<Rightarrow> bool" where
  "validUTF8 [] = True"
| "validUTF8 (a # s) = (runeLength (a # s) \<noteq> 0 \<and> validUTF8 (drop (runeLength (a # s) - 1) s))"
  by pat_completeness auto
termination by (relation "measure length") (simp_all add: le_imp_less_Suc del: runeLength.simps)

declare validUTF8.simps(2) [simp del]

lemma inRanges_length: "inRanges rs s \<Longrightarrow> length rs \<le> length s"
  by (induction rs s rule: inRanges.induct) auto

lemma runeLength_bound: "runeLength s \<le> length s"
  by (cases s) (auto dest: inRanges_length split: option.splits)

lemma runeLength_ascii: "code a < 0x80 \<Longrightarrow> runeLength (a # s) = 1"
  by (simp add: runeTail_def Let_def)

lemma validUTF8_ascii: "code a < 0x80 \<Longrightarrow> validUTF8 (a # s) = validUTF8 s"
  by (simp add: validUTF8.simps(2) runeLength_ascii del: runeLength.simps)

section \<open>Trimming\<close>

text \<open>
  The white space of Unicode, encoded. A text that starts (ends) with one of these encodings
  starts (ends) with that rune for \<open>DecodeRune\<close> (\<open>DecodeLastRune\<close>) too, since the first
  byte of each is the start of a rune.
\<close>

definition spaceRunes :: "string list" where
  "spaceRunes = map encodeRune ([9, 10, 11, 12, 13, 32, 0x85, 0xA0, 0x1680] @ [0x2000 .. 0x200A] @
     [0x2028, 0x2029, 0x202F, 0x205F, 0x3000])"

function trimLeftOf :: "string list \<Rightarrow> string \<Rightarrow> string" where
  "trimLeftOf rs s =
     (case find (\<lambda>r. r \<noteq> [] \<and> prefix r s) rs of
        None \<Rightarrow> s
      | Some r \<Rightarrow> trimLeftOf rs (drop (length r) s))"
  by pat_completeness auto
termination
  by (relation "measure (\<lambda>(rs, s). length s)")
    (auto simp: find_Some_iff dest!: prefix_length_le intro!: diff_less)

declare trimLeftOf.simps [simp del]

definition trimSpace :: "string \<Rightarrow> string" where
  "trimSpace s = rev (trimLeftOf (map rev spaceRunes) (rev (trimLeftOf spaceRunes s)))"

definition trimRightChar :: "char \<Rightarrow> string \<Rightarrow> string" where
  "trimRightChar c s = rev (dropWhile (\<lambda>x. x = c) (rev s))"

definition trimChar :: "char \<Rightarrow> string \<Rightarrow> string" where
  "trimChar c s = trimRightChar c (dropWhile (\<lambda>x. x = c) s)"

lemma trimLeftOf_done: "find (\<lambda>r. r \<noteq> [] \<and> prefix r s) rs = None \<Longrightarrow> trimLeftOf rs s = s"
  by (subst trimLeftOf.simps) simp

lemma trimLeftOf_result: "find (\<lambda>r. r \<noteq> [] \<and> prefix r (trimLeftOf rs s)) rs = None"
proof (induction rs s rule: trimLeftOf.induct)
  case (1 rs s)
  show ?case
  proof (cases "find (\<lambda>r. r \<noteq> [] \<and> prefix r s) rs")
    case None
    then show ?thesis by (simp add: trimLeftOf_done)
  next
    case (Some r)
    then have "trimLeftOf rs s = trimLeftOf rs (drop (length r) s)" by (subst trimLeftOf.simps) simp
    with 1 [OF Some] show ?thesis by simp
  qed
qed

lemma trimLeftOf_suffix: "suffix (trimLeftOf rs s) s"
proof (induction rs s rule: trimLeftOf.induct)
  case (1 rs s)
  show ?case
  proof (cases "find (\<lambda>r. r \<noteq> [] \<and> prefix r s) rs")
    case None
    then show ?thesis by (simp add: trimLeftOf_done)
  next
    case (Some r)
    then have "trimLeftOf rs s = trimLeftOf rs (drop (length r) s)" by (subst trimLeftOf.simps) simp
    with 1 [OF Some] show ?thesis by (metis suffix_drop suffix_order.trans)
  qed
qed

lemma trimSpace_Nil [simp]: "trimSpace [] = []"
  by (simp add: trimSpace_def trimLeftOf_done spaceRunes_def encodeRune_def find_None_iff)

section \<open>Splitting and joining\<close>

text \<open>\<open>strings.Split\<close> at a one-byte separator: never an empty list.\<close>

fun splitAt :: "char \<Rightarrow> string \<Rightarrow> string list" where
  "splitAt c [] = [[]]"
| "splitAt c (a # s) =
     (if a = c then [] # splitAt c s
      else case splitAt c s of [] \<Rightarrow> [[a]] | p # ps \<Rightarrow> (a # p) # ps)"

fun joinWith :: "string \<Rightarrow> string list \<Rightarrow> string" where
  "joinWith sep [] = []"
| "joinWith sep [p] = p"
| "joinWith sep (p # ps) = p @ sep @ joinWith sep ps"

lemma splitAt_nonempty [simp]: "splitAt c s \<noteq> []"
  by (induction s) (auto split: list.splits)

lemma join_split: "joinWith [c] (splitAt c s) = s"
proof (induction s)
  case (Cons a s)
  obtain p ps where "splitAt c s = p # ps" by (cases "splitAt c s") auto
  with Cons show ?case by (cases ps) auto
qed simp

definition containsText :: "string \<Rightarrow> string \<Rightarrow> bool" where
  "containsText s sub \<longleftrightarrow> indexOf sub s \<noteq> None"

section \<open>Letter case\<close>

definition asciiUpper :: "char \<Rightarrow> char" where
  "asciiUpper c = (if between 97 122 c then byte (code c - 32) else c)"

text \<open>
  Case mapping with the non-ASCII runes that map into ASCII: what the mapped text compares
  to, or contains of, an ASCII constant is exact (a non-ASCII rune that maps to another
  one is left alone, and never equals ASCII text).
\<close>

fun mapRunes :: "(string \<times> char) list \<Rightarrow> (char \<Rightarrow> char) \<Rightarrow> string \<Rightarrow> string" where
  "mapRunes special f [] = []"
| "mapRunes special f (a # s) =
     (case find (\<lambda>(r, b). prefix r (a # s)) special of
        Some (r, b) \<Rightarrow> b # mapRunes special f (drop (length r - 1) s)
      | None \<Rightarrow> f a # mapRunes special f s)"

text \<open>
  \<open>strings.ToLower\<close>: U+0130 and U+212A (the Kelvin sign) map to i and k.
  \<open>strings.ToUpper\<close>: U+0131 and U+017F (the long s) map to I and S.
  \<open>strings.EqualFold\<close>: U+212A folds with k and U+017F with s.
\<close>

definition toLowerASCII :: "string \<Rightarrow> string" where
  "toLowerASCII = mapRunes [(encodeRune 0x130, CHR ''i''), (encodeRune 0x212A, CHR ''k'')] asciiLower"

definition toUpperASCII :: "string \<Rightarrow> string" where
  "toUpperASCII = mapRunes [(encodeRune 0x131, CHR ''I''), (encodeRune 0x17F, CHR ''S'')] asciiUpper"

definition foldASCII :: "string \<Rightarrow> string" where
  "foldASCII = mapRunes [(encodeRune 0x212A, CHR ''k''), (encodeRune 0x17F, CHR ''s'')] asciiLower"

definition equalFold :: "string \<Rightarrow> string \<Rightarrow> bool" where
  "equalFold s t \<longleftrightarrow> foldASCII s = foldASCII t"


lemma text_samples:
  "trimSpace ([byte 9] @ ''  a b '' @ [byte 10]) = ''a b''"
  "trimSpace ([byte 0xC2, byte 0xA0] @ ''x'' @ encodeRune 0x3000) = ''x''"
  "splitAt CHR ''.'' ''a.b.'' = [''a'', ''b'', '''']"
  "equalFold ''CoDex'' ''codex''" "equalFold (encodeRune 0x212A @ ''imi'') ''kimi''"
  "\<not> equalFold ''kimi2'' ''kimi''" "toUpperASCII ''Hours'' = ''HOURS''"
  "toLowerASCII (''Wee'' @ encodeRune 0x212A) = ''week''"
  "validUTF8 (encodeRune 0x3000 @ ''a'')" "\<not> validUTF8 [byte 0xED, byte 0xA0, byte 0x80]"
  by code_simp+

end
