(* ===== verification/GoFloat.thy ===== *)
theory GoFloat
  imports GoText
begin

text \<open>
  Go's \<open>float64\<close>: IEEE 754 double precision with rounding to nearest, ties to even, on
  exact rational values. The sign of a zero is not kept (nothing in the program divides, and
  \<open>==\<close> does not see it). The conversion to \<open>int64\<close> of a value out of range is left to the
  implementation by the language; the two that Go compiles this plugin for are written out.
  \<open>parseFloat\<close> is \<open>strconv.ParseFloat(s, 64)\<close>.
\<close>

section \<open>Rounding\<close>

definition pow2 :: "int \<Rightarrow> rat" where
  "pow2 e = (if 0 \<le> e then of_int (2 ^ nat e) else 1 / of_int (2 ^ nat (- e)))"

lemma pow2_pos [simp]: "0 < pow2 e" "0 \<le> pow2 e" "pow2 e \<noteq> 0"
  by (simp_all add: pow2_def)

lemma pow2_Suc: "pow2 (e + 1) = 2 * pow2 e"
proof -
  consider "0 \<le> e" | "e = -1" | "e < -1" by linarith
  then show ?thesis
  proof cases
    case 1
    then have "nat (e + 1) = Suc (nat e)" by simp
    with 1 show ?thesis by (simp add: pow2_def)
  next
    case 2
    then show ?thesis by (simp add: pow2_def)
  next
    case 3
    then have "nat (- e) = Suc (nat (- (e + 1)))" by simp
    with 3 show ?thesis by (simp add: pow2_def)
  qed
qed

fun bitLength :: "int \<Rightarrow> int" where
  "bitLength n = (if n \<le> 0 then 0 else 1 + bitLength (n div 2))"

declare bitLength.simps [simp del]

text \<open>The exponent of the leading bit of a positive rational.\<close>

definition leadingBit :: "rat \<Rightarrow> int" where
  "leadingBit x = (case quotient_of x of (p, q) \<Rightarrow>
     (let k = bitLength p - bitLength q in if pow2 k \<le> x then k else k - 1))"

text \<open>Round to an integer, half to even.\<close>

definition roundEven :: "rat \<Rightarrow> int" where
  "roundEven x =
     (let f = \<lfloor>x\<rfloor>; d = x - of_int f
      in if d < 1 / 2 then f else if 1 / 2 < d then f + 1 else if even f then f else f + 1)"

text \<open>The significand is at most \<open>2 ^ 53\<close>; the rounded value overflows from \<open>2 ^ 1024\<close> on.\<close>

definition roundFloat :: "rat \<Rightarrow> float64" where
  "roundFloat x =
     (if x = 0 then FFin 0
      else
        (let e = max (leadingBit \<bar>x\<bar> - 52) (- 1074);
             n = roundEven (\<bar>x\<bar> / pow2 e);
             v = of_int n * pow2 e
         in if 971 < e \<or> e = 971 \<and> n = 2 ^ 53 then FInf (x < 0)
            else FFin (if x < 0 then - v else v)))"

lemma roundEven_int [simp]: "roundEven (of_int n) = n"
  by (simp add: roundEven_def Let_def)

lemma roundEven_0_iff: "0 \<le> x \<Longrightarrow> roundEven x = 0 \<longleftrightarrow> x \<le> 1 / 2"
proof -
  assume "0 \<le> x"
  then have f: "0 \<le> \<lfloor>x\<rfloor>" by simp
  have le: "of_int \<lfloor>x\<rfloor> \<le> x" "x < of_int \<lfloor>x\<rfloor> + 1" by linarith+
  show ?thesis
  proof (cases "\<lfloor>x\<rfloor> = 0")
    case True
    then show ?thesis by (simp add: roundEven_def Let_def)
  next
    case False
    with f have "1 \<le> \<lfloor>x\<rfloor>" by linarith
    then have "1 \<le> x" using le(1) by linarith
    with \<open>1 \<le> \<lfloor>x\<rfloor>\<close> show ?thesis
      by (simp add: roundEven_def Let_def) linarith?
  qed
qed

section \<open>Arithmetic and comparison\<close>

text \<open>The operations the program performs, each on a finite constant and a variable.\<close>

fun floatSub :: "float64 \<Rightarrow> float64 \<Rightarrow> float64" where
  "floatSub (FFin x) (FFin y) = roundFloat (x - y)"
| "floatSub (FFin x) (FInf s) = FInf (\<not> s)"
| "floatSub (FInf s) (FFin y) = FInf s"
| "floatSub (FInf s) (FInf t) = (if s = t then FNaN else FInf s)"
| "floatSub _ _ = FNaN"

fun floatMul :: "float64 \<Rightarrow> float64 \<Rightarrow> float64" where
  "floatMul (FFin x) (FFin y) = roundFloat (x * y)"
| "floatMul (FFin x) (FInf s) = (if x = 0 then FNaN else FInf (s \<noteq> (x < 0)))"
| "floatMul (FInf s) (FFin y) = (if y = 0 then FNaN else FInf (s \<noteq> (y < 0)))"
| "floatMul (FInf s) (FInf t) = FInf (s \<noteq> t)"
| "floatMul _ _ = FNaN"

definition floatIsZero :: "float64 \<Rightarrow> bool" where
  "floatIsZero x \<longleftrightarrow> x = FFin 0"

fun floatPositive :: "float64 \<Rightarrow> bool" where
  "floatPositive (FFin x) = (0 < x)"
| "floatPositive (FInf s) = (\<not> s)"
| "floatPositive FNaN = False"

section \<open>Conversion to int64\<close>

datatype goarch = AMD64 | ARM64

definition truncate :: "rat \<Rightarrow> int" where
  "truncate x = (if x < 0 then - \<lfloor>- x\<rfloor> else \<lfloor>x\<rfloor>)"

text \<open>
  \<open>CVTTSD2SQ\<close> gives the smallest integer for everything out of range; \<open>FCVTZS\<close>
  saturates and gives 0 for NaN.
\<close>

fun toInt64 :: "goarch \<Rightarrow> float64 \<Rightarrow> int" where
  "toInt64 arch (FFin x) =
     (let n = truncate x
      in if minInt64 \<le> n \<and> n \<le> maxInt64 then n
         else if arch = AMD64 \<or> n < 0 then minInt64 else maxInt64)"
| "toInt64 arch (FInf s) = (if arch = AMD64 \<or> s then minInt64 else maxInt64)"
| "toInt64 arch FNaN = (if arch = AMD64 then minInt64 else 0)"

lemma toInt64_range: "minInt64 \<le> toInt64 arch x" "toInt64 arch x \<le> maxInt64"
  by (cases x; simp add: Let_def)+

lemma toInt64_integer:
  "minInt64 \<le> n \<Longrightarrow> n \<le> maxInt64 \<Longrightarrow> toInt64 arch (FFin (of_int n)) = n"
  by (simp add: Let_def truncate_def flip: of_int_minus)

section \<open>strconv.ParseFloat\<close>

definition isDigit :: "char \<Rightarrow> bool" where
  "isDigit c \<longleftrightarrow> between 48 57 c"

definition digitVal :: "char \<Rightarrow> int" where
  "digitVal c = code c - 48"

definition hexVal :: "char \<Rightarrow> int option" where
  "hexVal c =
     (if isDigit c then Some (code c - 48)
      else if between 97 102 c then Some (code c - 87)
      else if between 65 70 c then Some (code c - 55)
      else None)"

definition natOf :: "string \<Rightarrow> int" where
  "natOf ds = fold (\<lambda>c n. n * 10 + digitVal c) ds 0"

text \<open>The exponent stops growing at five digits, as in \<open>readFloat\<close>.\<close>

definition exponentOf :: "string \<Rightarrow> int" where
  "exponentOf ds = fold (\<lambda>c n. if n < 10000 then n * 10 + digitVal c else n) ds 0"

definition pow10 :: "int \<Rightarrow> rat" where
  "pow10 e = (if 0 \<le> e then of_int (10 ^ nat e) else 1 / of_int (10 ^ nat (- e)))"

text \<open>An optional sign; \<open>None\<close> when no digit follows.\<close>

definition readExponent :: "string \<Rightarrow> int option" where
  "readExponent s =
     (let (sgn, ds) = (case s of c # r \<Rightarrow> if c = CHR ''-'' then (- 1, r)
                                        else if c = CHR ''+'' then (1, r) else (1, s)
                        | [] \<Rightarrow> (1, []))
      in if ds \<noteq> [] \<and> list_all isDigit ds then Some (sgn * exponentOf ds) else None)"

text \<open>The digits before and after the decimal point, and what follows them.\<close>

definition splitDigits :: "(char \<Rightarrow> bool) \<Rightarrow> string \<Rightarrow> string \<times> string \<times> string" where
  "splitDigits ok s =
     (let ip = takeWhile ok s; r = dropWhile ok s
      in case r of
           c # r' \<Rightarrow> if c = CHR ''.'' then (ip, takeWhile ok r', dropWhile ok r') else (ip, [], r)
         | [] \<Rightarrow> (ip, [], []))"

definition decimalValue :: "string \<Rightarrow> rat option" where
  "decimalValue s =
     (let (ip, fp, r) = splitDigits isDigit s
      in if ip = [] \<and> fp = [] then None
         else
           (let m = of_int (natOf (ip @ fp)); k = int (length fp)
            in case r of
                 [] \<Rightarrow> Some (m * pow10 (- k))
               | c # r' \<Rightarrow>
                   (if c = CHR ''e'' \<or> c = CHR ''E''
                    then map_option (\<lambda>e. m * pow10 (e - k)) (readExponent r') else None)))"

text \<open>Hexadecimal: the binary exponent is required.\<close>

definition hexValue :: "string \<Rightarrow> rat option" where
  "hexValue s =
     (let (ip, fp, r) = splitDigits (\<lambda>c. hexVal c \<noteq> None) s;
          m = fold (\<lambda>c n. n * 16 + (case hexVal c of Some d \<Rightarrow> d | None \<Rightarrow> 0)) (ip @ fp) 0
      in if ip = [] \<and> fp = [] then None
         else case r of
                [] \<Rightarrow> None
              | c # r' \<Rightarrow>
                  (if c = CHR ''p'' \<or> c = CHR ''P''
                   then map_option (\<lambda>e. of_int m * pow2 (e - 4 * int (length fp))) (readExponent r')
                   else None))"

definition unsignedFloat :: "string \<Rightarrow> float64 option" where
  "unsignedFloat s =
     (let l = map asciiLower s
      in if l = ''inf'' \<or> l = ''infinity'' then Some (FInf False)
         else
           (let v = (if prefix ''0x'' l then hexValue (drop 2 s) else decimalValue s)
            in case v of
                 None \<Rightarrow> None
               | Some x \<Rightarrow> (case roundFloat x of FFin y \<Rightarrow> Some (FFin y) | _ \<Rightarrow> None)))"

fun floatNeg :: "float64 \<Rightarrow> float64" where
  "floatNeg (FFin x) = FFin (- x)"
| "floatNeg (FInf s) = FInf (\<not> s)"
| "floatNeg FNaN = FNaN"

definition signedFloat :: "string \<Rightarrow> float64 option" where
  "signedFloat s =
     (case s of
        [] \<Rightarrow> None
      | c # r \<Rightarrow>
          (if c = CHR ''-'' then map_option floatNeg (unsignedFloat r)
           else if c = CHR ''+'' then unsignedFloat r else unsignedFloat s))"

text \<open>
  \<open>underscoreOK\<close>: an underscore stands between digits, or between the base prefix and a digit.
  The first argument of the loop says whether the last character was a digit.
\<close>

fun underscoresIn :: "(char \<Rightarrow> bool) \<Rightarrow> bool \<Rightarrow> string \<Rightarrow> bool" where
  "underscoresIn ok digitBefore [] = True"
| "underscoresIn ok digitBefore (c # s) =
     (if c = CHR ''_''
      then digitBefore \<and> (case s of [] \<Rightarrow> False | d # _ \<Rightarrow> ok d) \<and> underscoresIn ok False s
      else underscoresIn ok (ok c) s)"

definition underscoreOK :: "string \<Rightarrow> bool" where
  "underscoreOK s =
     (let u = (case s of c # r \<Rightarrow> if c = CHR ''-'' \<or> c = CHR ''+'' then r else s | [] \<Rightarrow> []);
          p = take 2 (map asciiLower u)
      in if p = ''0x'' then underscoresIn (\<lambda>c. hexVal c \<noteq> None) True (drop 2 u)
         else if p = ''0b'' \<or> p = ''0o'' then underscoresIn isDigit True (drop 2 u)
         else underscoresIn isDigit False u)"

text \<open>\<open>None\<close> for the two errors, bad syntax and out of range.\<close>

definition parseFloat :: "string \<Rightarrow> float64 option" where
  "parseFloat s =
     (if map asciiLower s = ''nan'' then Some FNaN
      else if CHR ''_'' \<in> set s then
        (if underscoreOK s then signedFloat (filter (\<lambda>c. c \<noteq> CHR ''_'') s) else None)
      else signedFloat s)"

lemma float_samples:
  "parseFloat ''0.1'' = Some (FFin (3602879701896397 / 36028797018963968))"
  "parseFloat ''-12.5e1'' = Some (FFin (- 125))"
  "parseFloat ''0x1p-2'' = Some (FFin (1 / 4))" "parseFloat ''NaN'' = Some FNaN"
  "parseFloat ''+Inf'' = Some (FInf False)" "parseFloat ''1_0'' = Some (FFin 10)"
  "parseFloat ''1__0'' = None" "parseFloat ''0x_1_fp0'' = Some (FFin 31)" "parseFloat ''.'' = None"
  "floatMul (FFin 100) (floatSub (FFin 1) (FFin (1 / 2))) = FFin 50"
  "toInt64 AMD64 (FFin 100000000000000000000) = minInt64" "toInt64 ARM64 (FFin 100000000000000000000) = maxInt64"
  by code_simp+

end
