(* ===== verification/GoParse.thy ===== *)
theory GoParse
  imports GoFloat GoTime "HOL-Library.Monad_Syntax"
begin

text \<open>
  Go's \<open>time.Parse\<close> for the layouts \<open>RFC3339\<close> and \<open>RFC3339Nano\<close>, and \<open>time.ParseDuration\<close>.
  The two layouts accept the same texts: after the seconds, a fraction is read whether the layout
  has one or not.
\<close>

section \<open>The calendar\<close>

definition daysBeforeYear :: "int \<Rightarrow> int" where
  "daysBeforeYear y = 365 * (y - 1) + (y - 1) div 4 - (y - 1) div 100 + (y - 1) div 400"

definition daysFromCivil :: "int \<Rightarrow> int \<Rightarrow> int \<Rightarrow> int" where
  "daysFromCivil y m d =
     daysBeforeYear y + sum_list (take (nat (m - 1)) (monthLengths (isLeap y))) + d - 1"

definition daysIn :: "int \<Rightarrow> int \<Rightarrow> int" where
  "daysIn y m = monthLengths (isLeap y) ! nat (m - 1)"

section \<open>time.Parse\<close>

text \<open>\<open>getnum\<close> and the four digits of a year.\<close>

definition fixedDigits :: "nat \<Rightarrow> string \<Rightarrow> (int \<times> string) option" where
  "fixedDigits n s =
     (if n \<le> length s \<and> list_all isDigit (take n s) then Some (natOf (take n s), drop n s) else None)"

definition oneOrTwoDigits :: "string \<Rightarrow> (int \<times> string) option" where
  "oneOrTwoDigits s = (case fixedDigits 2 s of Some r \<Rightarrow> Some r | None \<Rightarrow> fixedDigits 1 s)"

definition skipText :: "string \<Rightarrow> string \<Rightarrow> string option" where
  "skipText p s = (if prefix p s then Some (drop (length p) s) else None)"

definition inRange :: "int \<Rightarrow> int \<Rightarrow> int \<Rightarrow> unit option" where
  "inRange lo hi n = (if lo \<le> n \<and> n \<le> hi then Some () else None)"

text \<open>A point or a comma and digits; those after the ninth are dropped.\<close>

definition fraction :: "string \<Rightarrow> int \<times> string" where
  "fraction s =
     (case s of
        c # d # r \<Rightarrow>
          (if (c = CHR ''.'' \<or> c = CHR '','') \<and> isDigit d then
             (let ds = take 9 (takeWhile isDigit (d # r))
              in (natOf ds * 10 ^ (9 - length ds), dropWhile isDigit (d # r)))
           else (0, s))
      | _ \<Rightarrow> (0, s))"

text \<open>\<open>Z07:00\<close>: the offset in seconds; hour 24 and minute 60 are let through.\<close>

definition zoneOffset :: "string \<Rightarrow> (int \<times> string) option" where
  "zoneOffset s =
     (case s of
        [] \<Rightarrow> None
      | c # r \<Rightarrow>
          (if c = CHR ''Z'' then Some (0, r)
           else do {
             sgn \<leftarrow> (if c = CHR ''+'' then Some 1 else if c = CHR ''-'' then Some (- 1) else None);
             (h, r) \<leftarrow> fixedDigits 2 r;
             r \<leftarrow> skipText '':'' r;
             (m, r) \<leftarrow> fixedDigits 2 r;
             inRange 0 24 h;
             inRange 0 60 m;
             Some (sgn * (h * 3600 + m * 60), r)
           }))"

definition instantOf :: "int \<Rightarrow> int \<Rightarrow> int \<Rightarrow> int \<Rightarrow> int \<Rightarrow> int \<Rightarrow> int \<Rightarrow> time" where
  "instantOf y mo d h mi s ns =
     (daysFromCivil y mo d * 86400 + h * 3600 + mi * 60 + s) * 1000000000 + ns"

definition parseRFC3339 :: "string \<Rightarrow> time option" where
  "parseRFC3339 s = do {
     (y, s) \<leftarrow> fixedDigits 4 s;
     s \<leftarrow> skipText ''-'' s;
     (mo, s) \<leftarrow> fixedDigits 2 s;
     inRange 1 12 mo;
     s \<leftarrow> skipText ''-'' s;
     (d, s) \<leftarrow> fixedDigits 2 s;
     s \<leftarrow> skipText ''T'' s;
     (h, s) \<leftarrow> oneOrTwoDigits s;
     inRange 0 23 h;
     s \<leftarrow> skipText '':'' s;
     (mi, s) \<leftarrow> fixedDigits 2 s;
     inRange 0 59 mi;
     s \<leftarrow> skipText '':'' s;
     (sec, s) \<leftarrow> fixedDigits 2 s;
     inRange 0 59 sec;
     (let (ns, s) = fraction s
      in do {
        (zone, s) \<leftarrow> zoneOffset s;
        (if s = [] then Some () else None);
        inRange 1 (daysIn y mo) d;
        Some (instantOf y mo d h mi sec ns - zone * 1000000000)
      })
   }"

section \<open>time.ParseDuration\<close>

text \<open>\<open>quote\<close> of package time, for the error texts: other bytes than printable ASCII in hex.\<close>

definition quoteTime :: "string \<Rightarrow> string" where
  "quoteTime s = [CHR 0x22] @ concat (map (\<lambda>c.
     if code c < 32 \<or> 128 \<le> code c then [CHR 0x5C, CHR ''x''] @ hexByte c
     else if c = CHR 0x22 \<or> c = CHR 0x5C then [CHR 0x5C, c] else [c]) s) @ [CHR 0x22]"

definition invalidDuration :: "string \<Rightarrow> error" where
  "invalidDuration orig = ErrMsg (''time: invalid duration '' @ quoteTime orig)"

definition durationUnit :: "string \<Rightarrow> int option" where
  "durationUnit u =
     (if u = ''ns'' then Some 1
      else if u = ''us'' \<or> u = encodeRune 0xB5 @ ''s'' \<or> u = encodeRune 0x3BC @ ''s'' then Some 1000
      else if u = ''ms'' then Some 1000000
      else if u = ''s'' then Some second
      else if u = ''m'' then Some minute
      else if u = ''h'' then Some hour
      else None)"

text \<open>\<open>None\<close> past \<open>1 << 63\<close>.\<close>

fun leadingInt :: "int \<Rightarrow> string \<Rightarrow> int option" where
  "leadingInt x [] = Some x"
| "leadingInt x (c # s) =
     (let y = x * 10 + digitVal c
      in if 2 ^ 63 div 10 < x \<or> 2 ^ 63 < y then None else leadingInt y s)"

text \<open>The fraction's digits as far as they fit, and the power of ten they are scaled by.\<close>

fun leadingFraction :: "int \<Rightarrow> rat \<Rightarrow> string \<Rightarrow> int \<times> rat" where
  "leadingFraction x scale [] = (x, scale)"
| "leadingFraction x scale (c # s) =
     (let y = x * 10 + digitVal c
      in if maxInt64 div 10 < x \<or> 2 ^ 63 < y then (x, scale) else leadingFraction y (scale * 10) s)"

definition scaledFraction :: "int \<Rightarrow> int \<Rightarrow> rat \<Rightarrow> int" where
  "scaledFraction f unit scale =
     (case roundFloat (of_int unit / scale) of
        FFin q \<Rightarrow> (case floatMul (roundFloat (of_int f)) (FFin q) of FFin x \<Rightarrow> truncate x | _ \<Rightarrow> 0)
      | _ \<Rightarrow> 0)"

definition pointDigits :: "string \<Rightarrow> string \<times> string" where
  "pointDigits r =
     (case r of
        [] \<Rightarrow> ([], [])
      | c # r' \<Rightarrow> if c = CHR ''.'' then (takeWhile isDigit r', dropWhile isDigit r') else ([], r))"

definition inUnit :: "char \<Rightarrow> bool" where
  "inUnit c \<longleftrightarrow> \<not> (c = CHR ''.'' \<or> isDigit c)"

text \<open>One number with its unit: the nanoseconds it adds and the rest of the text.\<close>

definition durationStep :: "string \<Rightarrow> string \<Rightarrow> error + int \<times> string" where
  "durationStep orig s =
     (let ip = takeWhile isDigit s; r = dropWhile isDigit s;
          (fp, r) = pointDigits r;
          u = takeWhile inUnit r; rest = dropWhile inUnit r
      in case leadingInt 0 ip of
           None \<Rightarrow> Inl (invalidDuration orig)
         | Some v \<Rightarrow>
             (if ip = [] \<and> fp = [] then Inl (invalidDuration orig)
              else if u = [] then Inl (ErrMsg (''time: missing unit in duration '' @ quoteTime orig))
              else case durationUnit u of
                None \<Rightarrow> Inl (ErrMsg (''time: unknown unit '' @ quoteTime u @ '' in duration '' @ quoteTime orig))
              | Some unit \<Rightarrow>
                  (if 2 ^ 63 div unit < v then Inl (invalidDuration orig)
                   else
                     (let (f, scale) = leadingFraction 0 1 fp;
                          v' = v * unit + (if 0 < f then scaledFraction f unit scale else 0)
                      in if 2 ^ 63 < v' then Inl (invalidDuration orig) else Inr (v', rest)))))"

lemma pointDigits_length: "length (snd (pointDigits r)) \<le> length r"
  by (auto simp: pointDigits_def length_dropWhile_le le_SucI split: list.splits)

lemma durationStep_shorter:
  assumes "durationStep orig s = Inr (v, rest)"
  shows "length rest < length s"
proof -
  obtain fp r where r: "pointDigits (dropWhile isDigit s) = (fp, r)" by fastforce
  have "rest = dropWhile inUnit r \<and> takeWhile inUnit r \<noteq> []"
    using assms by (auto simp: durationStep_def Let_def r split: option.splits prod.splits if_splits)
  moreover have "length r = length (takeWhile inUnit r) + length (dropWhile inUnit r)"
    by (simp flip: length_append)
  moreover have "length r \<le> length (dropWhile isDigit s)"
    using pointDigits_length [of "dropWhile isDigit s"] r by simp
  moreover have "length (dropWhile isDigit s) \<le> length s" by (rule length_dropWhile_le)
  ultimately show ?thesis by (cases "takeWhile inUnit r") auto
qed

function durationLoop :: "string \<Rightarrow> int \<Rightarrow> string \<Rightarrow> error + int" where
  "durationLoop orig d s =
     (if s = [] then Inr d
      else if \<not> (hd s = CHR ''.'' \<or> isDigit (hd s)) then Inl (invalidDuration orig)
      else case durationStep orig s of
        Inl e \<Rightarrow> Inl e
      | Inr (v, rest) \<Rightarrow>
          (if 2 ^ 63 < d + v then Inl (invalidDuration orig) else durationLoop orig (d + v) rest))"
  by pat_completeness auto
termination
  by (relation "measure (\<lambda>(orig, d, s). length s)") (auto dest: durationStep_shorter)

declare durationLoop.simps [simp del]

definition parseDuration :: "string \<Rightarrow> error + duration" where
  "parseDuration orig =
     (let (neg, s) = (case orig of c # r \<Rightarrow> if c = CHR ''-'' then (True, r)
                                           else if c = CHR ''+'' then (False, r) else (False, orig)
                      | [] \<Rightarrow> (False, []))
      in if s = ''0'' then Inr 0
         else if s = [] then Inl (invalidDuration orig)
         else case durationLoop orig 0 s of
           Inl e \<Rightarrow> Inl e
         | Inr d \<Rightarrow>
             (if neg then Inr (- d)
              else if maxInt64 < d then Inl (invalidDuration orig) else Inr d))"

lemma parse_samples:
  "parseRFC3339 ''1970-01-01T05:33:20Z'' = Some (unixTime 20000)"
  "parseRFC3339 ''1970-01-01T7:33:20.25+02:00'' = Some (unixTime 20000 + 250000000)"
  "parseRFC3339 ''2023-02-29T00:00:00Z'' = None"
  "parseDuration ''1h30m'' = Inr (hour + 30 * minute)" "parseDuration ''-1.5s'' = Inr (- 1500000000)"
  "parseDuration ''60'' = Inl (ErrMsg (''time: missing unit in duration '' @ quoteTime ''60''))"
  by code_simp+

end
