(* ===== verification/GoJson.thy ===== *)
theory GoJson
  imports GoFloat GoTime
begin

text \<open>
  \<open>encoding/json\<close> on values of type \<open>any\<close>: \<open>parseJSON\<close> is what \<open>json.Unmarshal\<close> accepts and
  the value it gives, \<open>encodeJSON\<close> is \<open>json.Marshal\<close>. Like the library's scanner, the parser
  is a machine that reads the text once: \<open>lexStep\<close> on characters, \<open>parseStep\<close> on tokens, with
  a stack of the open arrays and objects, at most 10000 deep.

  An object holds one entry per key; of two entries of a text with the same key the later one
  stays. Numbers are \<open>float64\<close>.
\<close>

section \<open>Tokens\<close>

datatype jtoken =
    TOpenObj | TCloseObj | TOpenArr | TCloseArr | TColon | TComma
  | TStr string
  | TNum string
  | TWord json

datatype lexState = LIdle | LStr string | LEsc string | LHex string nat | LNum string | LWord string

text \<open>The grammar of numbers.\<close>

definition fractionOK :: "string \<Rightarrow> string option" where
  "fractionOK r =
     (case r of
        [] \<Rightarrow> Some []
      | c # r' \<Rightarrow>
          (if c = CHR ''.'' then (if takeWhile isDigit r' = [] then None else Some (dropWhile isDigit r'))
           else Some r))"

definition isNumber :: "string \<Rightarrow> bool" where
  "isNumber s =
     (let s1 = (case s of c # r \<Rightarrow> if c = CHR ''-'' then r else s | [] \<Rightarrow> []);
          ip = takeWhile isDigit s1
      in ip \<noteq> [] \<and> (ip = ''0'' \<or> hd ip \<noteq> CHR ''0'') \<and>
         (case fractionOK (dropWhile isDigit s1) of
            None \<Rightarrow> False
          | Some [] \<Rightarrow> True
          | Some (c # r) \<Rightarrow> (c = CHR ''e'' \<or> c = CHR ''E'') \<and> readExponent r \<noteq> None))"

definition numberChar :: "char \<Rightarrow> bool" where
  "numberChar c \<longleftrightarrow> isDigit c \<or> c \<in> set ''+-.eE''"

definition wordOf :: "string \<Rightarrow> json option" where
  "wordOf w =
     (if w = ''true'' then Some (JBool True) else if w = ''false'' then Some (JBool False)
      else if w = ''null'' then Some JNull else None)"

definition punctuation :: "char \<Rightarrow> jtoken option" where
  "punctuation c =
     (if c = CHR ''{'' then Some TOpenObj else if c = CHR ''}'' then Some TCloseObj
      else if c = CHR ''['' then Some TOpenArr else if c = CHR '']'' then Some TCloseArr
      else if c = CHR '':'' then Some TColon else if c = CHR '','' then Some TComma else None)"

definition isSpaceJSON :: "char \<Rightarrow> bool" where
  "isSpaceJSON c \<longleftrightarrow> c = CHR 0x20 \<or> c = CHR 0x09 \<or> c = CHR 0x0D \<or> c = CHR 0x0A"

section \<open>String contents\<close>

text \<open>\<open>getu4\<close>: four hexadecimal digits after a backslash and a u.\<close>

fun hexCode :: "int \<Rightarrow> string \<Rightarrow> int option" where
  "hexCode n [] = Some n"
| "hexCode n (c # s) = (case hexVal c of None \<Rightarrow> None | Some d \<Rightarrow> hexCode (n * 16 + d) s)"

definition getu4 :: "string \<Rightarrow> int option" where
  "getu4 s =
     (if prefix [CHR 0x5C, CHR ''u''] s \<and> 6 \<le> length s then hexCode 0 (take 4 (drop 2 s)) else None)"

definition surrogate :: "int \<Rightarrow> bool" where
  "surrogate r \<longleftrightarrow> 0xD800 \<le> r \<and> r \<le> 0xDFFF"

definition joinSurrogates :: "int \<Rightarrow> int option \<Rightarrow> int option" where
  "joinSurrogates r1 r2 =
     (case r2 of
        None \<Rightarrow> None
      | Some r2 \<Rightarrow>
          (if 0xD800 \<le> r1 \<and> r1 < 0xDC00 \<and> 0xDC00 \<le> r2 \<and> r2 < 0xE000
           then Some ((r1 - 0xD800) * 1024 + (r2 - 0xDC00) + 0x10000) else None))"

definition escapeValue :: "char \<Rightarrow> char" where
  "escapeValue c =
     (if c = CHR ''b'' then CHR 0x08 else if c = CHR ''f'' then CHR 0x0C
      else if c = CHR ''n'' then CHR 0x0A else if c = CHR ''r'' then CHR 0x0D
      else if c = CHR ''t'' then CHR 0x09 else c)"

definition replacement :: string where
  "replacement = [byte 0xEF, byte 0xBF, byte 0xBD]"

text \<open>\<open>unquoteBytes\<close>, on a text whose escapes the scanner has checked.\<close>

function unquote :: "string \<Rightarrow> string" where
  "unquote [] = []"
| "unquote (a # s) =
     (if a = CHR 0x5C then
        (case getu4 (a # s) of
           Some r \<Rightarrow>
             (if surrogate r then
                (case joinSurrogates r (getu4 (drop 5 s)) of
                   Some p \<Rightarrow> encodeRune p @ unquote (drop 11 s)
                 | None \<Rightarrow> replacement @ unquote (drop 5 s))
              else encodeRune r @ unquote (drop 5 s))
         | None \<Rightarrow> (case s of [] \<Rightarrow> [] | c # s' \<Rightarrow> escapeValue c # unquote s'))
      else if code a < 128 then a # unquote s
      else if runeLength (a # s) = 0 then replacement @ unquote s
      else take (runeLength (a # s)) (a # s) @ unquote (drop (runeLength (a # s) - 1) s))"
  by pat_completeness auto
termination
  by (relation "measure length") (simp_all add: le_imp_less_Suc del: runeLength.simps)

declare unquote.simps(2) [simp del]

section \<open>The lexer\<close>

definition startToken :: "char \<Rightarrow> (jtoken list \<times> lexState) option" where
  "startToken c =
     (if isSpaceJSON c then Some ([], LIdle)
      else if c = CHR 0x22 then Some ([], LStr [])
      else if c = CHR ''-'' \<or> isDigit c then Some ([], LNum [c])
      else if between 97 122 c then Some ([], LWord [c])
      else case punctuation c of Some t \<Rightarrow> Some ([t], LIdle) | None \<Rightarrow> None)"

text \<open>Text accumulates in reverse.\<close>

definition endNumber :: "string \<Rightarrow> jtoken list option" where
  "endNumber acc = (if isNumber (rev acc) then Some [TNum (rev acc)] else None)"

definition endWord :: "string \<Rightarrow> jtoken list option" where
  "endWord acc = map_option (\<lambda>v. [TWord v]) (wordOf (rev acc))"

definition endThen :: "jtoken list option \<Rightarrow> char \<Rightarrow> (jtoken list \<times> lexState) option" where
  "endThen ts c =
     (case ts of None \<Rightarrow> None | Some ts \<Rightarrow> map_option (\<lambda>(us, st). (ts @ us, st)) (startToken c))"

fun lexStep :: "lexState \<Rightarrow> char \<Rightarrow> (jtoken list \<times> lexState) option" where
  "lexStep LIdle c = startToken c"
| "lexStep (LStr acc) c =
     (if c = CHR 0x22 then Some ([TStr (unquote (rev acc))], LIdle)
      else if c = CHR 0x5C then Some ([], LEsc (c # acc))
      else if code c < 32 then None
      else Some ([], LStr (c # acc)))"
| "lexStep (LEsc acc) c =
     (if c = CHR ''u'' then Some ([], LHex (c # acc) 4)
      else if c \<in> set ''bfnrt/'' \<or> c = CHR 0x5C \<or> c = CHR 0x22 then Some ([], LStr (c # acc))
      else None)"
| "lexStep (LHex acc n) c =
     (if hexVal c = None then None
      else if n \<le> 1 then Some ([], LStr (c # acc)) else Some ([], LHex (c # acc) (n - 1)))"
| "lexStep (LNum acc) c =
     (if numberChar c then Some ([], LNum (c # acc)) else endThen (endNumber acc) c)"
| "lexStep (LWord acc) c =
     (if between 97 122 c then Some ([], LWord (c # acc)) else endThen (endWord acc) c)"

fun lexEnd :: "lexState \<Rightarrow> jtoken list option" where
  "lexEnd LIdle = Some []"
| "lexEnd (LNum acc) = endNumber acc"
| "lexEnd (LWord acc) = endWord acc"
| "lexEnd _ = None"

fun lexFrom :: "lexState \<Rightarrow> string \<Rightarrow> jtoken list option" where
  "lexFrom st [] = lexEnd st"
| "lexFrom st (c # s) =
     (case lexStep st c of
        None \<Rightarrow> None
      | Some (ts, st') \<Rightarrow> map_option ((@) ts) (lexFrom st' s))"

section \<open>The parser\<close>

datatype frame = FArr "json list" | FObj "(string \<times> json) list" string

datatype parseMode = MValue | MElemOrEnd | MKeyOrEnd | MKey | MColon string | MAfter | MDone json

type_synonym parseState = "parseMode \<times> frame list"

fun putEntry :: "string \<Rightarrow> json \<Rightarrow> (string \<times> json) list \<Rightarrow> (string \<times> json) list" where
  "putEntry k v [] = [(k, v)]"
| "putEntry k v (e # es) = (if fst e = k then (k, v) # es else e # putEntry k v es)"

fun complete :: "json \<Rightarrow> frame list \<Rightarrow> parseState" where
  "complete v [] = (MDone v, [])"
| "complete v (FArr vs # fs) = (MAfter, FArr (v # vs) # fs)"
| "complete v (FObj es k # fs) = (MAfter, FObj (putEntry k v es) k # fs)"

definition maxDepth :: nat where
  "maxDepth = 10000"

definition push :: "frame \<Rightarrow> parseMode \<Rightarrow> frame list \<Rightarrow> parseState option" where
  "push f m fs = (if length fs < maxDepth then Some (m, f # fs) else None)"

fun startValue :: "jtoken \<Rightarrow> frame list \<Rightarrow> parseState option" where
  "startValue (TStr s) fs = Some (complete (JStr s) fs)"
| "startValue (TNum t) fs = map_option (\<lambda>x. complete (JNum x) fs) (parseFloat t)"
| "startValue (TWord v) fs = Some (complete v fs)"
| "startValue TOpenArr fs = push (FArr []) MElemOrEnd fs"
| "startValue TOpenObj fs = push (FObj [] []) MKeyOrEnd fs"
| "startValue _ fs = None"

fun parseStep :: "jtoken \<Rightarrow> parseState \<Rightarrow> parseState option" where
  "parseStep t (MValue, fs) = startValue t fs"
| "parseStep TCloseArr (MElemOrEnd, FArr [] # fs) = Some (complete (JArr []) fs)"
| "parseStep t (MElemOrEnd, fs) = startValue t fs"
| "parseStep TCloseObj (MKeyOrEnd, FObj [] k # fs) = Some (complete (JObj []) fs)"
| "parseStep (TStr k) (MKeyOrEnd, fs) = Some (MColon k, fs)"
| "parseStep (TStr k) (MKey, fs) = Some (MColon k, fs)"
| "parseStep TColon (MColon k, FObj es k' # fs) = Some (MValue, FObj es k # fs)"
| "parseStep TComma (MAfter, FArr vs # fs) = Some (MValue, FArr vs # fs)"
| "parseStep TComma (MAfter, FObj es k # fs) = Some (MKey, FObj es k # fs)"
| "parseStep TCloseArr (MAfter, FArr vs # fs) = Some (complete (JArr (rev vs)) fs)"
| "parseStep TCloseObj (MAfter, FObj es k # fs) = Some (complete (JObj es) fs)"
| "parseStep t st = None"

fun runTokens :: "jtoken list \<Rightarrow> parseState \<Rightarrow> json option" where
  "runTokens [] (MDone v, fs) = Some v"
| "runTokens [] st = None"
| "runTokens (t # ts) st = (case parseStep t st of None \<Rightarrow> None | Some st' \<Rightarrow> runTokens ts st')"

definition parseJSON :: "string \<Rightarrow> json option" where
  "parseJSON s =
     (case lexFrom LIdle s of None \<Rightarrow> None | Some ts \<Rightarrow> runTokens ts (MValue, []))"

section \<open>json.Marshal\<close>

text \<open>HTML-safe escaping, as \<open>json.Marshal\<close> does; invalid bytes become the replacement rune.\<close>

definition escapeByte :: "char \<Rightarrow> string" where
  "escapeByte c =
     (if c = CHR 0x22 \<or> c = CHR 0x5C then [CHR 0x5C, c]
      else if c = CHR 0x08 then [CHR 0x5C, CHR ''b''] else if c = CHR 0x0C then [CHR 0x5C, CHR ''f'']
      else if c = CHR 0x0A then [CHR 0x5C, CHR ''n''] else if c = CHR 0x0D then [CHR 0x5C, CHR ''r'']
      else if c = CHR 0x09 then [CHR 0x5C, CHR ''t'']
      else if code c < 32 \<or> c = CHR ''<'' \<or> c = CHR ''>'' \<or> c = CHR ''&''
      then [CHR 0x5C] @ ''u00'' @ hexByte c
      else [c])"

function quoteJSON :: "string \<Rightarrow> string" where
  "quoteJSON [] = []"
| "quoteJSON (a # s) =
     (if code a < 128 then escapeByte a @ quoteJSON s
      else if runeLength (a # s) = 0 then [CHR 0x5C] @ ''ufffd'' @ quoteJSON s
      else
        (let n = runeLength (a # s); r = take n (a # s)
         in (if r = encodeRune 0x2028 then [CHR 0x5C] @ ''u2028''
             else if r = encodeRune 0x2029 then [CHR 0x5C] @ ''u2029''
             else r) @ quoteJSON (drop (n - 1) s)))"
  by pat_completeness auto
termination
  by (relation "measure length") (simp_all add: le_imp_less_Suc del: runeLength.simps)

declare quoteJSON.simps(2) [simp del]

definition stringText :: "string \<Rightarrow> string" where
  "stringText s = [CHR 0x22] @ quoteJSON s @ [CHR 0x22]"

text \<open>Integers are written out; the text of another number is the library's (\<open>fmt\<close>).\<close>

definition intText :: "int \<Rightarrow> string" where
  "intText n = (if n < 0 then CHR ''-'' # decimal (nat (- n)) else decimal (nat n))"

fun numberText :: "(rat \<Rightarrow> string) \<Rightarrow> float64 \<Rightarrow> string" where
  "numberText fmt (FFin x) = (if x = of_int \<lfloor>x\<rfloor> \<and> \<bar>x\<bar> \<le> 2 ^ 53 then intText \<lfloor>x\<rfloor> else fmt x)"
| "numberText fmt _ = []"

text \<open>The entries of a map are written in the order of their keys.\<close>

primrec encodeJSON :: "(rat \<Rightarrow> string) \<Rightarrow> json \<Rightarrow> string" where
  "encodeJSON fmt JNull = ''null''"
| "encodeJSON fmt (JBool b) = (if b then ''true'' else ''false'')"
| "encodeJSON fmt (JNum x) = numberText fmt x"
| "encodeJSON fmt (JStr s) = stringText s"
| "encodeJSON fmt (JArr vs) = ''['' @ joinWith '','' (map (encodeJSON fmt) vs) @ '']''"
| "encodeJSON fmt (JObj es) =
     ''{'' @ joinWith '','' (map (\<lambda>(k, t). stringText k @ '':'' @ t)
       (sort_key fst (map (map_prod id (encodeJSON fmt)) es))) @ ''}''"

lemma json_samples:
  "parseJSON ''[1, -2.5e1 ,true]'' = Some (JArr [JNum (FFin 1), JNum (FFin (- 25)), JBool True])"
  "parseJSON ''[1-2]'' = None" "parseJSON ''01'' = None" "parseJSON ''[1,]'' = None"
  "parseJSON (encodeJSON (\<lambda>_. []) (JObj [(''b'', JStr ''x<y''), (''a'', JArr [])])) =
     Some (JObj [(''a'', JArr []), (''b'', JStr ''x<y'')])"
  "encodeJSON (\<lambda>_. []) (JObj [(''a'', JStr [CHR 0x0A])]) =
     [CHR ''{'', CHR 0x22, CHR ''a'', CHR 0x22, CHR '':'', CHR 0x22, CHR 0x5C, CHR ''n'', CHR 0x22, CHR ''}'']"
  by code_simp+

end
