(* ===== verification/ProviderUtil.thy ===== *)
theory ProviderUtil
  imports GoParse GoJson CoreModel "HOL-Library.Multiset"
begin

text \<open>
  \<open>adapters/internal/providerutil/util.go\<close>: reading values out of the JSON documents of
  the credentials and of the providers, the fingerprint and the named window durations.

  Go ranges over a map in an order of its own, another one each time. The model takes it as an
  argument: \<open>ord k v\<close> is the document \<open>v\<close> with the entries of its objects in the order
  in which the search for the key \<open>k\<close> meets them.
\<close>

section \<open>The environment of an adapter\<close>

record HTTPResponse =
  hr_StatusCode :: int
  hr_Headers :: "(string, string list) fmap"
  hr_Body :: string

type_synonym httpDo = "nat \<Rightarrow> Credential \<Rightarrow> ActivationRequest \<Rightarrow> error + HTTPResponse"

type_synonym mapOrder = "string \<Rightarrow> json \<Rightarrow> json"

text \<open>
  What an adapter reaches outside its code: the HTTP client of the host (\<open>None\<close> for a nil
  one), the clock, the random source, the order of each range over a map (all by the number of
  the call), SHA-256, the conversion of large floats, the wording of a JSON error, the text of a
  number that is no integer.
\<close>

record adapterEnv =
  ae_client :: "httpDo option"
  ae_now :: "nat \<Rightarrow> time"
  ae_rand :: "nat \<Rightarrow> nat \<Rightarrow> error + string"
  ae_order :: "nat \<Rightarrow> mapOrder"
  ae_sha256 :: "string \<Rightarrow> string"
  ae_arch :: goarch
  ae_jsonError :: "string \<Rightarrow> error"
  ae_numberText :: "rat \<Rightarrow> string"

type_synonym object = "(string \<times> json) list"

section \<open>Reading documents\<close>

text \<open>\<open>json.Unmarshal\<close> into a \<open>map[string]any\<close>: \<open>null\<close> leaves the nil map.\<close>

definition decodeObject :: "adapterEnv \<Rightarrow> string \<Rightarrow> error + object" where
  "decodeObject E raw =
     (case parseJSON raw of
        Some (JObj es) \<Rightarrow> Inr es
      | Some JNull \<Rightarrow> Inr []
      | _ \<Rightarrow> Inl (ae_jsonError E raw))"

definition stringEntry :: "string \<Rightarrow> object \<Rightarrow> string option" where
  "stringEntry k m = (case map_of m k of Some (JStr s) \<Rightarrow> Some s | _ \<Rightarrow> None)"

fun firstSome :: "'a option list \<Rightarrow> 'a option" where
  "firstSome [] = None"
| "firstSome (None # xs) = firstSome xs"
| "firstSome (Some x # xs) = Some x"

text \<open>\<open>deepString\<close>, on a document in the order the search meets it.\<close>

primrec deepString :: "string \<Rightarrow> json \<Rightarrow> string option" where
  "deepString key JNull = None"
| "deepString key (JBool b) = None"
| "deepString key (JNum x) = None"
| "deepString key (JStr s) = None"
| "deepString key (JArr vs) = firstSome (map (deepString key) vs)"
| "deepString key (JObj es) =
     (case stringEntry key es of
        Some s \<Rightarrow> Some s
      | None \<Rightarrow> firstSome (map snd (map (map_prod id (deepString key)) es)))"

text \<open>\<open>DeepString\<close>: the first key with a string that is not blank, trimmed.\<close>

fun deepStringOf :: "mapOrder \<Rightarrow> string list \<Rightarrow> json \<Rightarrow> string option" where
  "deepStringOf ord [] v = None"
| "deepStringOf ord (key # keys) v =
     (case deepString key (ord key v) of
        None \<Rightarrow> deepStringOf ord keys v
      | Some got \<Rightarrow>
          (if trimSpace got \<noteq> '''' then Some (trimSpace got) else deepStringOf ord keys v))"

definition foundText :: "string option \<Rightarrow> string" where
  "foundText x = (case x of None \<Rightarrow> '''' | Some s \<Rightarrow> s)"

fun objectOf :: "string list \<Rightarrow> object \<Rightarrow> object option" where
  "objectOf [] m = None"
| "objectOf (k # ks) m = (case map_of m k of Some (JObj x) \<Rightarrow> Some x | _ \<Rightarrow> objectOf ks m)"

fun sliceOf :: "string list \<Rightarrow> object \<Rightarrow> json list option" where
  "sliceOf [] m = None"
| "sliceOf (k # ks) m = (case map_of m k of Some (JArr x) \<Rightarrow> Some x | _ \<Rightarrow> sliceOf ks m)"

fun stringOf :: "string list \<Rightarrow> object \<Rightarrow> string" where
  "stringOf [] m = ''''"
| "stringOf (k # ks) m = (case map_of m k of Some (JStr x) \<Rightarrow> trimSpace x | _ \<Rightarrow> stringOf ks m)"

text \<open>A string is read as a number too; the first key with either decides.\<close>

fun numberOf :: "string list \<Rightarrow> object \<Rightarrow> float64 option" where
  "numberOf [] m = None"
| "numberOf (k # ks) m =
     (case map_of m k of
        Some (JNum x) \<Rightarrow> Some x
      | Some (JStr s) \<Rightarrow> parseFloat s
      | _ \<Rightarrow> numberOf ks m)"

fun timeOf :: "string list \<Rightarrow> object \<Rightarrow> time option" where
  "timeOf [] m = None"
| "timeOf (k # ks) m =
     (case map_of m k of
        Some (JStr s) \<Rightarrow> (case parseRFC3339 s of Some t \<Rightarrow> Some t | None \<Rightarrow> timeOf ks m)
      | _ \<Rightarrow> timeOf ks m)"

section \<open>Identity and durations\<close>

definition fingerprint :: "adapterEnv \<Rightarrow> string list \<Rightarrow> error + string" where
  "fingerprint E parts =
     (if 2 \<le> length parts \<and> (\<exists>p \<in> set (tl parts). trimSpace p \<noteq> '''')
      then Inr (hexEncode (ae_sha256 E (joinWith [nul] parts)))
      else Inl (ErrMsg ''credential identity fields are missing''))"

definition day :: duration where
  "day = 24 * hour"

definition windowDuration :: "string \<Rightarrow> duration" where
  "windowDuration raw =
     (let n = toLowerASCII (trimSpace raw)
      in if n \<in> set [''5h'', ''five-hour'', ''five_hour''] then 5 * hour
         else if n \<in> set [''7d'', ''weekly'', ''week'', ''seven_day'', ''seven-day''] then 7 * day
         else if n \<in> set [''monthly'', ''month''] then 30 * day
         else case parseDuration raw of Inr d \<Rightarrow> d | Inl _ \<Rightarrow> 0)"

text \<open>A status outside 200..299.\<close>

definition badStatus :: "HTTPResponse \<Rightarrow> bool" where
  "badStatus r \<longleftrightarrow> hr_StatusCode r < 200 \<or> 300 \<le> hr_StatusCode r"

section \<open>The order of a range\<close>

text \<open>
  The same document with the entries of its objects in another order, each key with the same
  value. A decoded document has no key twice, so that every order of its entries will do.
\<close>

inductive reordered :: "json \<Rightarrow> json \<Rightarrow> bool" where
  null: "reordered JNull JNull"
| bool: "reordered (JBool b) (JBool b)"
| num: "reordered (JNum x) (JNum x)"
| str: "reordered (JStr s) (JStr s)"
| arr: "list_all2 reordered vs ws \<Longrightarrow> reordered (JArr vs) (JArr ws)"
| obj: "list_all2 (rel_prod (=) reordered) es fs \<Longrightarrow> mset gs = mset fs \<Longrightarrow> map_of gs = map_of fs \<Longrightarrow>
    reordered (JObj es) (JObj gs)"

text \<open>Any order a range may follow.\<close>

definition anyOrder :: "mapOrder \<Rightarrow> bool" where
  "anyOrder ord \<longleftrightarrow> (\<forall>key v. reordered v (ord key v))"

text \<open>The strings a document holds under a key, at any depth.\<close>

primrec stringsAt :: "string \<Rightarrow> json \<Rightarrow> string set" where
  "stringsAt key JNull = {}"
| "stringsAt key (JBool b) = {}"
| "stringsAt key (JNum x) = {}"
| "stringsAt key (JStr s) = {}"
| "stringsAt key (JArr vs) = \<Union> (set (map (stringsAt key) vs))"
| "stringsAt key (JObj es) =
     set_option (stringEntry key es) \<union> \<Union> (set (map snd (map (map_prod id (stringsAt key)) es)))"

lemma firstSome_Some: "firstSome xs = Some y \<Longrightarrow> Some y \<in> set xs"
  by (induction xs rule: firstSome.induct) auto

lemma firstSome_None: "firstSome xs = None \<longleftrightarrow> (\<forall>x \<in> set xs. x = None)"
  by (induction xs rule: firstSome.induct) auto

lemma deepString_Some: "deepString key v = Some s \<Longrightarrow> s \<in> stringsAt key v"
proof (induction v)
  case (JArr vs)
  then show ?case by (auto dest!: firstSome_Some) metis
next
  case (JObj es)
  have IH: "s \<in> stringsAt key (snd e)" if "e \<in> set es" "deepString key (snd e) = Some s" for e
    using JObj.IH that by (auto simp: snds.simps)
  show ?case
  proof (cases "stringEntry key es")
    case None
    with JObj.prems have "firstSome (map snd (map (map_prod id (deepString key)) es)) = Some s" by simp
    from firstSome_Some [OF this] obtain e where e: "e \<in> set es" "deepString key (snd e) = Some s"
      by auto
    show ?thesis using e(1) IH [OF e] by auto
  qed (use JObj.prems in auto)
qed auto

lemma deepString_None: "deepString key v = None \<longleftrightarrow> stringsAt key v = {}"
proof (induction v)
  case (JArr vs)
  then show ?case by (auto simp: firstSome_None)
next
  case (JObj es)
  have "\<forall>e \<in> set es. deepString key (snd e) = None \<longleftrightarrow> stringsAt key (snd e) = {}"
    using JObj.IH by (auto simp: snds.simps)
  then show ?case by (auto simp: firstSome_None split: option.splits)
qed auto

lemma map_of_mset:
  assumes "distinct (map fst xs)" and "mset ys = mset xs"
  shows "map_of ys = map_of xs"
proof
  fix k
  have d: "distinct (map fst ys)"
    using assms by (metis mset_map mset_eq_imp_distinct_iff)
  have "set ys = set xs" using assms(2) by (metis set_mset_mset)
  then have "map_of ys k = Some v \<longleftrightarrow> map_of xs k = Some v" for v
    using assms(1) d by simp
  then show "map_of ys k = map_of xs k" by (metis not_Some_eq)
qed

lemma reordered_str:
  "reordered v w \<Longrightarrow> (case w of JStr x \<Rightarrow> Some x | _ \<Rightarrow> None) = (case v of JStr x \<Rightarrow> Some x | _ \<Rightarrow> None)"
  by (erule reordered.cases) auto

lemma stringEntry_rel:
  assumes "list_all2 (rel_prod (=) reordered) es fs"
  shows "stringEntry key fs = stringEntry key es"
  using assms
  by (induction rule: list_all2_induct) (auto simp: stringEntry_def reordered_str)

lemma reordered_stringsAt:
  assumes "reordered v w"
  shows "stringsAt key w = stringsAt key v"
  using assms
proof (induction rule: reordered.induct)
  case (arr vs ws)
  then have "list_all2 (\<lambda>x y. stringsAt key y = stringsAt key x) vs ws"
    by (rule list_all2_mono) auto
  then have "map (stringsAt key) ws = map (stringsAt key) vs"
    by (induction rule: list_all2_induct) auto
  then show ?case by simp
next
  case (obj es fs gs)
  let ?vals = "\<lambda>xs. map snd (map (map_prod id (stringsAt key)) xs)"
  have rel: "list_all2 (rel_prod (=) reordered) es fs"
    using obj.IH by (rule list_all2_mono) (auto elim: rel_prod.cases)
  have "?vals fs = ?vals es"
    using obj.IH by (induction rule: list_all2_induct) (auto elim!: rel_prod.cases)
  moreover have "set gs = set fs" using obj.hyps by (metis set_mset_mset)
  moreover have "stringEntry key gs = stringEntry key es"
    using obj.hyps stringEntry_rel [OF rel] by (simp add: stringEntry_def)
  ultimately show ?case by (metis (no_types, lifting) list.set_map stringsAt.simps(6))
qed auto

lemma reordered_refl [simp]: "reordered v v"
proof (induction v)
  case (JArr vs)
  then have "list_all2 reordered vs vs" by (simp add: list.rel_refl_strong)
  then show ?case by (rule reordered.arr)
next
  case (JObj es)
  have "list_all2 (rel_prod (=) reordered) es es"
  proof (rule list.rel_refl_strong)
    fix e assume "e \<in> set es"
    with JObj.IH show "rel_prod (=) reordered e e" by (cases e) (auto simp: snds.simps)
  qed
  then show ?case by (rule reordered.obj) simp_all
qed (rule reordered.intros)+

lemma reordered_perm:
  "distinct (map fst es) \<Longrightarrow> mset gs = mset es \<Longrightarrow> reordered (JObj es) (JObj gs)"
proof (rule reordered.obj [of es es])
  show "list_all2 (rel_prod (=) reordered) es es"
    by (rule list.rel_refl) (simp add: rel_prod_sel)
next
  assume d: "distinct (map fst es)" and m: "mset gs = mset es"
  show "mset gs = mset es" by (rule m)
  show "map_of gs = map_of es" by (rule map_of_mset [OF d m])
qed

text \<open>Any order finds a string the document holds under the key, and finds one when there is one.\<close>

lemma deepString_reordered:
  assumes "reordered v w"
  shows "(case deepString key w of None \<Rightarrow> stringsAt key v = {} | Some s \<Rightarrow> s \<in> stringsAt key v)"
  using reordered_stringsAt [OF assms, of key] deepString_None [of key w] deepString_Some [of key w]
  by (auto split: option.splits)

lemma deepString_unique:
  assumes "reordered v w" and "stringsAt key v = {s}"
  shows "deepString key w = Some s"
  using deepString_reordered [OF assms(1), of key] assms(2) by (auto split: option.splits)

end
