(* ===== verification/CodexAdapter.thy ===== *)
theory CodexAdapter
  imports ProviderUtil Controller
begin

text \<open>
  \<open>adapters/codex/adapter.go\<close>: the credential of a ChatGPT login, the quota document of
  \<open>wham/usage\<close>, the activation plan and its verification. The package has its own copies of the
  helpers of \<open>providerutil\<close>; where a copy has the same body, the model's copy refers to the
  original.
\<close>

section \<open>Constants\<close>

definition codexQuotaURL :: string where
  "codexQuotaURL = ''https://chatgpt.com/backend-api/wham/usage''"

definition codexActivationURL :: string where
  "codexActivationURL = ''https://chatgpt.com/backend-api/codex/responses/compact''"

definition codexModel :: string where
  "codexModel = ''gpt-5.4-mini''"

definition codexMatch :: "Credential \<Rightarrow> bool" where
  "codexMatch c \<longleftrightarrow> equalFold (trimSpace (cred_Provider c)) ''codex''"

section \<open>Helpers\<close>

definition codexDeepString :: "mapOrder \<Rightarrow> json \<Rightarrow> string \<Rightarrow> string" where
  "codexDeepString ord v key = foundText (deepString key (ord key v))"

definition codexObject :: "object \<Rightarrow> string list \<Rightarrow> object option" where
  "codexObject m keys = objectOf keys m"

definition codexSlice :: "object \<Rightarrow> string list \<Rightarrow> json list option" where
  "codexSlice m keys = sliceOf keys m"

text \<open>Not trimmed, unlike \<open>providerutil.String\<close>.\<close>

fun codexString :: "object \<Rightarrow> string list \<Rightarrow> string" where
  "codexString m [] = ''''"
| "codexString m (k # ks) = (case map_of m k of Some (JStr x) \<Rightarrow> x | _ \<Rightarrow> codexString m ks)"

text \<open>Strings are not read as numbers, unlike \<open>providerutil.Number\<close>.\<close>

fun codexNumber :: "object \<Rightarrow> string list \<Rightarrow> float64 option" where
  "codexNumber m [] = None"
| "codexNumber m (k # ks) = (case map_of m k of Some (JNum x) \<Rightarrow> Some x | _ \<Rightarrow> codexNumber m ks)"

text \<open>
  \<open>parts[i][:1]\<close> panics on an empty part; the two callers pass \<open>primary_window\<close> and
  \<open>secondary_window\<close>, which have none.
\<close>

fun capitalize :: "string \<Rightarrow> string" where
  "capitalize [] = []"
| "capitalize (c # s) = asciiUpper c # s"

definition toCamel :: "string \<Rightarrow> string" where
  "toCamel s =
     (case splitAt CHR ''_'' s of
        [] \<Rightarrow> []
      | p # ps \<Rightarrow> joinWith [] (p # map capitalize ps))"

definition codexAbs :: "duration \<Rightarrow> duration" where
  "codexAbs d = (if d < 0 then wrap64 (- d) else d)"

text \<open>Integer division of Go, which truncates towards zero.\<close>

definition goDiv :: "int \<Rightarrow> int \<Rightarrow> int" where
  "goDiv a b = sgn a * sgn b * (\<bar>a\<bar> div \<bar>b\<bar>)"

text \<open>\<open>time.Duration(seconds * float64(time.Second))\<close>.\<close>

definition floatSeconds :: "goarch \<Rightarrow> float64 \<Rightarrow> duration" where
  "floatSeconds arch x = toInt64 arch (floatMul x (FFin 1000000000))"

definition codexResetAt :: "goarch \<Rightarrow> object \<Rightarrow> time \<Rightarrow> time option" where
  "codexResetAt arch m now =
     (let raw = codexString m [''reset_at'', ''resetAt'']
      in case (if raw \<noteq> '''' then parseRFC3339 raw else None) of
           Some t \<Rightarrow> Some t
         | None \<Rightarrow>
             (case codexNumber m [''reset_after_seconds'', ''resetAfterSeconds''] of
                Some seconds \<Rightarrow> Some (addTime now (floatSeconds arch seconds))
              | None \<Rightarrow> None))"

section \<open>Credentials\<close>

text \<open>\<open>base64.RawURLEncoding.DecodeString\<close>: no padding, line ends skipped, loose trailing bits.\<close>

definition base64Value :: "char \<Rightarrow> int option" where
  "base64Value c =
     (if between 65 90 c then Some (code c - 65)
      else if between 97 122 c then Some (code c - 71)
      else if isDigit c then Some (code c + 4)
      else if c = CHR ''-'' then Some 62 else if c = CHR ''_'' then Some 63 else None)"

fun base64Bytes :: "int list \<Rightarrow> string option" where
  "base64Bytes [] = Some []"
| "base64Bytes [a] = None"
| "base64Bytes [a, b] = Some [byte (a * 4 + b div 16)]"
| "base64Bytes [a, b, c] = Some [byte (a * 4 + b div 16), byte (b mod 16 * 16 + c div 4)]"
| "base64Bytes (a # b # c # d # r) =
     map_option ((@) [byte (a * 4 + b div 16), byte (b mod 16 * 16 + c div 4), byte (c mod 4 * 64 + d)])
       (base64Bytes r)"

definition base64Decode :: "string \<Rightarrow> string option" where
  "base64Decode s =
     Option.bind (those (map base64Value (filter (\<lambda>c. c \<noteq> CHR 0x0A \<and> c \<noteq> CHR 0x0D) s))) base64Bytes"

definition accountFromJWT :: "mapOrder \<Rightarrow> string \<Rightarrow> string" where
  "accountFromJWT ord token =
     (let parts = splitAt CHR ''.'' token
      in if length parts < 2 then ''''
         else case Option.bind (base64Decode (parts ! 1)) parseJSON of
           None \<Rightarrow> ''''
         | Some claims \<Rightarrow>
             (let v = codexDeepString ord claims ''https://api.openai.com/auth.chatgpt_account_id''
              in if v = '''' then codexDeepString ord claims ''chatgpt_account_id'' else v))"

record CodexCredentials =
  cx_AccessToken :: string
  cx_RefreshToken :: string
  cx_AccountID :: string

definition extractCredentials :: "adapterEnv \<Rightarrow> mapOrder \<Rightarrow> string \<Rightarrow> error + CodexCredentials" where
  "extractCredentials E ord raw =
     (case parseJSON raw of
        None \<Rightarrow> Inl (ae_jsonError E raw)
      | Some doc \<Rightarrow>
          (let access = codexDeepString ord doc ''access_token''
           in if access = '''' then Inl (ErrMsg ''missing access_token'')
              else
                (let refresh = codexDeepString ord doc ''refresh_token'';
                     a1 = codexDeepString ord doc ''account_id'';
                     a2 = (if a1 = '''' then codexDeepString ord doc ''chatgpt_account_id'' else a1);
                     a3 = (if a2 = '''' then
                             (let i = codexDeepString ord doc ''id_token''
                              in if i \<noteq> '''' then accountFromJWT ord i else '''')
                           else a2)
                 in Inr \<lparr>cx_AccessToken = access, cx_RefreshToken = refresh, cx_AccountID = a3\<rparr>)))"

definition codexFingerprint :: "adapterEnv \<Rightarrow> nat \<Rightarrow> Credential \<Rightarrow> error + string" where
  "codexFingerprint E n c =
     (case extractCredentials E (ae_order E n) (cred_RawJSON c) of
        Inl e \<Rightarrow> Inl e
      | Inr parsed \<Rightarrow>
          (if cx_AccountID parsed = '''' then Inl (ErrMsg ''missing ChatGPT account ID'')
           else Inr (hexEncode (ae_sha256 E (''codex'' @ [nul] @ cx_AccountID parsed)))))"

definition authHeaders :: "CodexCredentials \<Rightarrow> (string, string list) fmap" where
  "authHeaders c =
     (let h = fmap_of_list [(''Authorization'', [''Bearer '' @ cx_AccessToken c]),
                (''Content-Type'', [''application/json'']),
                (''User-Agent'', [''cpa-quota-window-activator/0.1''])]
      in if cx_AccountID c \<noteq> '''' then fmupd ''Chatgpt-Account-Id'' [cx_AccountID c] h else h)"

section \<open>The quota document\<close>

definition codexDuration :: "goarch \<Rightarrow> object \<Rightarrow> duration \<Rightarrow> duration" where
  "codexDuration arch raw fallback =
     (case codexNumber raw [''limit_window_seconds'', ''limitWindowSeconds''] of
        Some seconds \<Rightarrow> if floatPositive seconds then floatSeconds arch seconds else fallback
      | None \<Rightarrow> fallback)"

definition codexLazy :: "float64 option \<Rightarrow> time \<Rightarrow> time \<Rightarrow> duration \<Rightarrow> bool" where
  "codexLazy used reset now duration =
     (case used of
        None \<Rightarrow> False
      | Some u \<Rightarrow> floatIsZero u \<and> codexAbs (subTime reset (addTime now duration)) \<le> 3 * minute)"

definition codexWindow ::
  "goarch \<Rightarrow> object \<Rightarrow> string \<Rightarrow> string \<Rightarrow> string \<Rightarrow> duration \<Rightarrow> time \<Rightarrow> bool \<Rightarrow> QuotaWindow option" where
  "codexWindow arch raw authID scope i fallback now activate =
     (let duration = codexDuration arch raw fallback
      in case codexResetAt arch raw now of
           None \<Rightarrow> None
         | Some reset \<Rightarrow>
             (if duration \<le> 0 then None
              else
                (let used = codexNumber raw [''used_percent'', ''usedPercent''];
                     bucket = scope @ '':'' @ i @ '':'' @ intText (goDiv duration second)
                 in Some \<lparr>qw_Provider = ''codex'', qw_AuthID = authID, qw_BucketID = bucket,
                      qw_ModelFamily = '''', qw_Scope = scope, qw_UsedPercent = used, qw_ResetAt = reset,
                      qw_WindowDuration = duration, qw_ObservedAt = now, qw_ServerTime = zeroTime,
                      qw_ActivationGroup = (if activate then ''codex-main'' else ''''),
                      qw_LazyHint = codexLazy used reset now duration, qw_Complete = (used \<noteq> None)\<rparr>)))"

definition codexSlots :: "(string \<times> duration) list" where
  "codexSlots = [(''primary_window'', 5 * hour), (''secondary_window'', 7 * 24 * hour)]"

definition mainWindows :: "goarch \<Rightarrow> object \<Rightarrow> string \<Rightarrow> time \<Rightarrow> QuotaWindow list" where
  "mainWindows arch rate authID now =
     List.map_filter (\<lambda>(name, fallback).
       case codexObject rate [name, toCamel name] of
         None \<Rightarrow> None
       | Some raw \<Rightarrow> codexWindow arch raw authID ''main'' name fallback now True) codexSlots"

definition reviewWindows :: "goarch \<Rightarrow> object \<Rightarrow> string \<Rightarrow> time \<Rightarrow> QuotaWindow list" where
  "reviewWindows arch review authID now =
     List.map_filter (\<lambda>(name, fallback).
       case codexObject review [name, toCamel name] of
         None \<Rightarrow> None
       | Some raw \<Rightarrow>
           codexWindow arch raw authID ''code_review'' (''code-review:'' @ name) fallback now False) codexSlots"

definition additionalWindows :: "goarch \<Rightarrow> nat \<Rightarrow> json \<Rightarrow> string \<Rightarrow> time \<Rightarrow> QuotaWindow list" where
  "additionalWindows arch i item authID now =
     (case item of
        JObj m \<Rightarrow>
          (let n0 = codexString m [''limit_name'', ''limitName''];
               name = (if n0 = '''' then ''additional-'' @ intText (int i) else n0)
           in case codexObject m [''rate_limit'', ''rateLimit''] of
                None \<Rightarrow> []
              | Some r \<Rightarrow>
                  List.map_filter (\<lambda>slot.
                    case codexObject r [slot, toCamel slot] of
                      None \<Rightarrow> None
                    | Some rw \<Rightarrow>
                        map_option (\<lambda>w. w\<lparr>qw_ModelFamily := name\<rparr>)
                          (codexWindow arch rw authID ''additional'' (name @ '':'' @ slot) 0 now False))
                    [''primary_window'', ''secondary_window''])
      | _ \<Rightarrow> [])"

definition reviewPart :: "goarch \<Rightarrow> object \<Rightarrow> string \<Rightarrow> time \<Rightarrow> QuotaWindow list" where
  "reviewPart arch doc authID now =
     (case codexObject doc [''code_review_rate_limit'', ''codeReviewRateLimit''] of
        None \<Rightarrow> []
      | Some review \<Rightarrow> reviewWindows arch review authID now)"

definition additionalPart :: "goarch \<Rightarrow> object \<Rightarrow> string \<Rightarrow> time \<Rightarrow> QuotaWindow list" where
  "additionalPart arch doc authID now =
     (case codexSlice doc [''additional_rate_limits'', ''additionalRateLimits''] of
        None \<Rightarrow> []
      | Some limits \<Rightarrow>
          concat (map (\<lambda>(i, item). additionalWindows arch i item authID now) (enumerate 0 limits)))"

definition codexParse :: "adapterEnv \<Rightarrow> string \<Rightarrow> string \<Rightarrow> time \<Rightarrow> error + Observation" where
  "codexParse E raw authID now =
     (case decodeObject E raw of
        Inl e \<Rightarrow> Inl e
      | Inr doc \<Rightarrow>
     (case codexObject doc [''rate_limit'', ''rateLimit''] of
        None \<Rightarrow> Inl (ErrMsg ''Codex quota response missing rate_limit'')
      | Some rate \<Rightarrow>
          (let windows = mainWindows (ae_arch E) rate authID now @ reviewPart (ae_arch E) doc authID now @
                 additionalPart (ae_arch E) doc authID now
           in if windows = [] then Inl (ErrMsg ''Codex quota response has no complete windows'')
              else Inr \<lparr>ob_Windows = windows\<rparr>)))"

definition codexReadQuota :: "adapterEnv \<Rightarrow> nat \<Rightarrow> Credential \<Rightarrow> error + Observation" where
  "codexReadQuota E n c =
     (case ae_client E of
        None \<Rightarrow> Inl (ErrMsg ''HTTP client is unavailable'')
      | Some call \<Rightarrow>
     (case extractCredentials E (ae_order E n) (cred_RawJSON c) of
        Inl e \<Rightarrow> Inl e
      | Inr parsed \<Rightarrow>
     (case call n c \<lparr>rq_Method = ''GET'', rq_URL = codexQuotaURL, rq_Headers = authHeaders parsed,
                  rq_Body = []\<rparr> of
        Inl e \<Rightarrow> Inl e
      | Inr response \<Rightarrow>
          (if badStatus response
           then Inl (ErrMsg (''Codex quota status '' @ intText (hr_StatusCode response)))
           else codexParse E (hr_Body response) (cred_AuthID c) (ae_now E n)))))"

section \<open>Activation\<close>

definition codexCanActivate :: "QuotaWindow \<Rightarrow> bool" where
  "codexCanActivate w \<longleftrightarrow>
     qw_Scope w = ''main'' \<and> \<not> qw_WindowDuration w \<le> 0 \<and>
     (qw_WindowDuration w = 5 * hour \<or>
      7 * 24 * hour \<le> qw_WindowDuration w \<and> qw_WindowDuration w \<le> 32 * 24 * hour)"

definition codexPayload :: json where
  "codexPayload = JObj [(''model'', JStr codexModel), (''instructions'', JStr ''''),
     (''input'', JArr [JObj [(''type'', JStr ''message''), (''role'', JStr ''user''),
        (''content'', JArr [JObj [(''type'', JStr ''input_text''), (''text'', JStr ''ping'')]])]])]"

definition codexPlan :: "adapterEnv \<Rightarrow> nat \<Rightarrow> Credential \<Rightarrow> WindowRecord list \<Rightarrow> error + ActivationPlan" where
  "codexPlan E n c records =
     (case extractCredentials E (ae_order E n) (cred_RawJSON c) of
        Inl e \<Rightarrow> Inl e
      | Inr parsed \<Rightarrow>
          (if records = [] then Inl (ErrMsg ''no target windows'')
           else if \<exists>r \<in> set records. wr_ActivationGroup r \<noteq> ''codex-main''
           then Inl (ErrMsg ''unsupported Codex activation group'')
           else Inr \<lparr>pl_Group = ''codex-main'',
                  pl_Request = \<lparr>rq_Method = ''POST'', rq_URL = codexActivationURL,
                    rq_Headers = authHeaders parsed, rq_Body = encodeJSON (ae_numberText E) codexPayload\<rparr>,
                  pl_WindowKeys = map wr_Key records, pl_TargetModel = codexModel,
                  pl_MaxInput = 4, pl_MaxOutput = 1\<rparr>))"

definition codexVerify :: "Baseline \<Rightarrow> QuotaWindow \<Rightarrow> VerifyResult" where
  "codexVerify base aft =
     (if after (qw_ResetAt aft) (addTime (bl_ResetAt base) (2 * minute)) \<and> \<not> qw_LazyHint aft
      then \<lparr>vr_Confirmed = True, vr_Reason = ''new Codex quota window confirmed''\<rparr>
      else case (bl_UsedPercent base, qw_UsedPercent aft) of
        (Some b, Some a) \<Rightarrow>
          (if floatPositive b \<and> floatIsZero a \<and> \<not> qw_LazyHint aft
           then \<lparr>vr_Confirmed = True, vr_Reason = ''Codex activation inferred from usage reset''\<rparr>
           else \<lparr>vr_Confirmed = False, vr_Reason = ''Codex window has not rolled after activation''\<rparr>)
      | _ \<Rightarrow> \<lparr>vr_Confirmed = False, vr_Reason = ''Codex window has not rolled after activation''\<rparr>)"

definition codexOps :: "adapterEnv \<Rightarrow> ActivationOps" where
  "codexOps E = \<lparr>ac_CanActivate = codexCanActivate, ac_PlanActivation = codexPlan E,
     ac_VerifyActivation = codexVerify\<rparr>"

definition codexAdapter :: "adapterEnv \<Rightarrow> Adapter" where
  "codexAdapter E = \<lparr>ad_ID = ''codex'', ad_Match = codexMatch, ad_Fingerprint = codexFingerprint E,
     ad_ReadQuota = codexReadQuota E, ad_Activation = Some (codexOps E)\<rparr>"

end
