(* ===== verification/AntigravityAdapter.thy ===== *)
theory AntigravityAdapter
  imports ProviderUtil Controller
begin

text \<open>
  \<open>adapters/antigravity/adapter.go\<close>: the credential, the quota summary with its four stable
  buckets in two activation groups, the activation plan and its verification.
\<close>

unbundle bit_operations_syntax

section \<open>Constants\<close>

definition dailyBaseURL :: string where
  "dailyBaseURL = ''https://daily-cloudcode-pa.googleapis.com''"

definition quotaSummaryPath :: string where
  "quotaSummaryPath = ''/v1internal:retrieveUserQuotaSummary''"

definition generatePath :: string where
  "generatePath = ''/v1internal:generateContent''"

definition geminiGroup :: string where
  "geminiGroup = ''antigravity-gemini''"

definition thirdPartyGroup :: string where
  "thirdPartyGroup = ''antigravity-third-party''"

definition quotaURLs :: "string list" where
  "quotaURLs = [dailyBaseURL @ quotaSummaryPath,
     ''https://daily-cloudcode-pa.sandbox.googleapis.com'' @ quotaSummaryPath,
     ''https://cloudcode-pa.googleapis.com'' @ quotaSummaryPath]"

definition antigravityUA :: string where
  "antigravityUA = ''antigravity/cli/1.0.13 (aidev_client; os_type=windows; arch=amd64)''"

definition antigravityMatch :: "Credential \<Rightarrow> bool" where
  "antigravityMatch c \<longleftrightarrow> equalFold (cred_Provider c) ''antigravity''"

section \<open>Groups\<close>

definition activationGroup :: "string \<Rightarrow> string" where
  "activationGroup bucketID =
     (let n = toLowerASCII (trimSpace bucketID)
      in if n \<in> set [''gemini-5h'', ''gemini-weekly''] then geminiGroup
         else if n \<in> set [''3p-5h'', ''3p-weekly''] then thirdPartyGroup
         else '''')"

definition activationModel :: "string \<Rightarrow> string" where
  "activationModel grp =
     (if grp = geminiGroup then ''gemini-3.1-flash-lite''
      else if grp = thirdPartyGroup then ''claude-sonnet-4-6''
      else '''')"

definition antigravityAbs :: "duration \<Rightarrow> duration" where
  "antigravityAbs d = (if d < 0 then wrap64 (- d) else d)"

section \<open>Credentials\<close>

definition antigravityFingerprint :: "adapterEnv \<Rightarrow> nat \<Rightarrow> Credential \<Rightarrow> error + string" where
  "antigravityFingerprint E n c =
     (case decodeObject E (cred_RawJSON c) of
        Inl e \<Rightarrow> Inl e
      | Inr doc \<Rightarrow>
          (let project = foundText (deepStringOf (ae_order E n) [''project_id'', ''projectId''] (JObj doc));
               email = foundText (deepStringOf (ae_order E n) [''email''] (JObj doc))
           in fingerprint E [''antigravity'', project, email]))"

definition antigravityHeaders :: "string \<Rightarrow> (string, string list) fmap" where
  "antigravityHeaders token = fmap_of_list [(''Authorization'', [''Bearer '' @ token]),
     (''Content-Type'', [''application/json'']), (''User-Agent'', [antigravityUA])]"

text \<open>The token and the project, which a read and a plan both require.\<close>

definition tokenAndProject :: "mapOrder \<Rightarrow> object \<Rightarrow> error + string \<times> string" where
  "tokenAndProject ord doc =
     (let token = foundText (deepStringOf ord [''access_token''] (JObj doc));
          project = foundText (deepStringOf ord [''project_id'', ''projectId''] (JObj doc))
      in if token = '''' \<or> project = '''' then Inl (ErrMsg ''Antigravity token or project missing'')
         else Inr (token, project))"

section \<open>The quota summary\<close>

definition antigravityBucket :: "adapterEnv \<Rightarrow> nat \<Rightarrow> string \<Rightarrow> nat \<Rightarrow> json \<Rightarrow> string \<Rightarrow> time \<Rightarrow> QuotaWindow option" where
  "antigravityBucket E gi grp bi b authID now =
     (case b of
        JObj bm \<Rightarrow>
          (let i = stringOf [''bucketId'', ''bucket_id''] bm
           in if i = '''' then None
              else case numberOf [''remainingFraction'', ''remaining_fraction''] bm of
                None \<Rightarrow> None
              | Some remaining \<Rightarrow>
             (case timeOf [''resetTime'', ''reset_time''] bm of
                None \<Rightarrow> None
              | Some reset \<Rightarrow>
                  (let duration = windowDuration (stringOf [''window''] bm)
                   in if duration \<le> 0 then None
                      else
                        (let used = floatMul (FFin 100) (floatSub (FFin 1) remaining);
                             lazy = (floatIsZero used \<and>
                               antigravityAbs (subTime reset (addTime now duration)) \<le> 3 * minute)
                         in Some \<lparr>qw_Provider = ''antigravity'', qw_AuthID = authID, qw_BucketID = i,
                              qw_ModelFamily = grp,
                              qw_Scope = ''group-'' @ intText (int gi) @ ''-bucket-'' @ intText (int bi),
                              qw_UsedPercent = Some used, qw_ResetAt = reset, qw_WindowDuration = duration,
                              qw_ObservedAt = now, qw_ServerTime = zeroTime,
                              qw_ActivationGroup = activationGroup i, qw_LazyHint = lazy,
                              qw_Complete = True\<rparr>))))
      | _ \<Rightarrow> None)"

definition antigravityGroup :: "adapterEnv \<Rightarrow> nat \<Rightarrow> json \<Rightarrow> string \<Rightarrow> time \<Rightarrow> QuotaWindow list" where
  "antigravityGroup E gi g authID now =
     (case g of
        JObj gm \<Rightarrow>
          (let grp = stringOf [''displayName'', ''display_name''] gm;
               buckets = (case sliceOf [''buckets''] gm of None \<Rightarrow> [] | Some bs \<Rightarrow> bs)
           in List.map_filter (\<lambda>(bi, b). antigravityBucket E gi grp bi b authID now)
                (enumerate 0 buckets))
      | _ \<Rightarrow> [])"

definition antigravityParse :: "adapterEnv \<Rightarrow> string \<Rightarrow> string \<Rightarrow> time \<Rightarrow> error + Observation" where
  "antigravityParse E raw authID now =
     (case decodeObject E raw of
        Inl e \<Rightarrow> Inl e
      | Inr doc \<Rightarrow>
     (case sliceOf [''groups''] doc of
        None \<Rightarrow> Inl (ErrMsg ''Antigravity quota groups missing'')
      | Some groups \<Rightarrow>
          (let out = concat (map (\<lambda>(gi, g). antigravityGroup E gi g authID now) (enumerate 0 groups))
           in if out = [] then Inl (ErrMsg ''Antigravity response has no complete stable buckets'')
              else Inr \<lparr>ob_Windows = out\<rparr>)))"

text \<open>The URLs are tried in turn; the first success is parsed, else the last error stays.\<close>

fun tryURLs ::
  "adapterEnv \<Rightarrow> httpDo \<Rightarrow> nat \<Rightarrow> Credential \<Rightarrow> string \<Rightarrow> string \<Rightarrow> string list \<Rightarrow> error \<Rightarrow> error + Observation" where
  "tryURLs E call n c token body [] err = Inl err"
| "tryURLs E call n c token body (url # urls) err =
     (case call n c \<lparr>rq_Method = ''POST'', rq_URL = url, rq_Headers = antigravityHeaders token,
                    rq_Body = body\<rparr> of
        Inl e \<Rightarrow> tryURLs E call n c token body urls e
      | Inr resp \<Rightarrow>
          (if badStatus resp
           then tryURLs E call n c token body urls
                  (ErrMsg (''Antigravity quota status '' @ intText (hr_StatusCode resp)))
           else antigravityParse E (hr_Body resp) (cred_AuthID c) (ae_now E n)))"

text \<open>The list of URLs is not empty, so the error it starts from is never returned.\<close>

definition antigravityReadQuota :: "adapterEnv \<Rightarrow> nat \<Rightarrow> Credential \<Rightarrow> error + Observation" where
  "antigravityReadQuota E n c =
     (case ae_client E of
        None \<Rightarrow> Inl (ErrMsg ''HTTP client unavailable'')
      | Some call \<Rightarrow>
     (case decodeObject E (cred_RawJSON c) of
        Inl e \<Rightarrow> Inl e
      | Inr doc \<Rightarrow>
     (case tokenAndProject (ae_order E n) doc of
        Inl e \<Rightarrow> Inl e
      | Inr (token, project) \<Rightarrow>
          tryURLs E call n c token (encodeJSON (ae_numberText E) (JObj [(''project'', JStr project)]))
            quotaURLs (ErrMsg ''''))))"

section \<open>Activation\<close>

definition antigravityCanActivate :: "QuotaWindow \<Rightarrow> bool" where
  "antigravityCanActivate w =
     (let grp = activationGroup (qw_BucketID w)
      in if grp = '''' \<or> qw_ActivationGroup w \<noteq> grp then False
         else qw_WindowDuration w = 5 * hour \<or> qw_WindowDuration w = 7 * 24 * hour)"

text \<open>\<open>requestIDs\<close>: a version-less UUID layout, and a session number below nine quintillion and one.\<close>

definition sessionNumber :: "string \<Rightarrow> 64 word" where
  "sessionNumber raw =
     fold (\<lambda>b v. push_bit 8 v OR word_of_int (code b)) raw 0 mod 9000000000000000000 + 1"

definition requestIDs :: "(nat \<Rightarrow> error + string) \<Rightarrow> error + string \<times> string" where
  "requestIDs rand =
     (case rand 0 of
        Inl e \<Rightarrow> Inl (ErrWrap ''generate Antigravity request ID: '' e)
      | Inr raw \<Rightarrow>
          (let part = (\<lambda>a b. hexEncode (take (b - a) (drop a raw)));
               requestID = ''agent-'' @ joinWith ''-'' [part 0 4, part 4 6, part 6 8, part 8 10, part 10 16]
           in case rand 1 of
                Inl e \<Rightarrow> Inl (ErrWrap ''generate Antigravity session ID: '' e)
              | Inr sessionRaw \<Rightarrow>
                  Inr (requestID, ''-'' @ decimal (unat (sessionNumber sessionRaw)))))"

definition antigravityBaseURL :: "mapOrder \<Rightarrow> Credential \<Rightarrow> object \<Rightarrow> string" where
  "antigravityBaseURL ord c doc =
     (case find (\<lambda>key. trimSpace (getOr '''' (cred_Attributes c) key) \<noteq> '''') [''base_url'', ''base-url''] of
        Some key \<Rightarrow> trimRightChar CHR ''/'' (trimSpace (getOr '''' (cred_Attributes c) key))
      | None \<Rightarrow>
          (let value = foundText (deepStringOf ord [''base_url'', ''base-url''] (JObj doc))
           in if value \<noteq> '''' then trimRightChar CHR ''/'' value else dailyBaseURL))"

definition antigravityPayload :: "string \<Rightarrow> string \<Rightarrow> string \<Rightarrow> string \<Rightarrow> json" where
  "antigravityPayload model project requestID sessionID =
     JObj [(''model'', JStr model), (''userAgent'', JStr ''antigravity''),
       (''requestType'', JStr ''agent''), (''project'', JStr project), (''requestId'', JStr requestID),
       (''request'', JObj [(''sessionId'', JStr sessionID),
          (''contents'', JArr [JObj [(''role'', JStr ''user''),
             (''parts'', JArr [JObj [(''text'', JStr ''ping'')]])]]),
          (''generationConfig'', JObj [(''candidateCount'', JNum (FFin 1)),
             (''maxOutputTokens'', JNum (FFin 1)), (''temperature'', JNum (FFin 0))])])]"

definition antigravityPlan :: "adapterEnv \<Rightarrow> nat \<Rightarrow> Credential \<Rightarrow> WindowRecord list \<Rightarrow> error + ActivationPlan" where
  "antigravityPlan E n c records =
     (case records of
        [] \<Rightarrow> Inl (ErrMsg ''no target windows'')
      | r0 # _ \<Rightarrow>
          (let grp = wr_ActivationGroup r0; model = activationModel grp
           in if model = '''' then Inl (ErrMsg ''unsupported Antigravity activation group'')
              else if \<exists>r \<in> set records. wr_ActivationGroup r \<noteq> grp \<or> \<not> antigravityCanActivate (wr_Latest r)
              then Inl (ErrMsg ''Antigravity activation records cross quota groups'')
              else case decodeObject E (cred_RawJSON c) of
                Inl e \<Rightarrow> Inl e
              | Inr doc \<Rightarrow>
             (case tokenAndProject (ae_order E n) doc of
                Inl e \<Rightarrow> Inl e
              | Inr (token, project) \<Rightarrow>
             (case requestIDs (ae_rand E n) of
                Inl e \<Rightarrow> Inl e
              | Inr (requestID, sessionID) \<Rightarrow>
                  Inr \<lparr>pl_Group = grp,
                    pl_Request = \<lparr>rq_Method = ''POST'',
                      rq_URL = antigravityBaseURL (ae_order E n) c doc @ generatePath,
                      rq_Headers = antigravityHeaders token,
                      rq_Body = encodeJSON (ae_numberText E)
                        (antigravityPayload model project requestID sessionID)\<rparr>,
                    pl_WindowKeys = map wr_Key records, pl_TargetModel = model,
                    pl_MaxInput = 4, pl_MaxOutput = 1\<rparr>))))"

definition antigravityVerify :: "Baseline \<Rightarrow> QuotaWindow \<Rightarrow> VerifyResult" where
  "antigravityVerify base aft =
     (if after (qw_ResetAt aft) (addTime (bl_ResetAt base) (2 * minute))
      then \<lparr>vr_Confirmed = True, vr_Reason = ''new Antigravity quota window confirmed''\<rparr>
      else \<lparr>vr_Confirmed = False, vr_Reason = ''Antigravity window has not rolled after activation''\<rparr>)"

definition antigravityOps :: "adapterEnv \<Rightarrow> ActivationOps" where
  "antigravityOps E = \<lparr>ac_CanActivate = antigravityCanActivate, ac_PlanActivation = antigravityPlan E,
     ac_VerifyActivation = antigravityVerify\<rparr>"

definition antigravityAdapter :: "adapterEnv \<Rightarrow> Adapter" where
  "antigravityAdapter E = \<lparr>ad_ID = ''antigravity'', ad_Match = antigravityMatch,
     ad_Fingerprint = antigravityFingerprint E, ad_ReadQuota = antigravityReadQuota E,
     ad_Activation = Some (antigravityOps E)\<rparr>"

end
