(* ===== verification/AdapterRegistry.thy ===== *)
theory AdapterRegistry
  imports ProviderUtil
begin

text \<open>
  \<open>adapters/registry.go\<close>: the registered adapters by their identifiers, the first one in the
  order of the identifiers that matches a credential, and the sender of activation requests.
  The read-write mutex makes each method atomic.
\<close>

record Registry =
  rg_adapters :: "(string, Adapter) fmap"

definition registerAdapter :: "Adapter option \<Rightarrow> Registry \<Rightarrow> error + Registry" where
  "registerAdapter adapter r =
     (case adapter of
        None \<Rightarrow> Inl (ErrMsg ''adapter ID is required'')
      | Some ad \<Rightarrow>
          (if ad_ID ad = '''' then Inl (ErrMsg ''adapter ID is required'')
           else if fmlookup (rg_adapters r) (ad_ID ad) \<noteq> None
           then Inl (ErrMsg (''duplicate adapter: '' @ ad_ID ad))
           else Inr (r\<lparr>rg_adapters := fmupd (ad_ID ad) ad (rg_adapters r)\<rparr>)))"

fun registerAll :: "Adapter option list \<Rightarrow> Registry \<Rightarrow> error + Registry" where
  "registerAll [] r = Inr r"
| "registerAll (item # items) r =
     (case registerAdapter item r of Inl e \<Rightarrow> Inl e | Inr r' \<Rightarrow> registerAll items r')"

definition newRegistry :: "Adapter option list \<Rightarrow> error + Registry" where
  "newRegistry items = registerAll items \<lparr>rg_adapters = fmempty\<rparr>"

definition matchAdapter :: "Registry \<Rightarrow> Credential \<Rightarrow> Adapter option" where
  "matchAdapter r cred =
     (case find (\<lambda>i. case fmlookup (rg_adapters r) i of None \<Rightarrow> False | Some ad \<Rightarrow> ad_Match ad cred)
             (fmkeys (rg_adapters r)) of
        None \<Rightarrow> None
      | Some i \<Rightarrow> fmlookup (rg_adapters r) i)"

definition listAdapters :: "Registry \<Rightarrow> Adapter list" where
  "listAdapters r = List.map_filter (fmlookup (rg_adapters r)) (fmkeys (rg_adapters r))"

text \<open>\<open>Sender.Send\<close>; \<open>None\<close> for a nil client, and for the nil error.\<close>

definition senderSend :: "httpDo option \<Rightarrow> nat \<Rightarrow> Credential \<Rightarrow> ActivationRequest \<Rightarrow> error option" where
  "senderSend client n cred request =
     (case client of
        None \<Rightarrow> Some (ErrMsg ''host HTTP client is unavailable'')
      | Some call \<Rightarrow>
          (case call n cred request of
             Inl e \<Rightarrow> Some e
           | Inr response \<Rightarrow>
               (if badStatus response
                then Some (ErrMsg ''activation upstream returned non-success status'') else None)))"

section \<open>Properties\<close>

text \<open>A registry holds every adapter under its own, non-empty identifier.\<close>

definition wellRegistered :: "Registry \<Rightarrow> bool" where
  "wellRegistered r \<longleftrightarrow> (\<forall>i ad. fmlookup (rg_adapters r) i = Some ad \<longrightarrow> ad_ID ad = i \<and> i \<noteq> '''')"

lemma registerAdapter_Inr:
  assumes "registerAdapter (Some ad) r = Inr r'"
  shows "ad_ID ad \<noteq> ''''" "fmlookup (rg_adapters r) (ad_ID ad) = None"
    "r' = r\<lparr>rg_adapters := fmupd (ad_ID ad) ad (rg_adapters r)\<rparr>"
  using assms by (auto simp: registerAdapter_def split: if_splits)

lemma registerAdapter_well:
  assumes "registerAdapter item r = Inr r'" and "wellRegistered r"
  shows "wellRegistered r'"
proof (cases item)
  case None
  with assms show ?thesis by (simp add: registerAdapter_def)
next
  case (Some ad)
  from registerAdapter_Inr [OF assms(1) [unfolded Some]] assms(2) show ?thesis
    by (simp add: wellRegistered_def)
qed

lemma registerAll_well:
  "registerAll items r = Inr r' \<Longrightarrow> wellRegistered r \<Longrightarrow> wellRegistered r'"
  by (induction items arbitrary: r) (auto split: sum.splits dest: registerAdapter_well)

lemma newRegistry_well: "newRegistry items = Inr r \<Longrightarrow> wellRegistered r"
  unfolding newRegistry_def by (erule registerAll_well) (simp add: wellRegistered_def)

lemma registerAll_Inr:
  "registerAll (map Some ads) r = Inr r' \<longleftrightarrow>
     (\<forall>ad \<in> set ads. ad_ID ad \<noteq> '''' \<and> fmlookup (rg_adapters r) (ad_ID ad) = None) \<and>
     distinct (map ad_ID ads) \<and>
     r' = r\<lparr>rg_adapters := fold (\<lambda>ad. fmupd (ad_ID ad) ad) ads (rg_adapters r)\<rparr>"
proof (induction ads arbitrary: r)
  case (Cons ad ads)
  show ?case
  proof (cases "ad_ID ad = '''' \<or> fmlookup (rg_adapters r) (ad_ID ad) \<noteq> None")
    case True
    then show ?thesis by (auto simp: registerAdapter_def)
  next
    case False
    then have "registerAdapter (Some ad) r = Inr (r\<lparr>rg_adapters := fmupd (ad_ID ad) ad (rg_adapters r)\<rparr>)"
      by (simp add: registerAdapter_def)
    with False Cons.IH show ?thesis by (auto simp: image_iff)
  qed
qed auto

text \<open>\<open>Match\<close> gives the matching adapter with the least identifier.\<close>

lemma find_least:
  fixes xs :: "string list"
  assumes "sorted xs"
  shows "find p xs = Some x \<longleftrightarrow> x \<in> set xs \<and> p x \<and> (\<forall>y \<in> set xs. p y \<longrightarrow> x \<le> y)"
  using assms
proof (induction xs)
  case (Cons a xs)
  show ?case
  proof (cases "p a")
    case True
    have "x = a" if "x \<in> set xs" "x \<le> a" using that Cons.prems by (auto intro: antisym)
    with True Cons.prems show ?thesis by auto
  next
    case False
    with Cons show ?thesis by auto
  qed
qed simp

lemma matchAdapter_Some:
  assumes "wellRegistered r"
  shows "matchAdapter r cred = Some ad \<longleftrightarrow>
    fmlookup (rg_adapters r) (ad_ID ad) = Some ad \<and> ad_Match ad cred \<and>
    (\<forall>i ad'. fmlookup (rg_adapters r) i = Some ad' \<longrightarrow> ad_Match ad' cred \<longrightarrow> ad_ID ad \<le> i)"
proof -
  let ?p = "\<lambda>i. case fmlookup (rg_adapters r) i of None \<Rightarrow> False | Some ad \<Rightarrow> ad_Match ad cred"
  let ?find = "find ?p (fmkeys (rg_adapters r))"
  have "matchAdapter r cred = Some ad \<longleftrightarrow>
      (\<exists>i. ?find = Some i \<and> fmlookup (rg_adapters r) i = Some ad)"
    by (cases ?find) (auto simp: matchAdapter_def)
  also have "\<dots> \<longleftrightarrow> ?find = Some (ad_ID ad) \<and> fmlookup (rg_adapters r) (ad_ID ad) = Some ad"
    using assms unfolding wellRegistered_def by blast
  also have "?find = Some (ad_ID ad) \<longleftrightarrow> ad_ID ad \<in> set (fmkeys (rg_adapters r)) \<and> ?p (ad_ID ad) \<and>
      (\<forall>i \<in> set (fmkeys (rg_adapters r)). ?p i \<longrightarrow> ad_ID ad \<le> i)"
    by (rule find_least) simp
  also have "(\<forall>i \<in> set (fmkeys (rg_adapters r)). ?p i \<longrightarrow> ad_ID ad \<le> i) \<longleftrightarrow>
      (\<forall>i ad'. fmlookup (rg_adapters r) i = Some ad' \<longrightarrow> ad_Match ad' cred \<longrightarrow> ad_ID ad \<le> i)"
    by (auto simp: fmlookup_dom_iff split: option.splits)
  finally show ?thesis by (auto simp: fmdomI)
qed

lemma matchAdapter_None:
  "matchAdapter r cred = None \<longleftrightarrow> (\<forall>i ad. fmlookup (rg_adapters r) i = Some ad \<longrightarrow> \<not> ad_Match ad cred)"
proof -
  let ?p = "\<lambda>i. case fmlookup (rg_adapters r) i of None \<Rightarrow> False | Some ad \<Rightarrow> ad_Match ad cred"
  have "matchAdapter r cred = None \<longleftrightarrow> find ?p (fmkeys (rg_adapters r)) = None"
  proof (cases "find ?p (fmkeys (rg_adapters r))")
    case (Some i)
    then have "?p i" unfolding find_Some_iff by blast
    with Some show ?thesis by (cases "fmlookup (rg_adapters r) i") (simp_all add: matchAdapter_def)
  qed (simp add: matchAdapter_def)
  also have "\<dots> \<longleftrightarrow> (\<forall>i ad. fmlookup (rg_adapters r) i = Some ad \<longrightarrow> \<not> ad_Match ad cred)"
    by (force simp: find_None_iff fmlookup_dom_iff split: option.splits)
  finally show ?thesis .
qed

end
