(* ===== verification/HostClient.thy ===== *)
theory HostClient
  imports ProviderUtil
begin

text \<open>
  \<open>host/cpa/client.go\<close>: the calls to the host program across the plugin boundary. The host
  and the encoding of its messages (package \<open>pluginapi\<close>, not part of the repository) are
  parameters: a call takes one of four requests and gives raw bytes or an error, and a decoder
  per answer reads what the code uses of it.
\<close>

section \<open>The host\<close>

datatype hostRequest =
    HostAuthList
  | HostAuthGet string
  | HostHTTPDo ActivationRequest
  | HostLog string string object

record HostAuthFileEntry =
  hf_ID :: string
  hf_AuthIndex :: string
  hf_Provider :: string
  hf_Label :: string
  hf_Disabled :: bool
  hf_Unavailable :: bool
  hf_RuntimeOnly :: bool
  hf_Path :: string
  hf_Status :: string
  hf_ProjectID :: string
  hf_Email :: string

text \<open>
  \<open>hc_ctxDone n\<close> is the outcome of the \<open>select\<close> of the call \<open>n\<close>: the error of the context
  when its branch was taken (the context was done, and the answer was not there yet or lost
  the draw).
\<close>

record hostClient =
  hc_Call :: "(nat \<Rightarrow> hostRequest \<Rightarrow> error + string) option"
  hc_ctxDone :: "nat \<Rightarrow> error option"
  hc_decodeList :: "string \<Rightarrow> error + HostAuthFileEntry list"
  hc_decodeGet :: "string \<Rightarrow> error + string"
  hc_decodeHTTP :: "string \<Rightarrow> error + HTTPResponse"

section \<open>HasCredentialProxy\<close>

definition hasCredentialProxy :: "string \<Rightarrow> bool" where
  "hasCredentialProxy raw =
     (case parseJSON raw of
        Some (JObj doc) \<Rightarrow>
          (\<exists>key \<in> set [''proxy_url'', ''proxy-url''].
             case map_of doc key of Some (JStr value) \<Rightarrow> trimSpace value \<noteq> '''' | _ \<Rightarrow> False)
      | _ \<Rightarrow> False)"

section \<open>Credentials\<close>

definition credentialOf :: "HostAuthFileEntry \<Rightarrow> Credential" where
  "credentialOf f = \<lparr>cred_AuthID = hf_ID f, cred_AuthIndex = hf_AuthIndex f, cred_Provider = hf_Provider f,
     cred_Label = hf_Label f, cred_Disabled = hf_Disabled f \<or> hf_Unavailable f,
     cred_RuntimeOnly = hf_RuntimeOnly f,
     cred_Attributes = fmap_of_list [(''path'', hf_Path f), (''status'', hf_Status f),
       (''project_id'', hf_ProjectID f), (''email'', hf_Email f)],
     cred_Metadata = fmempty, cred_RawJSON = ''''\<rparr>"

text \<open>A client without a \<open>Call\<close> panics in these two; the plugin always sets it.\<close>

definition listCredentials ::
  "hostClient \<Rightarrow> (nat \<Rightarrow> hostRequest \<Rightarrow> error + string) \<Rightarrow> nat \<Rightarrow> error + Credential list" where
  "listCredentials H call n =
     (case call n HostAuthList of
        Inl e \<Rightarrow> Inl e
      | Inr raw \<Rightarrow>
          (case hc_decodeList H raw of
             Inl e \<Rightarrow> Inl (ErrWrap ''decode host.auth.list: '' e)
           | Inr files \<Rightarrow> Inr (map credentialOf files)))"

definition getCredential ::
  "hostClient \<Rightarrow> (nat \<Rightarrow> hostRequest \<Rightarrow> error + string) \<Rightarrow> nat \<Rightarrow> Credential \<Rightarrow> error + Credential" where
  "getCredential H call n cred =
     (if cred_RuntimeOnly cred
      then Inl (ErrMsg (''runtime-only credential '' @ cred_AuthID cred @ '' has no host.auth.get payload''))
      else case call n (HostAuthGet (cred_AuthIndex cred)) of
        Inl e \<Rightarrow> Inl e
      | Inr raw \<Rightarrow>
          (case hc_decodeGet H raw of
             Inl e \<Rightarrow> Inl (ErrWrap ''decode host.auth.get: '' e)
           | Inr json \<Rightarrow> Inr (cred\<lparr>cred_RawJSON := json\<rparr>)))"

section \<open>HTTP\<close>

text \<open>
  \<open>Client.do\<close>: the requests it hands to the host, and its result. The goroutine makes the call
  whatever the context does, so a request is handed over even when the result is the error of
  the context.
\<close>

definition hostDo :: "hostClient \<Rightarrow> nat \<Rightarrow> ActivationRequest \<Rightarrow> hostRequest list \<times> (error + HTTPResponse)" where
  "hostDo H n request =
     (case hc_Call H of
        None \<Rightarrow> ([], Inl (ErrMsg ''host callback unavailable''))
      | Some call \<Rightarrow>
          ([HostHTTPDo request],
           case hc_ctxDone H n of
             Some e \<Rightarrow> Inl e
           | None \<Rightarrow>
               (case call n (HostHTTPDo request) of
                  Inl e \<Rightarrow> Inl e
                | Inr raw \<Rightarrow>
                    (case hc_decodeHTTP H raw of
                       Inl e \<Rightarrow> Inl (ErrWrap ''decode host.http.do: '' e)
                     | Inr response \<Rightarrow> Inr response))))"

text \<open>\<open>Client.Do\<close> is what the adapters and the sender get; it ignores the credential.\<close>

definition hostHTTP :: "hostClient \<Rightarrow> httpDo" where
  "hostHTTP H n cred request = snd (hostDo H n request)"

definition hostLog :: "string \<Rightarrow> string \<Rightarrow> object \<Rightarrow> hostRequest" where
  "hostLog level message attrs = HostLog level (''[quota-activator] '' @ message) attrs"

section \<open>Properties\<close>

text \<open>An error of \<open>do\<close> does not mean that the host was not asked.\<close>

lemma hostDo_hands_over:
  "hc_Call H \<noteq> None \<Longrightarrow> fst (hostDo H n request) = [HostHTTPDo request]"
  by (auto simp: hostDo_def)

lemma listCredentials_disabled:
  assumes "listCredentials H call n = Inr creds"
  shows "\<exists>files :: HostAuthFileEntry list. length files = length creds \<and> (\<forall>i < length creds.
    (cred_Disabled (creds ! i) \<longleftrightarrow> hf_Disabled (files ! i) \<or> hf_Unavailable (files ! i)) \<and>
    cred_RawJSON (creds ! i) = '''')"
proof -
  obtain files where creds: "creds = map credentialOf files"
    using assms by (auto simp: listCredentials_def split: sum.splits)
  show ?thesis by (rule exI [of _ files]) (simp add: creds credentialOf_def)
qed

lemma getCredential_binding:
  assumes "getCredential H call n cred = Inr full"
  shows "\<not> cred_RuntimeOnly cred" "\<exists>raw. full = cred\<lparr>cred_RawJSON := raw\<rparr>"
    "\<exists>raw. call n (HostAuthGet (cred_AuthIndex cred)) = Inr raw"
  using assms by (auto simp: getCredential_def split: if_splits sum.splits)

end
