(* ===== verification/PluginConfig.thy ===== *)
theory PluginConfig
  imports ProviderUtil Controller
begin

text \<open>
  \<open>cmd/plugin/config.go\<close>: the configuration of the plugin and its decoding. The YAML decoder
  (\<open>gopkg.in/yaml.v3\<close>), the user's configuration directory and the joining of paths are
  parameters; a decoded document is a \<open>rawConfig\<close>, whose providers stand in the order in which
  the code ranges over the map.
\<close>

record providerConfig =
  pc_Enabled :: bool
  pc_Mode :: string

record rawProviderConfig =
  rp_Enabled :: "bool option"
  rp_Mode :: string

record rawConfig =
  rc_Enabled :: "bool option"
  rc_DryRun :: "bool option"
  rc_ObservationInterval :: string
  rc_ResetGracePeriod :: string
  rc_VerifyDelay :: string
  rc_SuppressionDuration :: string
  rc_RequestTimeout :: string
  rc_MaxRetries :: int
  rc_MaxConcurrency :: int
  rc_StateDir :: string
  rc_Providers :: "(string \<times> rawProviderConfig) list"
  rc_DisabledCredentials :: "string list"

record config =
  cf_Enabled :: bool
  cf_DryRun :: bool
  cf_Core :: Config
  cf_MaxRetries :: int
  cf_MaxConcurrency :: int
  cf_RequestTimeout :: duration
  cf_StateDir :: string
  cf_Providers :: "(string, providerConfig) fmap"
  cf_Disabled :: "string fset"

record configEnv =
  ce_unmarshalYAML :: "string \<Rightarrow> error + rawConfig"
  ce_userConfigDir :: "error + string"
  ce_joinPath :: "string list \<Rightarrow> string"

definition observeMode :: string where
  "observeMode = ''observe''"

definition activateMode :: string where
  "activateMode = ''activate_if_lazy''"

definition defaultStateDir :: "configEnv \<Rightarrow> string" where
  "defaultStateDir V =
     (let dir = (case ce_userConfigDir V of Inl e \<Rightarrow> ''.'' | Inr d \<Rightarrow> if d = '''' then ''.'' else d)
      in ce_joinPath V [dir, ''CLIProxyAPI'', ''quota-window-activator''])"

definition defaultPluginConfig :: "configEnv \<Rightarrow> config" where
  "defaultPluginConfig V = \<lparr>cf_Enabled = True, cf_DryRun = True, cf_Core = defaultConfig,
     cf_MaxRetries = 5, cf_MaxConcurrency = 2, cf_RequestTimeout = 30 * second,
     cf_StateDir = defaultStateDir V,
     cf_Providers = fmap_of_list [(''codex'', \<lparr>pc_Enabled = True, pc_Mode = activateMode\<rparr>),
       (''antigravity'', \<lparr>pc_Enabled = True, pc_Mode = activateMode\<rparr>)],
     cf_Disabled = {||}\<rparr>"

text \<open>An optional flag: a missing one keeps the value.\<close>

definition setBool :: "bool option \<Rightarrow> bool \<Rightarrow> bool" where
  "setBool x old = (case x of Some b \<Rightarrow> b | None \<Rightarrow> old)"

text \<open>One optional duration: an empty text keeps the value.\<close>

definition durationField :: "string \<Rightarrow> string \<Rightarrow> duration \<Rightarrow> error + duration" where
  "durationField label text old =
     (if text = '''' then Inr old
      else case parseDuration text of
        Inl e \<Rightarrow> Inl (ErrWrap (label @ '': '') e)
      | Inr d \<Rightarrow> Inr d)"

text \<open>The four durations of the controller, in the order of the code.\<close>

definition coreDurations :: "rawConfig \<Rightarrow> Config \<Rightarrow> error + Config" where
  "coreDurations raw c =
     (case durationField ''observation_interval'' (rc_ObservationInterval raw) (cfg_ObservationInterval c) of
        Inl e \<Rightarrow> Inl e
      | Inr oi \<Rightarrow>
     (case durationField ''reset_grace_period'' (rc_ResetGracePeriod raw) (cfg_ResetGracePeriod c) of
        Inl e \<Rightarrow> Inl e
      | Inr rg \<Rightarrow>
     (case durationField ''verify_delay'' (rc_VerifyDelay raw) (cfg_VerifyDelay c) of
        Inl e \<Rightarrow> Inl e
      | Inr vd \<Rightarrow>
     (case durationField ''suppression_duration'' (rc_SuppressionDuration raw) (cfg_SuppressionDuration c) of
        Inl e \<Rightarrow> Inl e
      | Inr sd \<Rightarrow>
          Inr (c\<lparr>cfg_ObservationInterval := oi, cfg_ResetGracePeriod := rg, cfg_VerifyDelay := vd,
                 cfg_SuppressionDuration := sd\<rparr>)))))"

definition requestTimeout :: "rawConfig \<Rightarrow> duration \<Rightarrow> error + duration" where
  "requestTimeout raw old =
     (case durationField ''request_timeout'' (rc_RequestTimeout raw) old of
        Inl e \<Rightarrow> Inl e
      | Inr d \<Rightarrow>
          (if rc_RequestTimeout raw \<noteq> '''' \<and> d \<le> 0
           then Inl (ErrMsg ''request_timeout must be positive'') else Inr d))"

text \<open>One entry of the providers, merged with the one under the same name.\<close>

definition mergedProvider :: "string \<Rightarrow> rawProviderConfig \<Rightarrow> (string, providerConfig) fmap \<Rightarrow> providerConfig" where
  "mergedProvider i raw ps =
     (let p0 = getOr \<lparr>pc_Enabled = False, pc_Mode = observeMode\<rparr> ps i;
          p1 = p0\<lparr>pc_Enabled := setBool (rp_Enabled raw) (pc_Enabled p0)\<rparr>;
          mode = toLowerASCII (trimSpace (rp_Mode raw))
      in if mode \<noteq> '''' then p1\<lparr>pc_Mode := mode\<rparr> else p1)"

definition validMode :: "providerConfig \<Rightarrow> bool" where
  "validMode p \<longleftrightarrow> pc_Mode p = observeMode \<or> pc_Mode p = activateMode"

definition mergeProvider ::
  "string \<Rightarrow> rawProviderConfig \<Rightarrow> (string, providerConfig) fmap \<Rightarrow> error + (string, providerConfig) fmap" where
  "mergeProvider i raw ps =
     (let p = mergedProvider i raw ps
      in if \<not> validMode p then Inl (ErrMsg (''providers.'' @ i @ ''.mode is invalid''))
         else Inr (fmupd i p ps))"

fun mergeProviders ::
  "(string \<times> rawProviderConfig) list \<Rightarrow> (string, providerConfig) fmap \<Rightarrow> error + (string, providerConfig) fmap" where
  "mergeProviders [] ps = Inr ps"
| "mergeProviders ((i, raw) # rs) ps =
     (case mergeProvider i raw ps of Inl e \<Rightarrow> Inl e | Inr ps' \<Rightarrow> mergeProviders rs ps')"

definition decodeConfig :: "configEnv \<Rightarrow> string \<Rightarrow> error + config" where
  "decodeConfig V raw =
     (let cfg = defaultPluginConfig V
      in if raw = [] then Inr cfg
         else case ce_unmarshalYAML V raw of
           Inl e \<Rightarrow> Inl e
         | Inr inp \<Rightarrow>
        (let enabled = setBool (rc_Enabled inp) (cf_Enabled cfg);
             dryRun = setBool (rc_DryRun inp) (cf_DryRun cfg)
         in case coreDurations inp ((cf_Core cfg)\<lparr>cfg_DryRun := dryRun\<rparr>) of
              Inl e \<Rightarrow> Inl e
            | Inr core \<Rightarrow>
           (case requestTimeout inp (cf_RequestTimeout cfg) of
              Inl e \<Rightarrow> Inl e
            | Inr timeout \<Rightarrow>
             (let retries = (if 0 < rc_MaxRetries inp then rc_MaxRetries inp else cf_MaxRetries cfg);
                  core' = (if 0 < rc_MaxRetries inp then core\<lparr>cfg_MaxRetries := rc_MaxRetries inp\<rparr> else core);
                  concurrency = (if 0 < rc_MaxConcurrency inp then rc_MaxConcurrency inp
                                 else cf_MaxConcurrency cfg);
                  stateDir = (if trimSpace (rc_StateDir inp) \<noteq> '''' then rc_StateDir inp
                              else cf_StateDir cfg)
              in case mergeProviders (rc_Providers inp) (cf_Providers cfg) of
                   Inl e \<Rightarrow> Inl e
                 | Inr providers \<Rightarrow>
                     Inr \<lparr>cf_Enabled = enabled, cf_DryRun = dryRun, cf_Core = core',
                       cf_MaxRetries = retries, cf_MaxConcurrency = concurrency,
                       cf_RequestTimeout = timeout, cf_StateDir = stateDir, cf_Providers = providers,
                       cf_Disabled = fset_of_list (map trimSpace (rc_DisabledCredentials inp))\<rparr>))))"

section \<open>Properties\<close>

text \<open>What every accepted configuration satisfies.\<close>

definition validModes :: "(string, providerConfig) fmap \<Rightarrow> bool" where
  "validModes ps \<longleftrightarrow> (\<forall>i p. fmlookup ps i = Some p \<longrightarrow> validMode p)"

definition validConfig :: "config \<Rightarrow> bool" where
  "validConfig c \<longleftrightarrow>
     cfg_DryRun (cf_Core c) = cf_DryRun c \<and> 1 \<le> cf_MaxConcurrency c \<and> 1 \<le> cf_MaxRetries c \<and>
     cf_MaxRetries c = cfg_MaxRetries (cf_Core c) \<and> 0 < cf_RequestTimeout c \<and>
     validModes (cf_Providers c)"

lemma defaultConfig_valid: "validConfig (defaultPluginConfig V)"
  by (auto simp: validConfig_def validModes_def validMode_def defaultPluginConfig_def defaultConfig_def
      duration_units fmlookup_of_list split: if_splits)

lemma mergeProvider_modes: "mergeProvider i raw ps = Inr ps' \<Longrightarrow> validModes ps \<Longrightarrow> validModes ps'"
  by (auto simp: mergeProvider_def Let_def validModes_def split: if_splits)

lemma mergeProviders_modes: "mergeProviders rs ps = Inr ps' \<Longrightarrow> validModes ps \<Longrightarrow> validModes ps'"
  by (induction rs ps rule: mergeProviders.induct) (auto dest: mergeProvider_modes split: sum.splits)

lemma coreDurations_keeps:
  "coreDurations raw c = Inr c' \<Longrightarrow>
     cfg_DryRun c' = cfg_DryRun c \<and> cfg_MaxRetries c' = cfg_MaxRetries c \<and>
     cfg_RetryDelays c' = cfg_RetryDelays c \<and> cfg_ClockSkewTolerance c' = cfg_ClockSkewTolerance c"
  by (auto simp: coreDurations_def split: sum.splits)

lemma requestTimeout_positive: "requestTimeout raw old = Inr d \<Longrightarrow> 0 < old \<Longrightarrow> 0 < d"
  by (auto simp: requestTimeout_def durationField_def split: sum.splits if_splits)

lemma decodeConfig_cases:
  assumes "decodeConfig V raw = Inr c"
  obtains (default) "raw = []" "c = defaultPluginConfig V"
    | (document) inp core where "ce_unmarshalYAML V raw = Inr inp"
      "cf_DryRun c = setBool (rc_DryRun inp) True"
      "coreDurations inp (defaultConfig\<lparr>cfg_DryRun := cf_DryRun c\<rparr>) = Inr core"
      "requestTimeout inp (30 * second) = Inr (cf_RequestTimeout c)"
      "cf_Core c = (if 0 < rc_MaxRetries inp then core\<lparr>cfg_MaxRetries := rc_MaxRetries inp\<rparr> else core)"
      "cf_MaxRetries c = (if 0 < rc_MaxRetries inp then rc_MaxRetries inp else 5)"
      "cf_MaxConcurrency c = (if 0 < rc_MaxConcurrency inp then rc_MaxConcurrency inp else 2)"
      "mergeProviders (rc_Providers inp) (cf_Providers (defaultPluginConfig V)) = Inr (cf_Providers c)"
      "cf_Disabled c = fset_of_list (map trimSpace (rc_DisabledCredentials inp))"
proof (cases "raw = []")
  case True
  with assms default show ?thesis by (simp add: decodeConfig_def)
next
  case False
  obtain inp where inp: "ce_unmarshalYAML V raw = Inr inp"
    using assms False by (cases "ce_unmarshalYAML V raw") (auto simp: decodeConfig_def Let_def)
  define dr where "dr = setBool (rc_DryRun inp) True"
  note unf = decodeConfig_def Let_def defaultPluginConfig_def inp
  obtain core where core: "coreDurations inp (defaultConfig\<lparr>cfg_DryRun := dr\<rparr>) = Inr core"
    using assms False
    by (cases "coreDurations inp (defaultConfig\<lparr>cfg_DryRun := dr\<rparr>)") (simp_all add: unf dr_def)
  obtain timeout where timeout: "requestTimeout inp (30 * second) = Inr timeout"
    using assms False core
    by (cases "requestTimeout inp (30 * second)") (simp_all add: unf dr_def)
  obtain ps where ps: "mergeProviders (rc_Providers inp) (cf_Providers (defaultPluginConfig V)) = Inr ps"
    using assms False core timeout
    by (cases "mergeProviders (rc_Providers inp) (cf_Providers (defaultPluginConfig V))")
      (simp_all add: unf dr_def)
  show ?thesis
    using assms False core timeout ps
    by (intro document [OF inp]) (auto simp: unf dr_def)
qed

lemma decodeConfig_valid:
  assumes "decodeConfig V raw = Inr c"
  shows "validConfig c"
  using assms
proof (cases rule: decodeConfig_cases)
  case default
  then show ?thesis by (simp add: defaultConfig_valid)
next
  case (document inp core)
  have "0 < cf_RequestTimeout c"
    using requestTimeout_positive [OF document(4)] by (simp add: duration_units)
  moreover have "validModes (cf_Providers c)"
    using mergeProviders_modes [OF document(8)] defaultConfig_valid [of V] by (simp add: validConfig_def)
  moreover have "cfg_MaxRetries core = 5 \<and> cfg_DryRun core = cf_DryRun c"
    using coreDurations_keeps [OF document(3)] by (simp add: defaultConfig_def)
  ultimately show ?thesis using document(5-7) by (auto simp: validConfig_def)
qed

end
