(* ===== verification/PluginRuntime.thy ===== *)
theory PluginRuntime
  imports ControlSteps CodexAdapter AntigravityAdapter AdapterRegistry
    HostClient PluginConfig
begin

text \<open>
  \<open>cmd/plugin/runtime.go\<close>: the service that wires the store, the controller and the two
  activation adapters together, its scheduler, one pass over the host's credentials, and the
  status document.

  A pass starts a goroutine per eligible credential. Each is a list of actions here; an action
  is one atomic call of the controller (which a mutex serialises) or one entry of the log. A
  schedule says whose action is next, so that a pass over a schedule is any interleaving of
  the goroutines, cut off anywhere. Errors of a context that was cancelled come from the calls
  of the environment, like every other error.
\<close>

section \<open>The service\<close>

record pluginEnv =
  pe_platform :: platform
  pe_adapter :: adapterEnv
  pe_config :: configEnv
  pe_host :: hostClient
  pe_load :: loadIO
  pe_now :: "nat \<Rightarrow> time"
  pe_nowAt :: "nat \<Rightarrow> string \<Rightarrow> time"
  pe_wait :: "nat \<Rightarrow> duration \<Rightarrow> error option"
  pe_wall :: "nat \<Rightarrow> time"

record runtimeService =
  rt_cfg :: config
  rt_registry :: Registry
  rt_controller :: Controller
  rt_cancel :: bool          \<comment> \<open>a cancel function is set\<close>
  rt_done :: "bool option"   \<comment> \<open>the channel of the last loop, and whether it is closed\<close>
  rt_lastRun :: time
  rt_lastError :: string
  rt_unsupportedLogged :: "string fset"

text \<open>The adapters of the program get the host as their HTTP client.\<close>

definition hostedEnv :: "pluginEnv \<Rightarrow> adapterEnv" where
  "hostedEnv V = (pe_adapter V)\<lparr>ae_client := Some (hostHTTP (pe_host V))\<rparr>"

definition registeredAdapters :: "pluginEnv \<Rightarrow> Adapter list" where
  "registeredAdapters V = [codexAdapter (hostedEnv V), antigravityAdapter (hostedEnv V)]"

text \<open>\<open>newRuntime\<close>: the service and its store, loaded from the files.\<close>

definition newRuntime :: "pluginEnv \<Rightarrow> config \<Rightarrow> fs \<Rightarrow> error + runtimeService \<times> Store" where
  "newRuntime V cfg f =
     (case newRegistry (map Some (registeredAdapters V)) of
        Inl e \<Rightarrow> Inl e
      | Inr registry \<Rightarrow>
     (case newStore (pf_lib (pe_platform V)) (pe_load V)
             (ce_joinPath (pe_config V) [cf_StateDir cfg, ''runtime-state.json'']) f of
        Inl e \<Rightarrow> Inl e
      | Inr store \<Rightarrow>
     (case newController (Some (senderSend (Some (hostHTTP (pe_host V))))) (cf_Core cfg)
             (pe_now V) (pe_nowAt V) (pe_wait V) of
        Inl e \<Rightarrow> Inl e
      | Inr controller \<Rightarrow>
          Inr (\<lparr>rt_cfg = cfg, rt_registry = registry, rt_controller = controller, rt_cancel = False,
                rt_done = None, rt_lastRun = zeroTime, rt_lastError = '''',
                rt_unsupportedLogged = {||}\<rparr>, store))))"

text \<open>\<open>Start\<close>; the loop itself is \<open>runOnce\<close> and a wait of \<open>nextDelay\<close>, again and again.\<close>

definition startService :: "runtimeService \<Rightarrow> runtimeService" where
  "startService r =
     (if rt_cancel r \<or> \<not> cf_Enabled (rt_cfg r) then r
      else r\<lparr>rt_cancel := True, rt_done := Some False\<rparr>)"

text \<open>\<open>inTime\<close>: an open channel of the loop closes within the five seconds.\<close>

definition stopService :: "bool \<Rightarrow> runtimeService \<Rightarrow> error option \<times> runtimeService" where
  "stopService inTime r =
     (let r' = r\<lparr>rt_cancel := False\<rparr>
      in case rt_done r of
           None \<Rightarrow> (None, r')
         | Some closed \<Rightarrow>
             (if closed \<or> inTime then (None, r'\<lparr>rt_done := Some True\<rparr>)
              else (Some (ErrMsg ''background observation did not stop within 5s''), r')))"

section \<open>The delay to the next pass\<close>

definition ignoredWindow :: "WindowRecord \<Rightarrow> bool" where
  "ignoredWindow r \<longleftrightarrow> wr_NextCheck r = zeroTime \<or>
     wr_State r = StateDisabled \<or> wr_State r = StateAuthBlocked \<or> wr_State r = StateUnsupported"

definition dueIn :: "time \<Rightarrow> WindowRecord \<Rightarrow> duration" where
  "dueIn now r =
     (let candidate = subTime (wr_NextCheck r) now in if candidate < second then second else candidate)"

definition delayStep :: "time \<Rightarrow> WindowRecord \<Rightarrow> duration \<Rightarrow> duration" where
  "delayStep now r delay =
     (if ignoredWindow r then delay else if dueIn now r < delay then dueIn now r else delay)"

definition nextDelay :: "config \<Rightarrow> PersistentState \<Rightarrow> time \<Rightarrow> duration" where
  "nextDelay cfg s now =
     (let delay = (if cfg_ObservationInterval (cf_Core cfg) \<le> 0 then 30 * minute
                   else cfg_ObservationInterval (cf_Core cfg))
      in fold (delayStep now) (map (getWindow s) (fmkeys (ps_Windows s))) delay)"

section \<open>Log texts\<close>

definition redactedID :: "string \<Rightarrow> string" where
  "redactedID s =
     (if length s \<le> 8 then ''redacted''
      else take 4 s @ encodeRune 0x2026 @ drop (length s - 4) s)"

definition boundedText :: "string \<Rightarrow> string" where
  "boundedText s = (if 200 < length s then take 200 s else s)"

fun stateText :: "ProbeState \<Rightarrow> string" where
  "stateText StateObserving = ''observing''"
| "stateText StateWaitingReset = ''waiting_reset''"
| "stateText StatePendingPrecheck = ''pending_precheck''"
| "stateText StateNormalReset = ''normal_reset''"
| "stateText StateLazyDetected = ''lazy_reset_detected''"
| "stateText StateActivationSending = ''activation_sending''"
| "stateText StateActivationSent = ''activation_sent''"
| "stateText StateSentUnknown = ''sent_unknown''"
| "stateText StateVerifying = ''verifying''"
| "stateText StateConfirmed = ''confirmed''"
| "stateText StateRetryWait = ''retry_wait''"
| "stateText StateAuthBlocked = ''auth_blocked''"
| "stateText StateUnsupported = ''unsupported''"
| "stateText StateDisabled = ''disabled''"
| "stateText (StateOther s) = s"

definition credAttrs :: "Credential \<Rightarrow> object" where
  "credAttrs c = [(''auth'', JStr (redactedID (cred_AuthID c))), (''provider'', JStr (cred_Provider c))]"

section \<open>State changes\<close>

text \<open>
  \<open>logStateChanges\<close>: the new attempts and the changed windows of a credential between two
  snapshots. Go ranges over the two maps in any order; the model takes the keys in order.
\<close>

definition attemptLogs :: "PersistentState \<Rightarrow> Credential \<Rightarrow> string \<Rightarrow> ProbeAttempt \<Rightarrow> hostRequest list" where
  "attemptLogs prev c i a =
     (if pa_AuthIndex a \<noteq> cred_AuthIndex c \<or> fmlookup (ps_Attempts prev) i \<noteq> None then []
      else
        (let attrs = credAttrs c @ [(''attempt'', JStr (pa_ID a)),
               (''activation_group'', JStr (pa_ActivationGroup a)),
               (''bucket_count'', JNum (FFin (of_nat (length (pa_WindowKeys a)))))]
         in hostLog ''info'' ''lazy reset detected; activation attempt durably fenced'' attrs #
            (if pa_Phase a = AttemptCompleted \<and> pa_SentAt a \<noteq> zeroTime
             then [hostLog ''info'' ''activation request sent'' attrs]
             else if pa_Phase a = AttemptSentUnknown \<or> pa_Phase a = AttemptCompleted \<and> pa_SentAt a = zeroTime
             then [hostLog ''warn'' ''activation send result unknown; verify only'' attrs]
             else [])))"

definition windowMessage :: "ProbeState \<Rightarrow> string" where
  "windowMessage st =
     (case st of
        StateNormalReset \<Rightarrow> ''quota window rolled normally; no activation''
      | StateConfirmed \<Rightarrow> ''activation confirmed''
      | StateLazyDetected \<Rightarrow> ''lazy reset detected''
      | StateSentUnknown \<Rightarrow> ''activation outcome unknown; verify only''
      | _ \<Rightarrow> ''quota window state changed'')"

definition windowLogs :: "PersistentState \<Rightarrow> Credential \<Rightarrow> string \<Rightarrow> WindowRecord \<Rightarrow> hostRequest list" where
  "windowLogs prev c key current =
     (if wr_AuthID current \<noteq> cred_AuthID c then []
      else if (case fmlookup (ps_Windows prev) key of
                 None \<Rightarrow> False
               | Some previous \<Rightarrow> wr_State previous = wr_State current \<and>
                   bl_CycleID (wr_Baseline previous) = bl_CycleID (wr_Baseline current))
      then []
      else [hostLog ''info'' (windowMessage (wr_State current))
              [(''auth'', JStr (redactedID (cred_AuthID c))), (''provider'', JStr (wr_Provider current)),
               (''bucket'', JStr (wr_BucketID current)), (''state'', JStr (stateText (wr_State current))),
               (''reset_at'', JStr (formatRFC3339Nano (qw_ResetAt (wr_Latest current)))),
               (''result'', JStr (wr_LastResult current))]])"

definition logStateChanges :: "PersistentState \<Rightarrow> PersistentState \<Rightarrow> Credential \<Rightarrow> hostRequest list" where
  "logStateChanges prev aft c =
     concat (map (\<lambda>i. case fmlookup (ps_Attempts aft) i of
        None \<Rightarrow> [] | Some a \<Rightarrow> attemptLogs prev c i a) (fmkeys (ps_Attempts aft))) @
     concat (map (\<lambda>k. case fmlookup (ps_Windows aft) k of
        None \<Rightarrow> [] | Some r \<Rightarrow> windowLogs prev c k r) (fmkeys (ps_Windows aft)))"

section \<open>Actions\<close>

datatype action =
    ActOp operation Credential             \<comment> \<open>Recover or Tick; the credential of the failure log\<close>
  | ActBlock Credential string string string \<comment> \<open>BlockCredential and its warning\<close>
  | ActSnapshot nat
  | ActLogChanges nat Credential
  | ActFail Credential error

record serviceState =
  ss_service :: runtimeService
  ss_world :: world
  ss_logs :: "hostRequest list"
  ss_before :: "nat \<Rightarrow> PersistentState"

definition wallClock :: "pluginEnv \<Rightarrow> serviceState \<Rightarrow> time" where
  "wallClock V s = pe_wall V (w_n (ss_world s))"

definition setError :: "pluginEnv \<Rightarrow> error \<Rightarrow> serviceState \<Rightarrow> serviceState" where
  "setError V e s = s\<lparr>ss_service := (ss_service s)\<lparr>rt_lastError := errorText e, rt_lastRun := wallClock V s\<rparr>\<rparr>"

definition addLogs :: "hostRequest list \<Rightarrow> serviceState \<Rightarrow> serviceState" where
  "addLogs ls s = s\<lparr>ss_logs := ss_logs s @ ls\<rparr>"

definition logFailure :: "pluginEnv \<Rightarrow> Credential \<Rightarrow> error \<Rightarrow> serviceState \<Rightarrow> serviceState" where
  "logFailure V c e s =
     addLogs [hostLog ''warn'' ''credential observation failed''
       (credAttrs c @ [(''error'', JStr (boundedText (errorText e)))])] (setError V e s)"

definition logUnsupportedOnce :: "Credential \<Rightarrow> serviceState \<Rightarrow> serviceState" where
  "logUnsupportedOnce c s =
     (let key = cred_Provider c @ ''|'' @ cred_AuthIndex c; r = ss_service s
      in if key |\<in>| rt_unsupportedLogged r then s
         else addLogs [hostLog ''info'' ''provider detected but no activation adapter available'' (credAttrs c)]
                (s\<lparr>ss_service := r\<lparr>rt_unsupportedLogged := finsert key (rt_unsupportedLogged r)\<rparr>\<rparr>))"

fun runAction :: "pluginEnv \<Rightarrow> action \<Rightarrow> serviceState \<Rightarrow> serviceState" where
  "runAction V (ActOp x c) s =
     (case runOp (pe_platform V) x (ss_world s) of
        (res, w) \<Rightarrow>
          (let s' = s\<lparr>ss_world := w\<rparr>
           in case res of
                None \<Rightarrow> s'
              | Some e \<Rightarrow> if isCanceled e then s' else logFailure V c e s'))"
| "runAction V (ActBlock c reason message tag) s =
     addLogs [hostLog ''warn'' message (credAttrs c @ [(''reason'', JStr tag)])]
       (s\<lparr>ss_world := snd (runOp (pe_platform V) (OpBlock c reason) (ss_world s))\<rparr>)"
| "runAction V (ActSnapshot i) s =
     s\<lparr>ss_before := (ss_before s)(i := snapshot (pf_lib (pe_platform V)) (w_store (ss_world s)))\<rparr>"
| "runAction V (ActLogChanges i c) s =
     addLogs (logStateChanges (ss_before s i) (snapshot (pf_lib (pe_platform V)) (w_store (ss_world s))) c) s"
| "runAction V (ActFail c e) s = logFailure V c e s"

section \<open>One pass\<close>

text \<open>The credentials a pass works on, with the configured ones disabled.\<close>

definition eligible :: "runtimeService \<Rightarrow> Credential \<Rightarrow> (Adapter \<times> Credential) option" where
  "eligible r summary =
     (case matchAdapter (rt_registry r) summary of
        None \<Rightarrow> None
      | Some ad \<Rightarrow>
          (let p = getOr \<lparr>pc_Enabled = False, pc_Mode = ''''\<rparr> (cf_Providers (rt_cfg r)) (ad_ID ad)
           in if \<not> pc_Enabled p \<or> pc_Mode p \<noteq> activateMode then None
              else Some (ad, if cred_AuthID summary |\<in>| cf_Disabled (rt_cfg r)
                             then summary\<lparr>cred_Disabled := True\<rparr> else summary)))"

text \<open>The goroutine of a credential. \<open>n\<close> numbers its call of the host.\<close>

definition credentialActions ::
  "pluginEnv \<Rightarrow> (nat \<Rightarrow> hostRequest \<Rightarrow> error + string) \<Rightarrow> runtimeService \<Rightarrow> nat \<Rightarrow> nat \<Rightarrow> Adapter \<Rightarrow> Credential \<Rightarrow>
   action list" where
  "credentialActions V call r n i ad summary =
     (if cred_Disabled summary then [ActOp (OpTick (rt_controller r) summary (Some ad)) summary]
      else if cred_RuntimeOnly summary then
        [ActBlock summary ''runtime-only credential cannot be read safely'' ''credential unsupported''
           ''runtime_only'']
      else case getCredential (pe_host V) call n summary of
        Inl e \<Rightarrow> [ActFail summary e]
      | Inr cred \<Rightarrow>
          (if hasCredentialProxy (cred_RawJSON cred) then
             [ActBlock summary ''per-credential proxy is unsupported by host.http.do'' ''credential blocked''
                ''credential_proxy_not_inherited'']
           else
             ActSnapshot i #
             (case ad_Activation ad of
                None \<Rightarrow> []
              | Some ops \<Rightarrow> [ActOp (OpRecover (rt_controller r) cred ad ops) summary]) @
             [ActOp (OpTick (rt_controller r) cred (Some ad)) summary, ActLogChanges i summary]))"

definition jobsOf ::
  "pluginEnv \<Rightarrow> (nat \<Rightarrow> hostRequest \<Rightarrow> error + string) \<Rightarrow> runtimeService \<Rightarrow> nat \<Rightarrow> Credential list \<Rightarrow> action list list" where
  "jobsOf V call r n creds =
     List.map_filter (\<lambda>(i, summary).
       case eligible r summary of
         None \<Rightarrow> None
       | Some (ad, c) \<Rightarrow> Some (credentialActions V call r (Suc (n + i)) i ad c)) (enumerate 0 creds)"

text \<open>The schedule names the goroutine of the next action; one that has finished is passed over.\<close>

fun interleave :: "nat list \<Rightarrow> 'a list list \<Rightarrow> 'a list" where
  "interleave [] js = []"
| "interleave (i # is) js =
     (if i < length js then
        (case js ! i of [] \<Rightarrow> interleave is js | x # xs \<Rightarrow> x # interleave is (js[i := xs]))
      else interleave is js)"

definition runOnce ::
  "pluginEnv \<Rightarrow> (nat \<Rightarrow> hostRequest \<Rightarrow> error + string) \<Rightarrow> nat \<Rightarrow> nat list \<Rightarrow> serviceState \<Rightarrow> serviceState" where
  "runOnce V call n sched s =
     (case listCredentials (pe_host V) call n of
        Inl e \<Rightarrow> setError V e s
      | Inr creds \<Rightarrow>
          (let r = ss_service s;
               s1 = fold (\<lambda>c s. if matchAdapter (rt_registry r) c = None then logUnsupportedOnce c s else s) creds s;
               s2 = fold (runAction V) (interleave sched (jobsOf V call r n creds)) s1
           in s2\<lparr>ss_service := (ss_service s2)\<lparr>rt_lastRun := wallClock V s2\<rparr>\<rparr>))"

section \<open>The semaphore\<close>

text \<open>
  The goroutines of a pass and the channel \<open>slots\<close>: how many wait for a slot, run and have
  finished. A waiting one may also leave once the context is done.
\<close>

record pool =
  po_waiting :: nat
  po_running :: nat
  po_finished :: nat

inductive poolStep :: "int \<Rightarrow> bool \<Rightarrow> pool \<Rightarrow> pool \<Rightarrow> bool" for slots ended where
  acquire: "po_waiting p = Suc k \<Longrightarrow> int (po_running p) < slots \<Longrightarrow>
    poolStep slots ended p (p\<lparr>po_waiting := k, po_running := Suc (po_running p)\<rparr>)"
| release: "po_running p = Suc k \<Longrightarrow>
    poolStep slots ended p (p\<lparr>po_running := k, po_finished := Suc (po_finished p)\<rparr>)"
| leave: "ended \<Longrightarrow> po_waiting p = Suc k \<Longrightarrow>
    poolStep slots ended p (p\<lparr>po_waiting := k, po_finished := Suc (po_finished p)\<rparr>)"

section \<open>Status\<close>

record statusDoc =
  sd_GeneratedAt :: time
  sd_Enabled :: bool
  sd_DryRun :: bool
  sd_LastRun :: time
  sd_LastError :: string
  sd_Windows :: "WindowRecord list"
  sd_Attempts :: nat
  sd_LedgerEntries :: nat

definition statusOf :: "pluginEnv \<Rightarrow> runtimeService \<Rightarrow> PersistentState \<Rightarrow> time \<Rightarrow> statusDoc" where
  "statusOf V r state now =
     (let windows = map (\<lambda>w. w\<lparr>wr_CredentialFP := ''''\<rparr>)
            (filter (\<lambda>w. wr_Provider w = ''codex'' \<or> wr_Provider w = ''antigravity'')
              (map (getWindow state) (fmkeys (ps_Windows state))))
      in \<lparr>sd_GeneratedAt = now, sd_Enabled = cf_Enabled (rt_cfg r), sd_DryRun = cf_DryRun (rt_cfg r),
          sd_LastRun = rt_lastRun r, sd_LastError = rt_lastError r, sd_Windows = sort_key wr_Key windows,
          sd_Attempts = card (fset (fmdom (ps_Attempts state))),
          sd_LedgerEntries = card (fset (fmdom (ps_CycleLedger state)))\<rparr>)"

end
