(* ===== verification/PassSafety.thy ===== *)
theory PassSafety
  imports PluginRuntime FenceSafety
begin

text \<open>
  What one pass of the service may send: the composition of the registry, the configuration, the
  host client, the controller and the two adapters.
\<close>

section \<open>A pass runs operations of the controller\<close>

fun opsOf :: "action \<Rightarrow> operation list" where
  "opsOf (ActOp x c) = [x]"
| "opsOf (ActBlock c reason message tag) = [OpBlock c reason]"
| "opsOf _ = []"

lemma setError_simps [simp]:
  "ss_world (setError V e s) = ss_world s" "rt_cfg (ss_service (setError V e s)) = rt_cfg (ss_service s)"
  by (simp_all add: setError_def)

lemma addLogs_simps [simp]: "ss_world (addLogs ls s) = ss_world s" "ss_service (addLogs ls s) = ss_service s"
  by (simp_all add: addLogs_def)

lemma logFailure_world [simp]: "ss_world (logFailure V c e s) = ss_world s"
  by (simp add: logFailure_def)

lemma logUnsupported_world [simp]: "ss_world (logUnsupportedOnce c s) = ss_world s"
  by (simp add: logUnsupportedOnce_def Let_def)

lemma runAction_world: "ss_world (runAction V a s) = runOps (pe_platform V) (opsOf a) (ss_world s)"
  by (cases a) (auto simp: Let_def split: prod.splits option.splits)

lemma runOps_append: "runOps P (xs @ ys) w = runOps P ys (runOps P xs w)"
  by (induction xs arbitrary: w) auto

lemma runActions_world:
  "ss_world (fold (runAction V) acts s) = runOps (pe_platform V) (concat (map opsOf acts)) (ss_world s)"
  by (induction acts arbitrary: s) (simp_all add: runAction_world runOps_append)

lemma set_interleave: "x \<in> set (interleave sched js) \<Longrightarrow> \<exists>j \<in> set js. x \<in> set j"
proof (induction sched js rule: interleave.induct)
  case (2 i sched js)
  show ?case
  proof (cases "i < length js \<and> js ! i \<noteq> []")
    case True
    then obtain y ys where y: "js ! i = y # ys" by (cases "js ! i") auto
    show ?thesis
    proof (cases "x = y")
      case True
      with y \<open>i < length js \<and> js ! i \<noteq> []\<close> show ?thesis by (metis list.set_intros(1) nth_mem)
    next
      case False
      with 2 y True have "x \<in> set (interleave sched (js[i := ys]))" by simp
      with 2 y True obtain j where "j \<in> set (js[i := ys])" "x \<in> set j" by auto
      with y True show ?thesis
        by (metis insertE list.set_intros(2) nth_mem set_update_subset_insert subset_iff)
    qed
  next
    case False
    with 2 show ?thesis by (auto split: if_splits list.splits)
  qed
qed simp

lemma fold_unsupported_world:
  "ss_world (fold (\<lambda>c s. if matchAdapter reg c = None then logUnsupportedOnce c s else s) creds s) = ss_world s"
  by (induction creds arbitrary: s) auto

lemma runOnce_world:
  "\<exists>acts. ss_world (runOnce V call n sched s) = runOps (pe_platform V) (concat (map opsOf acts)) (ss_world s) \<and>
     (\<forall>x \<in> set acts. \<exists>creds. listCredentials (pe_host V) call n = Inr creds \<and>
        (\<exists>j \<in> set (jobsOf V call (ss_service s) n creds). x \<in> set j))"
proof (cases "listCredentials (pe_host V) call n")
  case (Inl e)
  then show ?thesis by (intro exI [of _ "[]"]) (simp add: runOnce_def)
next
  case (Inr creds)
  then show ?thesis
    by (intro exI [of _ "interleave sched (jobsOf V call (ss_service s) n creds)"])
      (auto simp: runOnce_def Let_def runActions_world fold_unsupported_world dest: set_interleave)
qed

section \<open>The jobs\<close>

lemma jobsOf_member:
  assumes "j \<in> set (jobsOf V call r n creds)"
  shows "\<exists>m i summary ad c. summary \<in> set creds \<and> eligible r summary = Some (ad, c) \<and>
    j = credentialActions V call r m i ad c"
proof -
  obtain i summary where i: "(i, summary) \<in> set (enumerate 0 creds)"
    and j: "(case eligible r summary of None \<Rightarrow> None
      | Some (ad, c) \<Rightarrow> Some (credentialActions V call r (Suc (n + i)) i ad c)) = Some j"
    using assms by (auto simp: jobsOf_def in_map_filter)
  from i have "summary \<in> set creds" by (auto simp: in_set_enumerate_eq)
  moreover obtain ad c where "eligible r summary = Some (ad, c)"
    "j = credentialActions V call r (Suc (n + i)) i ad c"
    using j by (auto split: option.splits)
  ultimately show ?thesis by blast
qed

text \<open>
  The conditions under which a pass lets a credential be activated: it is enabled at the host and
  in the configuration, its provider is enabled and in activation mode, its document could be
  read and has no proxy of its own.
\<close>

definition mayActivate ::
  "pluginEnv \<Rightarrow> (nat \<Rightarrow> hostRequest \<Rightarrow> error + string) \<Rightarrow> runtimeService \<Rightarrow> Credential \<Rightarrow> Adapter \<Rightarrow> Credential \<Rightarrow> bool" where
  "mayActivate V call r summary ad cred \<longleftrightarrow>
     matchAdapter (rt_registry r) summary = Some ad \<and>
     (\<exists>p. fmlookup (cf_Providers (rt_cfg r)) (ad_ID ad) = Some p \<and> pc_Enabled p \<and> pc_Mode p = activateMode) \<and>
     cred_AuthID summary |\<notin>| cf_Disabled (rt_cfg r) \<and>
     \<not> cred_Disabled summary \<and> \<not> cred_RuntimeOnly summary \<and>
     (\<exists>m. getCredential (pe_host V) call m summary = Inr cred) \<and>
     \<not> hasCredentialProxy (cred_RawJSON cred)"

lemma credentialActions_tick:
  assumes "ActOp (OpTick C cred adapter) s \<in> set (credentialActions V call r m i ad c)"
  shows "C = rt_controller r \<and> adapter = Some ad \<and>
    (cred_Disabled c \<and> cred = c \<or>
     \<not> cred_Disabled c \<and> \<not> cred_RuntimeOnly c \<and> getCredential (pe_host V) call m c = Inr cred \<and>
     \<not> hasCredentialProxy (cred_RawJSON cred))"
  using assms
  by (auto simp: credentialActions_def split: if_splits sum.splits option.splits)

lemma eligible_Some:
  assumes "eligible r summary = Some (ad, c)"
  shows "matchAdapter (rt_registry r) summary = Some ad"
    "\<exists>p. fmlookup (cf_Providers (rt_cfg r)) (ad_ID ad) = Some p \<and> pc_Enabled p \<and> pc_Mode p = activateMode"
    "c = (if cred_AuthID summary |\<in>| cf_Disabled (rt_cfg r) then summary\<lparr>cred_Disabled := True\<rparr> else summary)"
  using assms
  by (auto simp: eligible_def Let_def getOr_def split: option.splits if_splits)

lemma job_requests:
  assumes "j \<in> set (jobsOf V call r n creds)" and "x \<in> set j" and "y \<in> set (opsOf x)"
    and "mayRequest y c req a"
  shows "\<exists>summary \<in> set creds. \<exists>ad. mayActivate V call r summary ad c \<and>
    permits (rt_controller r) c (Some ad) c req a"
proof -
  obtain m i summary ad c0 where j: "summary \<in> set creds" "eligible r summary = Some (ad, c0)"
    "j = credentialActions V call r m i ad c0"
    using jobsOf_member [OF assms(1)] by blast
  obtain C cred adapter where y: "y = OpTick C cred adapter"
    using assms(4) by (cases y) auto
  then obtain s where x: "x = ActOp (OpTick C cred adapter) s"
    using assms(3) by (cases x) auto
  note t = credentialActions_tick [OF assms(2) [unfolded x j(3)]]
  have p: "permits C cred adapter c req a" using assms(4) y by simp
  with t have en: "\<not> cred_Disabled cred" "c = cred"
    by (auto simp: justified_def planned_def)
  note e = eligible_Some [OF j(2)]
  from en t have "\<not> cred_Disabled c0" by auto
  with e(3) have "cred_AuthID summary |\<notin>| cf_Disabled (rt_cfg r)" "c0 = summary" by (auto split: if_splits)
  with t e(1,2) en p j(1) show ?thesis by (auto simp: mayActivate_def)
qed

lemma pass_requests:
  "\<exists>evs. w_trace (ss_world (runOnce V call n sched s)) = w_trace (ss_world s) @ evs \<and>
     (\<forall>(c, req, a) \<in> set (sends evs). \<exists>creds. listCredentials (pe_host V) call n = Inr creds \<and>
        (\<exists>summary \<in> set creds. \<exists>ad. mayActivate V call (ss_service s) summary ad c \<and>
          permits (rt_controller (ss_service s)) c (Some ad) c req a))"
proof -
  obtain acts where acts: "ss_world (runOnce V call n sched s) =
      runOps (pe_platform V) (concat (map opsOf acts)) (ss_world s)"
    "\<forall>x \<in> set acts. \<exists>creds. listCredentials (pe_host V) call n = Inr creds \<and>
        (\<exists>j \<in> set (jobsOf V call (ss_service s) n creds). x \<in> set j)"
    using runOnce_world by blast
  obtain evs where evs: "w_trace (ss_world (runOnce V call n sched s)) = w_trace (ss_world s) @ evs"
    "set (sends evs) \<subseteq> {(c, req, a). \<exists>x \<in> set (concat (map opsOf acts)). mayRequest x c req a}"
    using sends_admitted [OF runOps_steps, of "pe_platform V" "concat (map opsOf acts)" "ss_world s"]
    unfolding acts(1) by blast
  have "\<exists>creds. listCredentials (pe_host V) call n = Inr creds \<and>
        (\<exists>summary \<in> set creds. \<exists>ad. mayActivate V call (ss_service s) summary ad c \<and>
          permits (rt_controller (ss_service s)) c (Some ad) c req a)"
    if mem: "(c, req, a) \<in> set (sends evs)" for c req a
  proof -
    obtain x y where xy: "x \<in> set acts" "y \<in> set (opsOf x)" "mayRequest y c req a"
    proof -
      have "\<exists>y \<in> set (concat (map opsOf acts)). mayRequest y c req a" using evs(2) mem by blast
      then show thesis using that by auto
    qed
    obtain creds j where j: "listCredentials (pe_host V) call n = Inr creds"
      "j \<in> set (jobsOf V call (ss_service s) n creds)" "x \<in> set j"
      using acts(2) xy(1) by blast
    from job_requests [OF j(2,3) xy(2,3)] j(1) show ?thesis by blast
  qed
  with evs(1) show ?thesis by blast
qed

end
