(* ===== verification/ActivationContract.thy ===== *)
theory ActivationContract
  imports FenceSafety ProviderUtil
begin

text \<open>
  What the controller relies on in an adapter that activates, as a locale: its plans are bounded
  and cover one activation group, a window it can activate belongs to a group, and its lazy
  hints rest on evidence. The two adapters of the program are its interpretations.
\<close>

definition lazyEvidence :: "QuotaWindow \<Rightarrow> bool" where
  "lazyEvidence w \<longleftrightarrow> qw_UsedPercent w = Some (FFin 0) \<and>
     absDuration (subTime (qw_ResetAt w) (addTime (qw_ObservedAt w) (qw_WindowDuration w))) \<le> 3 * minute"

definition boundedPlan :: "WindowRecord list \<Rightarrow> ActivationPlan \<Rightarrow> bool" where
  "boundedPlan rs plan \<longleftrightarrow> rs \<noteq> [] \<and>
     0 < pl_MaxInput plan \<and> pl_MaxInput plan \<le> 4 \<and> 0 < pl_MaxOutput plan \<and> pl_MaxOutput plan \<le> 1 \<and>
     rq_Method (pl_Request plan) = ''POST'' \<and> rq_URL (pl_Request plan) \<noteq> '''' \<and>
     pl_WindowKeys plan = map wr_Key rs \<and>
     pl_Group plan \<noteq> '''' \<and> (\<forall>r \<in> set rs. wr_ActivationGroup r = pl_Group plan)"

locale activation_adapter =
  fixes ad :: Adapter and ops :: ActivationOps
  assumes activation: "ad_Activation ad = Some ops"
    and plan_bounded: "ac_PlanActivation ops n c rs = Inr plan \<Longrightarrow> boundedPlan rs plan"
    and can_in_group: "ad_ReadQuota ad n c = Inr obs \<Longrightarrow> w \<in> set (ob_Windows obs) \<Longrightarrow>
      ac_CanActivate ops w \<Longrightarrow> qw_ActivationGroup w \<noteq> '''' \<and> qw_WindowDuration w > 0"
    and can_attributed: "ac_CanActivate ops (attribute c w) = ac_CanActivate ops w"
    and lazy_evidence: "ad_ReadQuota ad n c = Inr obs \<Longrightarrow> w \<in> set (ob_Windows obs) \<Longrightarrow>
      qw_LazyHint w \<Longrightarrow> lazyEvidence w"
begin

text \<open>A group the controller hands to the adapter is never refused as unbounded.\<close>

lemma activate_plan:
  assumes "ctl_sender C = Some send" and "ac_PlanActivation ops (w_n w) cred rs = Inr plan"
    and "pf_rand P (Suc (w_n w)) = Inr b"
  shows "activateGroup P C cred ad ops rs w =
    fenceAndSend P C send cred ad ops (pl_Request plan)
      (newAttempt (ctl_cfg C) cred (hexEncode b) (pl_Group plan) (ctl_now C (Suc (Suc (w_n w)))) rs)
      (tick1 (tick1 (tick1 w)))"
  using assms plan_bounded [OF assms(2)]
  by (simp add: activateGroup_def boundedPlan_def randomID_def readClock_def tick1_def)

text \<open>What the admission of a tick says of a request of this adapter.\<close>

lemma permits_bounded:
  assumes "permits C cred (Some ad) c req a"
  shows "c = cred \<and> (\<exists>rs n plan. ac_PlanActivation ops n cred rs = Inr plan \<and> req = pl_Request plan \<and>
    boundedPlan rs plan \<and> pa_WindowKeys a = pl_WindowKeys plan \<and>
    pa_CycleIDs a = map (bl_CycleID \<circ> wr_Baseline) rs \<and> (\<forall>r \<in> set rs. stillLazy (ctl_cfg C) ops r))"
proof -
  obtain rs n plan where p: "c = cred" "\<forall>r \<in> set rs. stillLazy (ctl_cfg C) ops r"
    "pa_WindowKeys a = map wr_Key rs" "pa_CycleIDs a = map (bl_CycleID \<circ> wr_Baseline) rs"
    "ac_PlanActivation ops n cred rs = Inr plan" "req = pl_Request plan"
    using assms activation by (auto simp: justified_def planned_def)
  note b = plan_bounded [OF p(5)]
  then have "pa_WindowKeys a = pl_WindowKeys plan" using p(3) by (simp add: boundedPlan_def)
  with p b show ?thesis by blast
qed

text \<open>Each window of a request shows lazy evidence or its baseline's reset, when it comes from a read.\<close>

lemma stillLazy_evidence:
  assumes "stillLazy cfg ops r" and "ad_ReadQuota ad n c = Inr obs"
    and "wr_Latest r = w \<or> wr_Latest r = attribute c w" and "w \<in> set (ob_Windows obs)"
  shows "qw_ActivationGroup w \<noteq> '''' \<and>
    (lazyEvidence w \<or>
     absDuration (subTime (qw_ResetAt w) (bl_ResetAt (wr_Baseline r))) \<le> cfg_ClockSkewTolerance cfg)"
proof -
  have eq: "qw_LazyHint (wr_Latest r) = qw_LazyHint w" "qw_ResetAt (wr_Latest r) = qw_ResetAt w"
    "ac_CanActivate ops (wr_Latest r) = ac_CanActivate ops w"
    using assms(3) can_attributed by (auto simp: attribute_def)
  have can: "ac_CanActivate ops w" using assms(1) eq by (simp add: stillLazy_def)
  note g = can_in_group [OF assms(2,4) can]
  show ?thesis
    using assms(1) g lazy_evidence [OF assms(2,4)] eq by (auto simp: stillLazy_def)
qed

end

end
