(* ===== verification/CodexContract.thy ===== *)
theory CodexContract
  imports ActivationContract CodexAdapter
begin

text \<open>
  The Codex adapter keeps the activation contract: what \<open>parseQuota\<close> gives, which windows can
  be activated, what a plan holds, and how the identity of a credential is found.
\<close>

section \<open>The windows of an observation\<close>

text \<open>What every window of \<open>parseWindow\<close> satisfies.\<close>

definition codexShape :: "string \<Rightarrow> time \<Rightarrow> QuotaWindow \<Rightarrow> bool" where
  "codexShape authID now w \<longleftrightarrow>
     qw_Provider w = ''codex'' \<and> qw_AuthID w = authID \<and> qw_ObservedAt w = now \<and> 0 < qw_WindowDuration w \<and>
     qw_Scope w \<in> {''main'', ''code_review'', ''additional''} \<and>
     qw_ActivationGroup w = (if qw_Scope w = ''main'' then ''codex-main'' else '''') \<and>
     prefix (qw_Scope w @ '':'') (qw_BucketID w) \<and>
     (qw_Complete w \<longleftrightarrow> qw_UsedPercent w \<noteq> None) \<and> (qw_LazyHint w \<longrightarrow> lazyEvidence w)"

lemma codexLazy_evidence:
  "codexLazy (qw_UsedPercent w) (qw_ResetAt w) (qw_ObservedAt w) (qw_WindowDuration w) = lazyEvidence w"
  by (auto simp: codexLazy_def lazyEvidence_def floatIsZero_def codexAbs_def absDuration_def split: option.splits)

lemma codexWindow_Some:
  assumes "codexWindow arch raw authID scope i fallback now activate = Some w"
  shows "qw_Provider w = ''codex''" "qw_AuthID w = authID" "qw_ObservedAt w = now" "0 < qw_WindowDuration w"
    "qw_Scope w = scope" "qw_ActivationGroup w = (if activate then ''codex-main'' else '''')"
    "prefix (scope @ '':'') (qw_BucketID w)" "qw_Complete w \<longleftrightarrow> qw_UsedPercent w \<noteq> None"
    "qw_LazyHint w =
      codexLazy (qw_UsedPercent w) (qw_ResetAt w) (qw_ObservedAt w) (qw_WindowDuration w)"
  using assms
  by (auto simp: codexWindow_def Let_def split: option.splits if_splits)

lemma codexWindow_shape:
  assumes "codexWindow arch raw authID scope i fallback now activate = Some w"
    and "scope \<in> {''main'', ''code_review'', ''additional''}" and "activate \<longleftrightarrow> scope = ''main''"
  shows "codexShape authID now w"
proof -
  note f = codexWindow_Some [OF assms(1)]
  have "qw_LazyHint w = lazyEvidence w" by (simp only: f(9) codexLazy_evidence)
  then show ?thesis
    unfolding codexShape_def f(1) f(2) f(3) f(5) f(6) f(8) using f(4,7) assms(2,3) by simp
qed

lemma mainWindows_shape: "w \<in> set (mainWindows arch rate authID now) \<Longrightarrow> codexShape authID now w"
  by (auto simp: mainWindows_def in_map_filter intro: codexWindow_shape split: option.splits)

lemma reviewWindows_shape: "w \<in> set (reviewWindows arch review authID now) \<Longrightarrow> codexShape authID now w"
  by (auto simp: reviewWindows_def in_map_filter intro: codexWindow_shape split: option.splits)

lemma codexShape_family [simp]: "codexShape authID now (w\<lparr>qw_ModelFamily := f\<rparr>) = codexShape authID now w"
  by (simp add: codexShape_def lazyEvidence_def)

lemma additionalWindows_from:
  assumes "w \<in> set (additionalWindows arch i item authID now)"
  shows "\<exists>w0 f rw b. w = w0\<lparr>qw_ModelFamily := f\<rparr> \<and>
    codexWindow arch rw authID ''additional'' b 0 now False = Some w0"
proof -
  obtain m where item: "item = JObj m" using assms by (cases item) (auto simp: additionalWindows_def)
  obtain r where rate: "codexObject m [''rate_limit'', ''rateLimit''] = Some r"
    using assms item by (cases "codexObject m [''rate_limit'', ''rateLimit'']")
      (auto simp: additionalWindows_def Let_def)
  obtain name slot where "(case codexObject r [slot, toCamel slot] of None \<Rightarrow> None
      | Some rw \<Rightarrow> map_option (\<lambda>w. w\<lparr>qw_ModelFamily := name\<rparr>)
          (codexWindow arch rw authID ''additional'' (name @ '':'' @ slot) 0 now False)) = Some w"
    using assms item rate unfolding additionalWindows_def Let_def
    by (simp only: json.case option.case in_map_filter) blast
  then show ?thesis by (auto split: option.split_asm)
qed

lemma additionalWindows_shape:
  "w \<in> set (additionalWindows arch i item authID now) \<Longrightarrow> codexShape authID now w"
  by (auto dest!: additionalWindows_from simp: codexWindow_shape)

lemma codexParse_shape:
  assumes "codexParse E raw authID now = Inr obs" and "w \<in> set (ob_Windows obs)"
  shows "codexShape authID now w"
  using assms
  by (auto simp: codexParse_def Let_def reviewPart_def additionalPart_def dest: mainWindows_shape reviewWindows_shape additionalWindows_shape
      split: sum.splits option.splits if_splits)

lemma codexReadQuota_shape:
  assumes "codexReadQuota E n c = Inr obs" and "w \<in> set (ob_Windows obs)"
  shows "codexShape (cred_AuthID c) (ae_now E n) w"
  using assms codexParse_shape
  by (auto simp: codexReadQuota_def split: option.splits sum.splits if_splits)

section \<open>Plans\<close>

lemma codexPlan_Inr:
  assumes "codexPlan E n c records = Inr plan"
  shows "\<exists>parsed. extractCredentials E (ae_order E n) (cred_RawJSON c) = Inr parsed \<and>
    records \<noteq> [] \<and> (\<forall>r \<in> set records. wr_ActivationGroup r = ''codex-main'') \<and>
    plan = \<lparr>pl_Group = ''codex-main'',
      pl_Request = \<lparr>rq_Method = ''POST'', rq_URL = codexActivationURL, rq_Headers = authHeaders parsed,
        rq_Body = encodeJSON (ae_numberText E) codexPayload\<rparr>,
      pl_WindowKeys = map wr_Key records, pl_TargetModel = codexModel, pl_MaxInput = 4, pl_MaxOutput = 1\<rparr>"
  using assms by (auto simp: codexPlan_def split: sum.splits if_splits)

lemma codexPlan_bounded: "codexPlan E n c records = Inr plan \<Longrightarrow> boundedPlan records plan"
  using codexPlan_Inr [of E n c records plan]
  by (auto simp: boundedPlan_def codexActivationURL_def)

interpretation codex: activation_adapter "codexAdapter E" "codexOps E"
proof
  show "ad_Activation (codexAdapter E) = Some (codexOps E)" by (simp add: codexAdapter_def)
  show "boundedPlan rs plan" if "ac_PlanActivation (codexOps E) n c rs = Inr plan" for n c rs plan
    using that by (simp add: codexOps_def codexPlan_bounded)
  show "ac_CanActivate (codexOps E) (attribute c w) = ac_CanActivate (codexOps E) w" for c w
    by (simp add: codexOps_def codexCanActivate_def attribute_def)
  fix n c obs w
  assume read: "ad_ReadQuota (codexAdapter E) n c = Inr obs" "w \<in> set (ob_Windows obs)"
  then have shape: "codexShape (cred_AuthID c) (ae_now E n) w"
    by (simp add: codexAdapter_def codexReadQuota_shape)
  show "qw_ActivationGroup w \<noteq> '''' \<and> 0 < qw_WindowDuration w" if "ac_CanActivate (codexOps E) w"
    using that shape by (auto simp: codexOps_def codexCanActivate_def codexShape_def)
  show "lazyEvidence w" if "qw_LazyHint w"
    using that shape by (simp add: codexShape_def)
qed

section \<open>Credentials\<close>

text \<open>The tokens come from the credential's own document, whatever the order of the ranges.\<close>

lemma codexDeepString_in:
  assumes "anyOrder ord" and "codexDeepString ord doc key = s" and "s \<noteq> ''''"
  shows "s \<in> stringsAt key doc"
  using deepString_reordered [of doc "ord key doc" key] assms
  by (auto simp: anyOrder_def codexDeepString_def foundText_def split: option.splits)

lemma codexDeepString_unique:
  assumes "anyOrder ord" and "stringsAt key doc = {s}"
  shows "codexDeepString ord doc key = s"
  using deepString_unique [of doc "ord key doc" key s] assms
  by (simp add: codexDeepString_def foundText_def anyOrder_def)

lemma extractCredentials_Inr:
  assumes "extractCredentials E ord raw = Inr parsed"
  shows "\<exists>doc. parseJSON raw = Some doc \<and> cx_AccessToken parsed = codexDeepString ord doc ''access_token'' \<and>
    cx_AccessToken parsed \<noteq> ''''"
  using assms by (auto simp: extractCredentials_def Let_def split: option.splits if_splits)

lemma extractCredentials_token:
  assumes "extractCredentials E ord raw = Inr parsed" and "anyOrder ord"
  shows "\<exists>doc. parseJSON raw = Some doc \<and> cx_AccessToken parsed \<in> stringsAt ''access_token'' doc"
  using extractCredentials_Inr [OF assms(1)] codexDeepString_in [OF assms(2)] by metis

lemma extractCredentials_account:
  assumes "parseJSON raw = Some doc" and "anyOrder ord"
    and "stringsAt ''account_id'' doc = {a}" and "a \<noteq> ''''"
    and "'''' \<notin> stringsAt ''access_token'' doc" and "stringsAt ''access_token'' doc \<noteq> {}"
  shows "\<exists>parsed. extractCredentials E ord raw = Inr parsed \<and> cx_AccountID parsed = a"
proof -
  have "codexDeepString ord doc ''account_id'' = a"
    by (rule codexDeepString_unique [OF assms(2,3)])
  moreover have "codexDeepString ord doc ''access_token'' \<noteq> ''''"
    using deepString_reordered [of doc "ord ''access_token'' doc" "''access_token''"] assms(2,5,6)
    by (auto simp: anyOrder_def codexDeepString_def foundText_def split: option.splits)
  ultimately show ?thesis
    using assms(1,4) by (simp add: extractCredentials_def Let_def)
qed

end
