(* ===== verification/AntigravityContract.thy ===== *)
theory AntigravityContract
  imports ActivationContract AntigravityAdapter
begin

text \<open>
  The Antigravity adapter keeps the activation contract: the stable buckets of a summary, the
  groups a plan may cover, the numbers of its requests and where its credential is found.
\<close>

section \<open>The windows of an observation\<close>

definition antigravityShape :: "string \<Rightarrow> time \<Rightarrow> QuotaWindow \<Rightarrow> bool" where
  "antigravityShape authID now w \<longleftrightarrow>
     qw_Provider w = ''antigravity'' \<and> qw_AuthID w = authID \<and> qw_ObservedAt w = now \<and>
     0 < qw_WindowDuration w \<and> qw_BucketID w \<noteq> '''' \<and> qw_UsedPercent w \<noteq> None \<and> qw_Complete w \<and>
     qw_ActivationGroup w = activationGroup (qw_BucketID w) \<and> (qw_LazyHint w \<longrightarrow> lazyEvidence w)"

lemma floatIsZero_FFin: "floatIsZero x \<longleftrightarrow> x = FFin 0"
  by (cases x) (auto simp: floatIsZero_def)

lemma antigravityBucket_Some:
  assumes "antigravityBucket E gi grp bi b authID now = Some w"
  shows "qw_Provider w = ''antigravity''" "qw_AuthID w = authID" "qw_ObservedAt w = now"
    "0 < qw_WindowDuration w" "qw_BucketID w \<noteq> ''''" "qw_Complete w"
    "qw_ActivationGroup w = activationGroup (qw_BucketID w)"
    "\<exists>used. qw_UsedPercent w = Some used \<and> (qw_LazyHint w \<longleftrightarrow> floatIsZero used \<and>
      antigravityAbs (subTime (qw_ResetAt w) (addTime (qw_ObservedAt w) (qw_WindowDuration w))) \<le> 3 * minute)"
proof -
  obtain bm where bm: "b = JObj bm" using assms by (cases b) (auto simp: antigravityBucket_def)
  define i where "i = stringOf [''bucketId'', ''bucket_id''] bm"
  define d where "d = windowDuration (stringOf [''window''] bm)"
  have i: "\<not> i = ''''" using assms by (auto simp: antigravityBucket_def bm i_def Let_def)
  obtain remaining where remaining: "numberOf [''remainingFraction'', ''remaining_fraction''] bm = Some remaining"
    using assms i unfolding antigravityBucket_def bm json.case i_def [symmetric] Let_def
    by (cases "numberOf [''remainingFraction'', ''remaining_fraction''] bm") (simp_all only: if_False option.case option.distinct)
  obtain reset where reset: "timeOf [''resetTime'', ''reset_time''] bm = Some reset"
    using assms i remaining unfolding antigravityBucket_def bm json.case i_def [symmetric] Let_def
    by (cases "timeOf [''resetTime'', ''reset_time''] bm") (simp_all only: if_False option.case option.distinct)
  have d: "\<not> d \<le> 0"
    using assms i remaining reset unfolding antigravityBucket_def bm json.case i_def [symmetric] Let_def d_def
    by (auto simp only: if_False if_True option.case option.distinct)
  have w: "Some w = Some \<lparr>qw_Provider = ''antigravity'', qw_AuthID = authID, qw_BucketID = i,
       qw_ModelFamily = grp, qw_Scope = ''group-'' @ intText (int gi) @ ''-bucket-'' @ intText (int bi),
       qw_UsedPercent = Some (floatMul (FFin 100) (floatSub (FFin 1) remaining)), qw_ResetAt = reset,
       qw_WindowDuration = d, qw_ObservedAt = now, qw_ServerTime = zeroTime,
       qw_ActivationGroup = activationGroup i,
       qw_LazyHint = (floatIsZero (floatMul (FFin 100) (floatSub (FFin 1) remaining)) \<and>
         antigravityAbs (subTime reset (addTime now d)) \<le> 3 * minute), qw_Complete = True\<rparr>"
    using assms i remaining reset d
    unfolding antigravityBucket_def bm json.case i_def [symmetric] d_def [symmetric] Let_def
    by (simp only: if_False option.case)
  then show "qw_Provider w = ''antigravity''" "qw_AuthID w = authID" "qw_ObservedAt w = now"
    "0 < qw_WindowDuration w" "qw_BucketID w \<noteq> ''''" "qw_Complete w"
    "qw_ActivationGroup w = activationGroup (qw_BucketID w)"
    using i d by (simp_all only: option.inject QuotaWindow.simps not_le) simp
  show "\<exists>used. qw_UsedPercent w = Some used \<and> (qw_LazyHint w \<longleftrightarrow> floatIsZero used \<and>
      antigravityAbs (subTime (qw_ResetAt w) (addTime (qw_ObservedAt w) (qw_WindowDuration w))) \<le> 3 * minute)"
    using w by (intro exI [of _ "floatMul (FFin 100) (floatSub (FFin 1) remaining)"])
      (simp only: option.inject QuotaWindow.simps)
qed

lemma antigravityAbs_eq: "antigravityAbs d = absDuration d"
  by (simp add: antigravityAbs_def absDuration_def)

lemma antigravityBucket_shape:
  assumes "antigravityBucket E gi grp bi b authID now = Some w"
  shows "antigravityShape authID now w"
proof -
  note f = antigravityBucket_Some [OF assms]
  obtain used where used: "qw_UsedPercent w = Some used"
    "qw_LazyHint w \<longleftrightarrow> floatIsZero used \<and>
      absDuration (subTime (qw_ResetAt w) (addTime (qw_ObservedAt w) (qw_WindowDuration w))) \<le> 3 * minute"
    using f(8) unfolding antigravityAbs_eq by blast
  then have "qw_LazyHint w \<longrightarrow> lazyEvidence w" by (simp add: lazyEvidence_def floatIsZero_FFin)
  then show ?thesis using f(1-7) used(1) by (simp add: antigravityShape_def)
qed

lemma antigravityGroup_shape:
  "w \<in> set (antigravityGroup E gi g authID now) \<Longrightarrow> antigravityShape authID now w"
  by (cases g) (auto simp: antigravityGroup_def Let_def in_map_filter intro: antigravityBucket_shape)

lemma antigravityParse_shape:
  assumes "antigravityParse E raw authID now = Inr obs" and "w \<in> set (ob_Windows obs)"
  shows "antigravityShape authID now w"
  using assms
  by (auto simp: antigravityParse_def Let_def dest: antigravityGroup_shape
      split: sum.split_asm option.split_asm if_split_asm)

lemma tryURLs_shape:
  "tryURLs E call n c token body urls err = Inr obs \<Longrightarrow> w \<in> set (ob_Windows obs) \<Longrightarrow>
     antigravityShape (cred_AuthID c) (ae_now E n) w"
  by (induction urls arbitrary: err) (auto dest: antigravityParse_shape split: sum.split_asm if_split_asm)

lemma antigravityReadQuota_shape:
  assumes "antigravityReadQuota E n c = Inr obs" and "w \<in> set (ob_Windows obs)"
  shows "antigravityShape (cred_AuthID c) (ae_now E n) w"
  using assms
  by (auto simp: antigravityReadQuota_def dest: tryURLs_shape split: option.split_asm sum.split_asm prod.split_asm)

section \<open>Groups\<close>

lemma activationGroup_values: "activationGroup i \<in> {'''', geminiGroup, thirdPartyGroup}"
  by (simp add: activationGroup_def Let_def)

lemma activationModel_empty: "activationModel grp = '''' \<longleftrightarrow> grp \<noteq> geminiGroup \<and> grp \<noteq> thirdPartyGroup"
  by (simp add: activationModel_def)

lemma groups_distinct: "geminiGroup \<noteq> ''''" "thirdPartyGroup \<noteq> ''''" "geminiGroup \<noteq> thirdPartyGroup"
  by (simp_all add: geminiGroup_def thirdPartyGroup_def)

section \<open>Plans\<close>

lemma antigravityPlan_Inr:
  assumes "antigravityPlan E n c records = Inr plan"
  shows "\<exists>doc token project ids. decodeObject E (cred_RawJSON c) = Inr doc \<and>
    tokenAndProject (ae_order E n) doc = Inr (token, project) \<and> requestIDs (ae_rand E n) = Inr ids \<and>
    records \<noteq> [] \<and> pl_Group plan \<in> {geminiGroup, thirdPartyGroup} \<and>
    (\<forall>r \<in> set records. wr_ActivationGroup r = pl_Group plan \<and> antigravityCanActivate (wr_Latest r)) \<and>
    plan = \<lparr>pl_Group = pl_Group plan,
      pl_Request = \<lparr>rq_Method = ''POST'',
        rq_URL = antigravityBaseURL (ae_order E n) c doc @ generatePath,
        rq_Headers = antigravityHeaders token,
        rq_Body = encodeJSON (ae_numberText E)
          (antigravityPayload (activationModel (pl_Group plan)) project (fst ids) (snd ids))\<rparr>,
      pl_WindowKeys = map wr_Key records, pl_TargetModel = activationModel (pl_Group plan),
      pl_MaxInput = 4, pl_MaxOutput = 1\<rparr>"
proof -
  obtain r0 rs where r: "records = r0 # rs"
    using assms by (cases records) (auto simp: antigravityPlan_def)
  define grp where "grp = wr_ActivationGroup r0"
  have g: "\<not> activationModel grp = ''''"
    "\<not> (\<exists>r \<in> set records. wr_ActivationGroup r \<noteq> grp \<or> \<not> antigravityCanActivate (wr_Latest r))"
    using assms unfolding r antigravityPlan_def Let_def grp_def list.case
    by (auto split: if_split_asm)
  obtain doc token project ids where "decodeObject E (cred_RawJSON c) = Inr doc"
    "tokenAndProject (ae_order E n) doc = Inr (token, project)" "requestIDs (ae_rand E n) = Inr ids"
    "plan = \<lparr>pl_Group = grp,
      pl_Request = \<lparr>rq_Method = ''POST'',
        rq_URL = antigravityBaseURL (ae_order E n) c doc @ generatePath,
        rq_Headers = antigravityHeaders token,
        rq_Body = encodeJSON (ae_numberText E)
          (antigravityPayload (activationModel grp) project (fst ids) (snd ids))\<rparr>,
      pl_WindowKeys = map wr_Key records, pl_TargetModel = activationModel grp,
      pl_MaxInput = 4, pl_MaxOutput = 1\<rparr>"
    using assms g unfolding r antigravityPlan_def Let_def grp_def list.case
    by (auto simp only: if_False split: sum.split_asm prod.split_asm) auto
  with g r show ?thesis by (auto simp: activationModel_empty)
qed

lemma antigravityPlan_bounded: "antigravityPlan E n c records = Inr plan \<Longrightarrow> boundedPlan records plan"
  using antigravityPlan_Inr [of E n c records plan] groups_distinct
  by (auto simp: boundedPlan_def generatePath_def)

interpretation antigravity: activation_adapter "antigravityAdapter E" "antigravityOps E"
proof
  show "ad_Activation (antigravityAdapter E) = Some (antigravityOps E)" by (simp add: antigravityAdapter_def)
  show "boundedPlan rs plan" if "ac_PlanActivation (antigravityOps E) n c rs = Inr plan" for n c rs plan
    using that by (simp add: antigravityOps_def antigravityPlan_bounded)
  show "ac_CanActivate (antigravityOps E) (attribute c w) = ac_CanActivate (antigravityOps E) w" for c w
    by (simp add: antigravityOps_def antigravityCanActivate_def attribute_def)
  fix n c obs w
  assume "ad_ReadQuota (antigravityAdapter E) n c = Inr obs" "w \<in> set (ob_Windows obs)"
  then have shape: "antigravityShape (cred_AuthID c) (ae_now E n) w"
    by (simp add: antigravityAdapter_def antigravityReadQuota_shape)
  show "qw_ActivationGroup w \<noteq> '''' \<and> 0 < qw_WindowDuration w" if "ac_CanActivate (antigravityOps E) w"
    using that shape by (auto simp: antigravityOps_def antigravityCanActivate_def antigravityShape_def Let_def
        split: if_splits)
  show "lazyEvidence w" if "qw_LazyHint w"
    using that shape by (simp add: antigravityShape_def)
qed

section \<open>Credentials and numbers\<close>

lemma deepStringOf_in:
  assumes "anyOrder ord" and "deepStringOf ord keys v = Some s"
  shows "\<exists>key \<in> set keys. s \<in> trimSpace ` stringsAt key v \<and> s \<noteq> ''''"
  using assms(2)
proof (induction keys)
  case (Cons key keys)
  have "reordered v (ord key v)" using assms(1) by (simp add: anyOrder_def)
  from deepString_reordered [OF this, of key] Cons show ?case
    by (auto split: option.split_asm if_split_asm)
qed simp

lemma tokenAndProject_Inr:
  assumes "tokenAndProject ord doc = Inr (token, project)" and "anyOrder ord"
  shows "token \<noteq> '''' \<and> token \<in> trimSpace ` stringsAt ''access_token'' (JObj doc) \<and> project \<noteq> '''' \<and>
    (\<exists>key \<in> {''project_id'', ''projectId''}. project \<in> trimSpace ` stringsAt key (JObj doc))"
proof -
  have "token = foundText (deepStringOf ord [''access_token''] (JObj doc))"
    "project = foundText (deepStringOf ord [''project_id'', ''projectId''] (JObj doc))"
    "token \<noteq> ''''" "project \<noteq> ''''"
    using assms(1) by (auto simp: tokenAndProject_def Let_def simp del: deepStringOf.simps split: if_splits)
  then show ?thesis
    using deepStringOf_in [OF assms(2), of "[''access_token'']" "JObj doc"]
      deepStringOf_in [OF assms(2), of "[''project_id'', ''projectId'']" "JObj doc"]
    by (auto simp: foundText_def simp del: deepStringOf.simps split: option.splits)
qed

text \<open>A session number is positive and below nine quintillion and one, so it fits an \<open>int64\<close>.\<close>

lemma sessionNumber_bounds:
  "1 \<le> unat (sessionNumber raw) \<and> unat (sessionNumber raw) \<le> 9000000000000000000"
proof -
  let ?x = "fold (\<lambda>b v. push_bit 8 v OR word_of_int (code b)) raw 0 :: 64 word"
  let ?m = "?x mod 9000000000000000000"
  have m: "unat ?m < 9000000000000000000"
    by (simp add: unat_mod)
  then have "unat (?m + 1) = unat ?m + 1"
    by (simp add: unat_plus_simple [THEN iffD1] unat_word_ariths)
  with m show ?thesis by (simp add: sessionNumber_def)
qed

end
