(* ===== verification/EndToEnd.thy ===== *)
theory EndToEnd
  imports PassSafety CodexContract AntigravityContract
begin

text \<open>
  The program put together: the requests of a pass of the service that \<open>newRuntime\<close> makes,
  through the two adapters it registers.
\<close>

section \<open>The service of newRuntime\<close>

lemma controllerConfig_dry:
  "controllerConfig cfg = Inr cfg' \<Longrightarrow> cfg_DryRun cfg' = cfg_DryRun cfg"
  by (auto simp: controllerConfig_def Let_def split: if_splits)

lemma newRuntime_Inr:
  assumes "newRuntime V cfg f = Inr (r, st)"
  shows "rt_cfg r = cfg" "newRegistry (map Some (registeredAdapters V)) = Inr (rt_registry r)"
    "cfg_DryRun (ctl_cfg (rt_controller r)) = cfg_DryRun (cf_Core cfg)"
    "ctl_sender (rt_controller r) = Some (senderSend (Some (hostHTTP (pe_host V))))"
  using assms
  by (auto simp: newRuntime_def newController_def controllerConfig_dry split: sum.splits)

text \<open>A pass changes neither the registry nor the controller nor the configuration.\<close>

definition sameService :: "runtimeService \<Rightarrow> runtimeService \<Rightarrow> bool" where
  "sameService r r' \<longleftrightarrow> rt_cfg r' = rt_cfg r \<and> rt_registry r' = rt_registry r \<and> rt_controller r' = rt_controller r"

lemma sameService_refl [simp]: "sameService r r"
  by (simp add: sameService_def)

lemma runtime_adapters:
  assumes "newRuntime V cfg f = Inr (r, st)" and "matchAdapter (rt_registry r) c = Some ad"
  shows "ad = codexAdapter (hostedEnv V) \<and> codexMatch c \<or>
    ad = antigravityAdapter (hostedEnv V) \<and> antigravityMatch c"
proof -
  note reg = newRuntime_Inr(2) [OF assms(1)]
  have "rt_registry r = \<lparr>rg_adapters = fmupd ''antigravity'' (antigravityAdapter (hostedEnv V))
      (fmupd ''codex'' (codexAdapter (hostedEnv V)) fmempty)\<rparr>"
    using reg unfolding newRegistry_def registerAll_Inr
    by (simp add: registeredAdapters_def codexAdapter_def antigravityAdapter_def)
  then have "ad = codexAdapter (hostedEnv V) \<or> ad = antigravityAdapter (hostedEnv V)"
    using matchAdapter_Some [OF newRegistry_well [OF reg], of c ad] assms(2)
    by (auto split: if_splits)
  moreover have "ad_Match ad c"
    using matchAdapter_Some [OF newRegistry_well [OF reg], of c ad] assms(2) by simp
  ultimately show ?thesis by (auto simp: codexAdapter_def antigravityAdapter_def)
qed

section \<open>The requests of the adapters\<close>

text \<open>
  The one request Codex may get for a credential: the fixed URL and payload, with a token that
  the credential's own document holds.
\<close>

definition codexRequest :: "adapterEnv \<Rightarrow> Credential \<Rightarrow> ActivationRequest \<Rightarrow> bool" where
  "codexRequest E c req \<longleftrightarrow> codexMatch c \<and>
     (\<exists>doc token. parseJSON (cred_RawJSON c) = Some doc \<and> token \<in> stringsAt ''access_token'' doc \<and>
        rq_Method req = ''POST'' \<and> rq_URL req = codexActivationURL \<and>
        fmlookup (rq_Headers req) ''Authorization'' = Some [''Bearer '' @ token] \<and>
        rq_Body req = encodeJSON (ae_numberText E) codexPayload)"

text \<open>
  A request to Antigravity: below the base URL of the credential (its attributes, its document
  or the daily endpoint), with its token, its project and the model of the group.
\<close>

definition antigravityRequest :: "adapterEnv \<Rightarrow> Credential \<Rightarrow> ActivationRequest \<Rightarrow> bool" where
  "antigravityRequest E c req \<longleftrightarrow> antigravityMatch c \<and>
     (\<exists>ord doc token project ids grp. anyOrder ord \<and> decodeObject E (cred_RawJSON c) = Inr doc \<and>
        token \<in> trimSpace ` stringsAt ''access_token'' (JObj doc) \<and>
        grp \<in> {geminiGroup, thirdPartyGroup} \<and>
        rq_Method req = ''POST'' \<and> rq_URL req = antigravityBaseURL ord c doc @ generatePath \<and>
        fmlookup (rq_Headers req) ''Authorization'' = Some [''Bearer '' @ token] \<and>
        rq_Body req = encodeJSON (ae_numberText E)
          (antigravityPayload (activationModel grp) project (fst ids) (snd ids)) \<and>
        (\<exists>key \<in> {''project_id'', ''projectId''}. project \<in> trimSpace ` stringsAt key (JObj doc)))"

lemma authHeaders_token:
  "fmlookup (authHeaders x) ''Authorization'' = Some [''Bearer '' @ cx_AccessToken x]"
  by (simp add: authHeaders_def Let_def fmlookup_of_list)

lemma codexPlan_request:
  assumes "codexPlan E n c rs = Inr plan" and "anyOrder (ae_order E n)" and "codexMatch c"
  shows "codexRequest E c (pl_Request plan)"
proof -
  obtain parsed where p: "extractCredentials E (ae_order E n) (cred_RawJSON c) = Inr parsed"
    "pl_Request plan = \<lparr>rq_Method = ''POST'', rq_URL = codexActivationURL,
      rq_Headers = authHeaders parsed, rq_Body = encodeJSON (ae_numberText E) codexPayload\<rparr>"
    using codexPlan_Inr [OF assms(1)] by auto
  obtain doc where "parseJSON (cred_RawJSON c) = Some doc"
    "cx_AccessToken parsed \<in> stringsAt ''access_token'' doc"
    using extractCredentials_token [OF p(1) assms(2)] by blast
  with p(2) assms(3) show ?thesis by (auto simp: codexRequest_def authHeaders_token)
qed

lemma antigravityPlan_request:
  assumes "antigravityPlan E n c rs = Inr plan" and "anyOrder (ae_order E n)" and "antigravityMatch c"
  shows "antigravityRequest E c (pl_Request plan)"
proof -
  obtain doc token project ids where p: "decodeObject E (cred_RawJSON c) = Inr doc"
    "tokenAndProject (ae_order E n) doc = Inr (token, project)"
    "pl_Group plan \<in> {geminiGroup, thirdPartyGroup}"
    and plan: "plan = \<lparr>pl_Group = pl_Group plan,
      pl_Request = \<lparr>rq_Method = ''POST'',
        rq_URL = antigravityBaseURL (ae_order E n) c doc @ generatePath,
        rq_Headers = antigravityHeaders token,
        rq_Body = encodeJSON (ae_numberText E)
          (antigravityPayload (activationModel (pl_Group plan)) project (fst ids) (snd ids))\<rparr>,
      pl_WindowKeys = map wr_Key rs, pl_TargetModel = activationModel (pl_Group plan),
      pl_MaxInput = 4, pl_MaxOutput = 1\<rparr>"
    using antigravityPlan_Inr [OF assms(1)] by blast
  have req: "pl_Request plan = \<lparr>rq_Method = ''POST'',
        rq_URL = antigravityBaseURL (ae_order E n) c doc @ generatePath,
        rq_Headers = antigravityHeaders token,
        rq_Body = encodeJSON (ae_numberText E)
          (antigravityPayload (activationModel (pl_Group plan)) project (fst ids) (snd ids))\<rparr>"
    by (subst plan) simp
  have "fmlookup (antigravityHeaders token) ''Authorization'' = Some [''Bearer '' @ token]"
    by (simp add: antigravityHeaders_def fmlookup_of_list)
  then show ?thesis
    using p(1,3) tokenAndProject_Inr [OF p(2) assms(2)] assms(2,3)
    unfolding antigravityRequest_def req
    by (intro conjI exI [of _ "ae_order E n"] exI [of _ doc] exI [of _ token] exI [of _ project]
        exI [of _ ids] exI [of _ "pl_Group plan"]) simp_all
qed

section \<open>One pass\<close>

text \<open>
  What the service may send: a credential it may activate, dry run off, the request of the
  matched adapter, for a non-empty list of records of one group, each of which the reading before the
  request found lazy or unmoved.
\<close>

definition mayIssue ::
  "pluginEnv \<Rightarrow> (nat \<Rightarrow> hostRequest \<Rightarrow> error + string) \<Rightarrow> runtimeService \<Rightarrow> Credential \<Rightarrow> Credential \<Rightarrow>
   ActivationRequest \<Rightarrow> ProbeAttempt \<Rightarrow> bool" where
  "mayIssue V call r summary c req a \<longleftrightarrow>
     \<not> cfg_DryRun (cf_Core (rt_cfg r)) \<and>
     (\<exists>ad ops rs. mayActivate V call r summary ad c \<and> ad_Activation ad = Some ops \<and>
        (ad = codexAdapter (hostedEnv V) \<and> codexRequest (hostedEnv V) c req \<or>
         ad = antigravityAdapter (hostedEnv V) \<and> antigravityRequest (hostedEnv V) c req) \<and>
        rs \<noteq> [] \<and> (\<exists>grp. grp \<noteq> '''' \<and> (\<forall>x \<in> set rs. wr_ActivationGroup x = grp)) \<and>
        pa_WindowKeys a = map wr_Key rs \<and> pa_CycleIDs a = map (bl_CycleID \<circ> wr_Baseline) rs \<and>
        (\<forall>x \<in> set rs. stillLazy (ctl_cfg (rt_controller r)) ops x))"

lemma getCredential_provider:
  "getCredential H call m summary = Inr cred \<Longrightarrow> cred_Provider cred = cred_Provider summary"
  by (auto simp: getCredential_def split: sum.splits option.splits if_splits)

lemma issued:
  assumes "newRuntime V cfg f = Inr (r, st)" and "\<And>n. anyOrder (ae_order (pe_adapter V) n)"
    and "mayActivate V call r summary ad c" and "permits (rt_controller r) c (Some ad) c req a"
  shows "mayIssue V call r summary c req a"
proof -
  have ord: "anyOrder (ae_order (hostedEnv V) n)" for n using assms(2) by (simp add: hostedEnv_def)
  have match: "matchAdapter (rt_registry r) summary = Some ad" using assms(3) by (simp add: mayActivate_def)
  have "ad_Match ad c" using assms(4) by auto
  with runtime_adapters [OF assms(1) match]
  consider (codex) "ad = codexAdapter (hostedEnv V)" "codexMatch c"
    | (antigravity) "ad = antigravityAdapter (hostedEnv V)" "antigravityMatch c"
    by (auto simp: codexAdapter_def antigravityAdapter_def)
  then obtain ops rs plan where plan: "ad_Activation ad = Some ops" "boundedPlan rs plan"
    "pa_WindowKeys a = pl_WindowKeys plan" "pa_CycleIDs a = map (bl_CycleID \<circ> wr_Baseline) rs"
    "\<forall>x \<in> set rs. stillLazy (ctl_cfg (rt_controller r)) ops x"
    "ad = codexAdapter (hostedEnv V) \<and> codexRequest (hostedEnv V) c req \<or>
     ad = antigravityAdapter (hostedEnv V) \<and> antigravityRequest (hostedEnv V) c req"
  proof cases
    case codex
    obtain rs n plan where p: "ac_PlanActivation (codexOps (hostedEnv V)) n c rs = Inr plan"
      "req = pl_Request plan" "boundedPlan rs plan" "pa_WindowKeys a = pl_WindowKeys plan"
      "pa_CycleIDs a = map (bl_CycleID \<circ> wr_Baseline) rs"
      "\<forall>x \<in> set rs. stillLazy (ctl_cfg (rt_controller r)) (codexOps (hostedEnv V)) x"
      using codex.permits_bounded [OF assms(4) [unfolded codex(1)]] by blast
    from p(1) have "codexPlan (hostedEnv V) n c rs = Inr plan" by (simp add: codexOps_def)
    from codexPlan_request [OF this ord codex(2)] p codex.activation codex(1) show thesis
      by (intro that [of "codexOps (hostedEnv V)" rs plan]) simp_all
  next
    case antigravity
    obtain rs n plan where p: "ac_PlanActivation (antigravityOps (hostedEnv V)) n c rs = Inr plan"
      "req = pl_Request plan" "boundedPlan rs plan" "pa_WindowKeys a = pl_WindowKeys plan"
      "pa_CycleIDs a = map (bl_CycleID \<circ> wr_Baseline) rs"
      "\<forall>x \<in> set rs. stillLazy (ctl_cfg (rt_controller r)) (antigravityOps (hostedEnv V)) x"
      using antigravity.permits_bounded [OF assms(4) [unfolded antigravity(1)]] by blast
    from p(1) have "antigravityPlan (hostedEnv V) n c rs = Inr plan" by (simp add: antigravityOps_def)
    from antigravityPlan_request [OF this ord antigravity(2)] p antigravity.activation antigravity(1) show thesis
      by (intro that [of "antigravityOps (hostedEnv V)" rs plan]) simp_all
  qed
  have "\<not> cfg_DryRun (cf_Core (rt_cfg r))"
    using assms(4) newRuntime_Inr(1,3) [OF assms(1)] by (auto simp: justified_def)
  with plan assms(3) show ?thesis
    unfolding mayIssue_def boundedPlan_def by metis
qed

text \<open>
  C8: Every request that a pass of the service adds, whatever the interleaving of its goroutines
  and the faults of the files, the clock, the network and the host: dry run is off; the
  credential was in the host's list, enabled there and in the configuration, readable and without a
  proxy of its own; its provider is enabled for activation; the request is the one its adapter makes with a
  token from the credential's own document, to that adapter's endpoint, for windows of one group, each
  found lazy or unmoved by the reading before it. The hypothesis on the order only says that a range over a
  map meets each entry once.
\<close>

theorem service_requests_are_authorised:
  assumes "newRuntime V cfg f = Inr (r, st)" and "\<And>n. anyOrder (ae_order (pe_adapter V) n)"
    and "sameService r (ss_service s)"
  shows "\<exists>evs. w_trace (ss_world (runOnce V call n sched s)) = w_trace (ss_world s) @ evs \<and>
     (\<forall>(c, req, a) \<in> set (sends evs). \<exists>creds. listCredentials (pe_host V) call n = Inr creds \<and>
        (\<exists>summary \<in> set creds. mayIssue V call r summary c req a))"
proof -
  have same: "mayActivate V call (ss_service s) = mayActivate V call r"
    "rt_controller (ss_service s) = rt_controller r"
    using assms(3) by (auto simp: fun_eq_iff mayActivate_def sameService_def)
  show ?thesis
    using pass_requests [of V call n sched s] issued [OF assms(1,2)] unfolding same by fast
qed

section \<open>Many passes\<close>

text \<open>A pass: the calls of the host, their numbers, and whose action is next.\<close>

type_synonym pass = "(nat \<Rightarrow> hostRequest \<Rightarrow> error + string) \<times> nat \<times> nat list"

definition runPass :: "pluginEnv \<Rightarrow> pass \<Rightarrow> serviceState \<Rightarrow> serviceState" where
  "runPass V p = runOnce V (fst p) (fst (snd p)) (snd (snd p))"

lemma runPasses_world:
  "\<exists>xs. ss_world (fold (runPass V) ps s) = runOps (pe_platform V) xs (ss_world s)"
proof (induction ps arbitrary: s)
  case Nil
  show ?case by (intro exI [of _ "[]"]) simp
next
  case (Cons p ps)
  obtain xs where "ss_world (runPass V p s) = runOps (pe_platform V) xs (ss_world s)"
    using runOnce_world [of V "fst p" "fst (snd p)" "snd (snd p)" s] by (auto simp: runPass_def)
  moreover obtain ys where "ss_world (fold (runPass V) ps (runPass V p s)) =
      runOps (pe_platform V) ys (ss_world (runPass V p s))"
    using Cons.IH by blast
  ultimately show ?case by (intro exI [of _ "xs @ ys"]) (simp add: runOps_append)
qed

text \<open>
  C9: Over any sequence of passes of the service, with any interleavings, faults and answers of the
  host, no cycle is requested twice, as long as encoding/json keeps the keys of the ledger of the
  persisted states.
\<close>

theorem at_most_one_request_over_passes:
  assumes "w_trace (ss_world s) = []" and "ledgerKept (pf_lib (pe_platform V)) (stateOf (ss_world s))"
    and "allKept (pf_lib (pe_platform V)) (w_trace (ss_world (fold (runPass V) ps s)))"
  shows "sorted_wrt (\<lambda>x y. cyclesOf x \<inter> cyclesOf y = {}) (sends (w_trace (ss_world (fold (runPass V) ps s))))"
proof -
  obtain xs where xs: "ss_world (fold (runPass V) ps s) = runOps (pe_platform V) xs (ss_world s)"
    using runPasses_world by blast
  show ?thesis using runOps_disjoint(1) [OF assms(1,2), of xs] assms(3) unfolding xs by blast
qed

end
