(* ===== verification/PassActivation.thy ===== *)
theory PassActivation
  imports EndToEnd Activation
begin

text \<open>
  A pass of the service that activates: the host lists one eligible credential whose quota
  shows one lazy window, and its goroutine runs to the end.
\<close>

lemma interleave_all: "interleave (replicate (length xs) 0 @ rest) [xs] = xs"
proof (induction xs)
  case Nil
  show ?case by (induction rest) auto
qed simp

lemma world_service: "ss_world (s\<lparr>ss_service := r\<rparr>) = ss_world s"
  by simp

lemma recover_idle:
  assumes "ad_Fingerprint ad (w_n w) cred = Inr fp"
    and "inFlight (snapshot (pf_lib P) (w_store w)) (instanceKey cred (ad_ID ad) fp) = []"
  shows "recover P C cred ad ops w = (None, tick1 w)"
  using assms by (simp add: recover_def)

lemma pass_runs_tick:
  assumes "listCredentials (pe_host V) call n = Inr [summary]"
    and "eligible (ss_service s) summary = Some (ad, summary)"
    and "\<not> cred_Disabled summary" "\<not> cred_RuntimeOnly summary"
    and "getCredential (pe_host V) call (Suc n) summary = Inr cred"
    and "\<not> hasCredentialProxy (cred_RawJSON cred)"
    and "ad_Activation ad = Some ops" and "ad_Fingerprint ad (w_n (ss_world s)) cred = Inr fp"
    and "inFlight (snapshot (pf_lib (pe_platform V)) (w_store (ss_world s))) (instanceKey cred (ad_ID ad) fp) = []"
  shows "ss_world (runOnce V call n (replicate 4 0 @ rest) s) =
    snd (tick (pe_platform V) (rt_controller (ss_service s)) cred (Some ad) (tick1 (ss_world s)))"
proof -
  let ?C = "rt_controller (ss_service s)"
  let ?acts = "[ActSnapshot 0, ActOp (OpRecover ?C cred ad ops) summary,
     ActOp (OpTick ?C cred (Some ad)) summary, ActLogChanges 0 summary]"
  have jobs: "jobsOf V call (ss_service s) n [summary] = [?acts]"
    using assms by (simp add: jobsOf_def credentialActions_def map_filter_simps)
  have il: "interleave (replicate 4 0 @ rest) [?acts] = ?acts"
    using interleave_all [of ?acts rest] by (simp add: eval_nat_numeral)
  have "ss_world (runOnce V call n (replicate 4 0 @ rest) s) =
      runOps (pe_platform V) (concat (map opsOf ?acts)) (ss_world s)"
    unfolding runOnce_def assms(1) sum.case Let_def jobs il
    by (simp only: world_service runActions_world fold_unsupported_world)
  then show ?thesis
    using recover_idle [where P = "pe_platform V" and C = ?C and ops = ops, OF assms(8,9)] by simp
qed

text \<open>A tick of the Codex adapter: the contract of the adapter gives what \<open>tick_activates\<close> asks for.\<close>

lemma codex_fingerprint_token:
  "codexFingerprint E n c = Inr fp \<Longrightarrow> \<exists>parsed. extractCredentials E (ae_order E n) (cred_RawJSON c) = Inr parsed"
  by (auto simp: codexFingerprint_def split: sum.splits)

lemma codex_plans:
  assumes "codexFingerprint E n c = Inr fp" and "wr_ActivationGroup r = ''codex-main''"
    and "anyOrder (ae_order E n)" and "codexMatch c"
  shows "\<exists>plan. ac_PlanActivation (codexOps E) n c [r] = Inr plan \<and> 0 < pl_MaxInput plan \<and>
    0 < pl_MaxOutput plan \<and> rq_URL (pl_Request plan) \<noteq> '''' \<and> codexRequest E c (pl_Request plan)"
proof -
  obtain plan where plan: "codexPlan E n c [r] = Inr plan"
    using codex_fingerprint_token [OF assms(1)] assms(2) by (auto simp: codexPlan_def)
  have "ac_PlanActivation (codexOps E) n c [r] = Inr plan" using plan by (simp add: codexOps_def)
  with codex.plan_bounded [OF this] codexPlan_request [OF plan assms(3,4)] show ?thesis
    by (auto simp: boundedPlan_def)
qed

lemma codex_tick_activates:
  assumes "workingStore P" and "\<not> cfg_DryRun (ctl_cfg C)"
    and "\<not> cred_Disabled c" "codexMatch c" "\<And>n. codexFingerprint E n c = Inr fp"
    and "\<And>n. codexReadQuota E n c = Inr \<lparr>ob_Windows = [win]\<rparr>" "\<And>n. anyOrder (ae_order E n)"
    and "validWindow win" "qw_LazyHint win" "codexCanActivate win"
    and "\<And>n. \<exists>b. pf_rand P n = Inr b"
    and "ctl_sender C = Some send" "\<And>n req. codexRequest E c req \<Longrightarrow> send n c req = None" "\<And>n d. ctl_wait C n d = None"
    and "windowKey (instanceKey c ''codex'' fp) (qw_BucketID win) \<notin> winDom (stateOf w)"
    and "newCycleID (pf_lib P) (instanceKey c ''codex'' fp) (qw_BucketID win) (qw_ResetAt win)
      \<notin> ledgerDom (stateOf w)"
  shows "\<exists>v req a cur. tick P C c (Some (codexAdapter E)) w = (None, v) \<and>
    sends (w_trace v) = sends (w_trace w) @ [(c, req, a)] \<and> codexRequest E c req \<and>
    pa_CycleIDs a = [newCycleID (pf_lib P) (instanceKey c ''codex'' fp) (qw_BucketID win) (qw_ResetAt win)] \<and>
    ledgerDom (stateOf v) = ledgerDom (stateOf w) \<union> set (pa_CycleIDs a) \<and>
    fmlookup (ps_Attempts (stateOf v)) (pa_ID a) = Some cur \<and> pa_Phase cur = AttemptCompleted"
proof -
  have shape: "codexShape (cred_AuthID c) (ae_now E n) win" for n
    using codexReadQuota_shape [OF assms(6)] by simp
  have grp: "qw_ActivationGroup win = ''codex-main''"
    using shape assms(10) by (auto simp: codexShape_def codexCanActivate_def)
  have can: "ac_CanActivate (codexOps E) win" "ac_CanActivate (codexOps E) (attribute c win)"
    using assms(10) codex.can_attributed by (simp_all add: codexOps_def)
  have plans: "\<exists>plan. ac_PlanActivation (codexOps E) n c [r] = Inr plan \<and> 0 < pl_MaxInput plan \<and>
      0 < pl_MaxOutput plan \<and> rq_URL (pl_Request plan) \<noteq> '''' \<and> codexRequest E c (pl_Request plan)"
    if "wr_Latest r = win" "wr_ActivationGroup r = qw_ActivationGroup win" for n r
    using codex_plans [OF assms(5) _ assms(7,4)] that grp by simp
  have ad: "ad_Match (codexAdapter E) c" "ad_Fingerprint (codexAdapter E) n c = Inr fp"
    "ad_ReadQuota (codexAdapter E) n c = Inr \<lparr>ob_Windows = [win]\<rparr>" "ad_ID (codexAdapter E) = ''codex''" for n
    using assms(4-6) by (simp_all add: codexAdapter_def)
  note t = tick_activates [where ad = "codexAdapter E" and Q = "codexRequest E c",
      OF assms(1-3) ad(1-3) assms(8,9) codex.activation can plans assms(11,12,13,14) HOL.refl, unfolded ad(4)]
  show ?thesis using t [of w] assms(15,16) by auto
qed

lemma eligible_same:
  assumes "sameService r r'"
  shows "eligible r' = eligible r"
proof -
  have "rt_cfg r' = rt_cfg r" "rt_registry r' = rt_registry r"
    using assms by (simp_all add: sameService_def)
  then show ?thesis unfolding eligible_def by presburger
qed

lemma newRuntime_wait: "newRuntime V cfg f = Inr (r, st) \<Longrightarrow> ctl_wait (rt_controller r) = pe_wait V"
  by (auto simp: newRuntime_def newController_def split: sum.splits)

lemma runtime_codex:
  assumes "newRuntime V cfg f = Inr (r, st)"
    and "matchAdapter (rt_registry r) c = Some (codexAdapter (hostedEnv V))"
  shows "codexMatch c"
proof -
  have "ad_ID (codexAdapter (hostedEnv V)) \<noteq> ad_ID (antigravityAdapter (hostedEnv V))"
    by (simp add: codexAdapter_def antigravityAdapter_def)
  with runtime_adapters [OF assms] show ?thesis by metis
qed

lemma codex_pass_sends:
  assumes "newRuntime V cfg f = Inr (r, st)" and "sameService r (ss_service s)"
    and "workingStore (pe_platform V)" and "\<not> cfg_DryRun (cf_Core cfg)"
    and "\<And>n. anyOrder (ae_order (pe_adapter V) n)" and "\<And>n. \<exists>b. pf_rand (pe_platform V) n = Inr b"
    and "\<And>n d. pe_wait V n d = None"
    and "listCredentials (pe_host V) call n = Inr [summary]"
    and "eligible r summary = Some (codexAdapter (hostedEnv V), summary)"
    and "\<not> cred_Disabled summary" "\<not> cred_RuntimeOnly summary"
    and "getCredential (pe_host V) call (Suc n) summary = Inr c" and "\<not> hasCredentialProxy (cred_RawJSON c)"
    and "\<And>n. codexFingerprint (hostedEnv V) n c = Inr fp"
    and "\<And>n. codexReadQuota (hostedEnv V) n c = Inr \<lparr>ob_Windows = [win]\<rparr>"
    and "validWindow win" "qw_LazyHint win" "codexCanActivate win"
    and "\<And>n req. codexRequest (hostedEnv V) c req \<Longrightarrow>
      \<exists>resp. hostHTTP (pe_host V) n c req = Inr resp \<and> \<not> badStatus resp"
    and "inFlight (stateOf (ss_world s)) (instanceKey c ''codex'' fp) = []"
    and "windowKey (instanceKey c ''codex'' fp) (qw_BucketID win) \<notin> winDom (stateOf (ss_world s))"
    and "newCycleID (pf_lib (pe_platform V)) (instanceKey c ''codex'' fp) (qw_BucketID win) (qw_ResetAt win)
      \<notin> ledgerDom (stateOf (ss_world s))"
  shows "\<exists>req a. sends (w_trace (ss_world (runOnce V call n (replicate 4 0 @ rest) s))) =
      sends (w_trace (ss_world s)) @ [(c, req, a)] \<and> codexRequest (hostedEnv V) c req \<and>
    pa_CycleIDs a = [newCycleID (pf_lib (pe_platform V)) (instanceKey c ''codex'' fp) (qw_BucketID win) (qw_ResetAt win)] \<and>
    set (pa_CycleIDs a) \<subseteq> ledgerDom (stateOf (ss_world (runOnce V call n (replicate 4 0 @ rest) s)))"
proof -
  let ?P = "pe_platform V" and ?C = "rt_controller r" and ?E = "hostedEnv V" and ?w = "tick1 (ss_world s)"
  have same: "rt_controller (ss_service s) = ?C" "eligible (ss_service s) summary = Some (codexAdapter ?E, summary)"
    using assms(2) eligible_same [OF assms(2)] assms(9) by (simp_all only: sameService_def)
  note rt = newRuntime_Inr [OF assms(1)]
  have ad: "ad_Activation (codexAdapter ?E) = Some (codexOps ?E)" "ad_ID (codexAdapter ?E) = ''codex''"
    "ad_Fingerprint (codexAdapter ?E) m c = Inr fp" for m
    using assms(14) by (simp_all add: codexAdapter_def)
  have idle: "inFlight (snapshot (pf_lib ?P) (w_store (ss_world s))) (instanceKey c (ad_ID (codexAdapter ?E)) fp) = []"
    using assms(20) working_clone [OF assms(3)] by (simp add: snapshot_def ad(2))
  have run: "ss_world (runOnce V call n (replicate 4 0 @ rest) s) = snd (tick ?P ?C c (Some (codexAdapter ?E)) ?w)"
    using pass_runs_tick [OF assms(8) same(2) assms(10-13) ad(1) ad(3) idle] unfolding same(1) .
  have c: "\<not> cred_Disabled c" "codexMatch c"
    using getCredential_binding(2) [OF assms(12)] assms(10)
      runtime_codex [OF assms(1) eligible_Some(1) [OF assms(9)]] by (auto simp: codexMatch_def)
  have ord: "anyOrder (ae_order ?E n)" for n using assms(5) by (simp add: hostedEnv_def)
  have live: "\<not> cfg_DryRun (ctl_cfg ?C)" using rt(3) assms(4) by simp
  have send: "senderSend (Some (hostHTTP (pe_host V))) n c req = None" if "codexRequest ?E c req" for n req
    using assms(19) [OF that, of n] by (auto simp: senderSend_def)
  have wait: "ctl_wait ?C n d = None" for n d using newRuntime_wait [OF assms(1)] assms(7) by simp
  show ?thesis
    using codex_tick_activates [OF assms(3) live c assms(14,15) ord assms(16-18,6) rt(4) send wait,
        where w = ?w] assms(21,22) run by auto
qed


end
