(* ===== verification/PluginDemo.thy ===== *)
theory PluginDemo
  imports PassActivation Scenario
begin

text \<open>
  A concrete service for the witnesses: a host that lists one Codex credential and hands out its
  document, a usage document with one untouched five-hour window, and accepted requests; the
  adapters, the registry and the configuration are the program's own.
\<close>

definition demoToken :: string where
  "demoToken = encodeJSON (\<lambda>_. [])
     (JObj [(''access_token'', JStr ''t''), (''account_id'', JStr ''a'')])"

definition demoUsage :: string where
  "demoUsage = encodeJSON (\<lambda>_. [])
     (JObj [(''rate_limit'', JObj [(''primary_window'', JObj [(''used_percent'', JNum (FFin 0)),
        (''reset_at'', JStr ''1970-01-01T10:33:20Z'')])])])"

definition demoHost :: hostClient where
  "demoHost = \<lparr>hc_Call = Some (\<lambda>_ _. Inr ''''), hc_ctxDone = (\<lambda>_. None),
     hc_decodeList = (\<lambda>_. Inr [\<lparr>hf_ID = ''auth'', hf_AuthIndex = ''1'', hf_Provider = ''codex'', hf_Label = '''',
        hf_Disabled = False, hf_Unavailable = False, hf_RuntimeOnly = False, hf_Path = '''',
        hf_Status = '''', hf_ProjectID = '''', hf_Email = ''''\<rparr>]),
     hc_decodeGet = (\<lambda>_. Inr demoToken),
     hc_decodeHTTP = (\<lambda>_. Inr \<lparr>hr_StatusCode = 200, hr_Headers = fmempty, hr_Body = demoUsage\<rparr>)\<rparr>"

definition demoAdapterEnv :: adapterEnv where
  "demoAdapterEnv = \<lparr>ae_client = None, ae_now = (\<lambda>_. unixTime 20000), ae_rand = (\<lambda>_ _. Inr ''''),
     ae_order = (\<lambda>_ _ v. v), ae_sha256 = sha256Sum refLib, ae_arch = AMD64,
     ae_jsonError = (\<lambda>_. ErrMsg ''invalid document''), ae_numberText = (\<lambda>_. '''')\<rparr>"

lemma demo_usage: "parseJSON demoUsage = Some (JObj
    [(''rate_limit'', JObj [(''primary_window'', JObj [(''reset_at'', JStr ''1970-01-01T10:33:20Z''),
       (''used_percent'', JNum (FFin 0))])])])"
  by code_simp

definition demoWin :: QuotaWindow where
  "demoWin = \<lparr>qw_Provider = ''codex'', qw_AuthID = ''auth'', qw_BucketID = ''main:primary_window:18000'',
     qw_ModelFamily = '''', qw_Scope = ''main'', qw_UsedPercent = Some (FFin 0), qw_ResetAt = unixTime 38000,
     qw_WindowDuration = 5 * hour, qw_ObservedAt = unixTime 20000, qw_ServerTime = zeroTime,
     qw_ActivationGroup = ''codex-main'', qw_LazyHint = True, qw_Complete = True\<rparr>"

lemma demo_reset: "parseRFC3339 ''1970-01-01T10:33:20Z'' = Some (unixTime 38000)"
  by code_simp

lemma demo_digits: "hexDigit (Suc 0) = CHR ''1''" "hexDigit 8 = CHR ''8''" "hexDigit 0 = CHR ''0''"
  by code_simp+

lemma demo_seconds: "intText (goDiv 18000000000000 1000000000) = ''18000''"
  by (simp add: goDiv_def duration_units intText_def decimal.simps demo_digits)

lemma demo_camel: "toCamel ''primary_window'' = ''primaryWindow''" "toCamel ''secondary_window'' = ''secondaryWindow''"
  by code_simp+

lemma demo_lazy: "codexLazy (Some (FFin 0)) (unixTime 38000) (unixTime 20000) 18000000000000"
  by code_simp

lemma demo_window:
  "codexWindow arch [(''reset_at'', JStr ''1970-01-01T10:33:20Z''), (''used_percent'', JNum (FFin 0))]
     ''auth'' ''main'' ''primary_window'' (5 * hour) (unixTime 20000) True = Some demoWin"
  by (simp add: codexWindow_def codexDuration_def codexResetAt_def demo_reset demo_seconds demo_lazy demoWin_def
      duration_units Let_def)

lemma demo_parse: "codexParse E demoUsage ''auth'' (unixTime 20000) = Inr \<lparr>ob_Windows = [demoWin]\<rparr>"
  by (simp add: codexParse_def decodeObject_def demo_usage mainWindows_def codexSlots_def codexObject_def reviewPart_def additionalPart_def codexSlice_def
      demo_camel demo_window map_filter_simps)

definition demoConfig :: "bool \<Rightarrow> config" where
  "demoConfig dry = \<lparr>cf_Enabled = True, cf_DryRun = dry, cf_Core = defaultConfig\<lparr>cfg_DryRun := dry\<rparr>,
     cf_MaxRetries = 5, cf_MaxConcurrency = 1, cf_RequestTimeout = 30 * second, cf_StateDir = ''state'',
     cf_Providers = fmap_of_list [(''codex'', \<lparr>pc_Enabled = True, pc_Mode = activateMode\<rparr>)],
     cf_Disabled = {||}\<rparr>"

text \<open>A document that only switches the dry run off and names the directory.\<close>

definition demoLive :: rawConfig where
  "demoLive = \<lparr>rc_Enabled = None, rc_DryRun = Some False, rc_ObservationInterval = '''', rc_ResetGracePeriod = '''',
     rc_VerifyDelay = '''', rc_SuppressionDuration = '''', rc_RequestTimeout = '''', rc_MaxRetries = 0,
     rc_MaxConcurrency = 0, rc_StateDir = ''state'', rc_Providers = [], rc_DisabledCredentials = []\<rparr>"

definition demoPlugin :: pluginEnv where
  "demoPlugin = \<lparr>pe_platform = demoPlatform, pe_adapter = demoAdapterEnv,
     pe_config = \<lparr>ce_unmarshalYAML = (\<lambda>y. if y = ''live'' then Inr demoLive else Inl (ErrMsg ''no document'')),
       ce_userConfigDir = Inr '''',
       ce_joinPath = joinWith ''/''\<rparr>,
     pe_host = demoHost, pe_load = goodLoad, pe_now = (\<lambda>_. unixTime 20000),
     pe_nowAt = (\<lambda>_ _. unixTime 20000), pe_wait = (\<lambda>_ _. None), pe_wall = (\<lambda>_. unixTime 20000)\<rparr>"

definition demoSummary :: Credential where
  "demoSummary = credentialOf \<lparr>hf_ID = ''auth'', hf_AuthIndex = ''1'', hf_Provider = ''codex'', hf_Label = '''',
     hf_Disabled = False, hf_Unavailable = False, hf_RuntimeOnly = False, hf_Path = '''',
     hf_Status = '''', hf_ProjectID = '''', hf_Email = ''''\<rparr>"

definition demoCall :: "nat \<Rightarrow> hostRequest \<Rightarrow> error + string" where
  "demoCall n x = Inr ''''"

definition demoService :: "bool \<Rightarrow> runtimeService" where
  "demoService dry = \<lparr>rt_cfg = demoConfig dry,
     rt_registry = \<lparr>rg_adapters = fmupd ''antigravity'' (antigravityAdapter (hostedEnv demoPlugin))
       (fmupd ''codex'' (codexAdapter (hostedEnv demoPlugin)) fmempty)\<rparr>,
     rt_controller = \<lparr>ctl_sender = Some (senderSend (Some (hostHTTP demoHost))),
       ctl_cfg = defaultConfig\<lparr>cfg_DryRun := dry\<rparr>, ctl_now = (\<lambda>_. unixTime 20000),
       ctl_nowAt = (\<lambda>_ _. unixTime 20000), ctl_wait = (\<lambda>_ _. None)\<rparr>,
     rt_cancel = False, rt_done = None, rt_lastRun = zeroTime, rt_lastError = '''',
     rt_unsupportedLogged = {||}\<rparr>"

definition demoServiceState :: "bool \<Rightarrow> serviceState" where
  "demoServiceState dry = \<lparr>ss_service = demoService dry, ss_world = demoWorld, ss_logs = [],
     ss_before = (\<lambda>_. emptyState)\<rparr>"

lemma demo_load: "newStore refLib goodLoad path fmempty =
    (if path = '''' then Inl (ErrMsg ''state path is required'')
     else Inr \<lparr>st_path = path, st_state = emptyState\<rparr>)"
  by (simp add: newStore_def load_def loadSnapshot_def loadWal_def goodLoad_def openFile_def)

lemma demo_plugin_simps [simp]:
  "pe_platform demoPlugin = demoPlatform" "pe_adapter demoPlugin = demoAdapterEnv"
  "ce_joinPath (pe_config demoPlugin) = joinWith ''/''" "pe_host demoPlugin = demoHost"
  "pe_load demoPlugin = goodLoad" "pe_now demoPlugin = (\<lambda>_. unixTime 20000)"
  "pe_nowAt demoPlugin = (\<lambda>_ _. unixTime 20000)" "pe_wait demoPlugin = (\<lambda>_ _. None)"
  by (simp_all add: demoPlugin_def)

lemma demo_registry: "newRegistry (map Some (registeredAdapters demoPlugin)) = Inr (rt_registry (demoService dry))"
proof -
  have ids: "ad_ID (codexAdapter E) = ''codex''" "ad_ID (antigravityAdapter E) = ''antigravity''" for E
    by (simp_all add: codexAdapter_def antigravityAdapter_def)
  show ?thesis
    unfolding newRegistry_def registerAll_Inr by (simp add: registeredAdapters_def demoService_def ids)
qed

lemma demo_controller: "newController sender (defaultConfig\<lparr>cfg_DryRun := dry\<rparr>) now nowAt wait =
    Inr \<lparr>ctl_sender = sender, ctl_cfg = defaultConfig\<lparr>cfg_DryRun := dry\<rparr>, ctl_now = now, ctl_nowAt = nowAt,
      ctl_wait = wait\<rparr>"
  by (simp add: newController_def controllerConfig_def defaultConfig_def duration_units)

lemma demo_runtime: "newRuntime demoPlugin (demoConfig dry) fmempty =
    Inr (demoService dry, \<lparr>st_path = ''state/runtime-state.json'', st_state = emptyState\<rparr>)"
  unfolding newRuntime_def demo_registry [of dry]
  by (simp add: demo_load demo_controller demoConfig_def demoService_def)

lemma demo_orders: "anyOrder (ae_order (pe_adapter demoPlugin) n)"
  by (simp add: demoPlugin_def demoAdapterEnv_def anyOrder_def)

lemma demo_list: "listCredentials (pe_host demoPlugin) demoCall n = Inr [demoSummary]"
  by (simp add: listCredentials_def demoPlugin_def demoHost_def demoCall_def demoSummary_def)

lemma demo_match: "codexMatch demoSummary" "\<not> antigravityMatch demoSummary"
  unfolding codexMatch_def antigravityMatch_def demoSummary_def credentialOf_def by code_simp+

lemma demo_eligible: "eligible (demoService dry) demoSummary = Some (codexAdapter (hostedEnv demoPlugin), demoSummary)"
proof -
  have well: "wellRegistered (rt_registry (demoService dry))"
    by (rule newRegistry_well [OF demo_registry])
  have "matchAdapter (rt_registry (demoService dry)) demoSummary = Some (codexAdapter (hostedEnv demoPlugin))"
    unfolding matchAdapter_Some [OF well]
    using demo_match by (simp add: demoService_def codexAdapter_def antigravityAdapter_def)
  moreover have "ad_ID (codexAdapter E) = ''codex''" for E by (simp add: codexAdapter_def)
  ultimately show ?thesis
    by (simp add: eligible_def demoService_def demoConfig_def getOr_def fmlookup_of_list)
qed

definition demoDocument :: Credential where
  "demoDocument = demoSummary\<lparr>cred_RawJSON := demoToken\<rparr>"

lemma demo_get: "getCredential (pe_host demoPlugin) demoCall n demoSummary = Inr demoDocument"
  by (simp add: getCredential_def demoCall_def demoHost_def demoDocument_def demoSummary_def credentialOf_def)

lemma demo_document: "parseJSON demoToken =
    Some (JObj [(''access_token'', JStr ''t''), (''account_id'', JStr ''a'')])"
  by code_simp

lemma demo_no_proxy: "\<not> hasCredentialProxy (cred_RawJSON demoDocument)"
  by (simp add: hasCredentialProxy_def demoDocument_def demo_document)

lemma demo_extract: "extractCredentials E (\<lambda>_ v. v) demoToken =
    Inr \<lparr>cx_AccessToken = ''t'', cx_RefreshToken = '''', cx_AccountID = ''a''\<rparr>"
  by (simp add: extractCredentials_def demo_document codexDeepString_def foundText_def stringEntry_def)

definition demoFP :: string where
  "demoFP = hexEncode (sha256Sum refLib (''codex'' @ [nul] @ ''a''))"

lemma demo_env [simp]:
  "ae_order (hostedEnv demoPlugin) n = (\<lambda>_ v. v)" "ae_sha256 (hostedEnv demoPlugin) = sha256Sum refLib"
  "ae_client (hostedEnv demoPlugin) = Some (hostHTTP demoHost)" "ae_now (hostedEnv demoPlugin) n = unixTime 20000"
  "ae_arch (hostedEnv demoPlugin) = AMD64"
  by (simp_all add: hostedEnv_def demoAdapterEnv_def)

lemma demo_fingerprint: "codexFingerprint (hostedEnv demoPlugin) n demoDocument = Inr demoFP"
  by (simp add: codexFingerprint_def demoDocument_def demo_extract demoFP_def)

lemma demo_http: "hostHTTP demoHost n c req = Inr \<lparr>hr_StatusCode = 200, hr_Headers = fmempty, hr_Body = demoUsage\<rparr>"
  by (simp add: hostHTTP_def hostDo_def demoHost_def)

lemma demo_read: "codexReadQuota (hostedEnv demoPlugin) n demoDocument = Inr \<lparr>ob_Windows = [demoWin]\<rparr>"
  using demo_parse
  by (simp add: codexReadQuota_def demoDocument_def demo_extract demo_http badStatus_def
      demoSummary_def credentialOf_def)

lemma demo_win: "validWindow demoWin" "qw_LazyHint demoWin" "codexCanActivate demoWin"
  by (simp_all add: validWindow_def demoWin_def codexCanActivate_def unixTime_def duration_units)

section \<open>The witnesses\<close>

theorem service_requests_are_authorised_witness:
  "\<exists>evs. w_trace (ss_world (runOnce demoPlugin demoCall 0 [0, 0, 0, 0] (demoServiceState False))) = evs \<and>
     (\<forall>(c, req, a) \<in> set (sends evs).
        mayIssue demoPlugin demoCall (demoService False) demoSummary c req a)"
proof -
  have "sameService (demoService False) (ss_service (demoServiceState False))"
    "w_trace (ss_world (demoServiceState False)) = []"
    by (simp_all add: demoServiceState_def demoWorld_def)
  then show ?thesis
    using service_requests_are_authorised [OF demo_runtime demo_orders, where s = "demoServiceState False"
        and call = demoCall and n = 0 and sched = "[0, 0, 0, 0]"] demo_list by auto
qed

theorem at_most_one_request_over_passes_witness:
  "sorted_wrt (\<lambda>x y. cyclesOf x \<inter> cyclesOf y = {}) (sends (w_trace (ss_world
     (fold (runPass demoPlugin) [(demoCall, 0, [0, 0, 0, 0]), (demoCall, 1, [0, 0, 0, 0])] (demoServiceState False)))))"
  by (rule at_most_one_request_over_passes) (simp_all add: demoServiceState_def demoWorld_def del: fold.simps fold_simps)


end
