(* ===== verification/PluginABI.thy ===== *)
theory PluginABI
  imports PluginRuntime
begin

text \<open>
  \<open>cmd/plugin/abi.go\<close> and \<open>cmd/plugin/management.go\<close>: the dispatch of the host's calls, the
  life cycle of the service (register, reconfigure, quiesce, shutdown), and the management
  routes. The C side (pointers, allocation, the exported function table) is left out: a call
  carries the method and the request bytes, \<open>None\<close> for the null method.

  The SDK (\<open>pluginabi\<close>, \<open>pluginapi\<close>) is not part of the repository: the names of the methods, the
  version of its schema and the decoders of its messages are parameters; its messages have here
  the fields that the plugin sets.
\<close>

section \<open>The SDK\<close>

record managementRequest =
  mr_Method :: string
  mr_Path :: string

record sdk =
  sk_Register :: string
  sk_Reconfigure :: string
  sk_Quiesce :: string
  sk_Shutdown :: string
  sk_ManagementRegister :: string
  sk_ManagementHandle :: string
  sk_SchemaVersion :: "32 word"
  sk_decodeLifecycle :: "string \<Rightarrow> error + string"
  sk_decodeRegistration :: "string \<Rightarrow> error + string"
  sk_decodeManagement :: "string \<Rightarrow> error + managementRequest"

section \<open>The registration\<close>

datatype fieldType = FieldBoolean | FieldString | FieldInteger | FieldObject | FieldArray

record configField =
  fd_Name :: string
  fd_Type :: fieldType
  fd_Description :: string

record metadata =
  md_Name :: string
  md_Version :: string
  md_Author :: string
  md_GitHubRepository :: string
  md_ConfigFields :: "configField list"

record registration =
  rg_SchemaVersion :: "32 word"
  rg_Metadata :: metadata
  rg_ManagementAPI :: bool

definition pluginVersion :: string where
  "pluginVersion = ''0.2.2''"

definition configFields :: "configField list" where
  "configFields =
    [\<lparr>fd_Name = ''enabled'', fd_Type = FieldBoolean,
       fd_Description = ''Enable background quota observation.''\<rparr>,
     \<lparr>fd_Name = ''dry_run'', fd_Type = FieldBoolean,
       fd_Description = ''Detect lazy resets without sending activation requests.''\<rparr>,
     \<lparr>fd_Name = ''observation_interval'', fd_Type = FieldString,
       fd_Description = ''Background quota observation interval.''\<rparr>,
     \<lparr>fd_Name = ''reset_grace_period'', fd_Type = FieldString,
       fd_Description = ''Delay after the old reset deadline before running the authoritative precheck.''\<rparr>,
     \<lparr>fd_Name = ''verify_delay'', fd_Type = FieldString,
       fd_Description = ''Propagation delay before verifying an activation request.''\<rparr>,
     \<lparr>fd_Name = ''suppression_duration'', fd_Type = FieldString,
       fd_Description = ''Verify-only suppression window after an unknown send result.''\<rparr>,
     \<lparr>fd_Name = ''request_timeout'', fd_Type = FieldString,
       fd_Description = ''Timeout for quota reads and credential-bound activation requests.''\<rparr>,
     \<lparr>fd_Name = ''max_retries'', fd_Type = FieldInteger,
       fd_Description = ''Maximum control-plane read retries; this never permits a second activation send in one cycle.''\<rparr>,
     \<lparr>fd_Name = ''max_concurrency'', fd_Type = FieldInteger,
       fd_Description = ''Maximum number of activation-capable credentials checked concurrently.''\<rparr>,
     \<lparr>fd_Name = ''state_dir'', fd_Type = FieldString,
       fd_Description = ''Optional directory for the crash-safe state snapshot and WAL.''\<rparr>,
     \<lparr>fd_Name = ''providers'', fd_Type = FieldObject,
       fd_Description = ''Enable activation-capable providers; unsupported providers are not polled.''\<rparr>,
     \<lparr>fd_Name = ''disabled_credentials'', fd_Type = FieldArray,
       fd_Description = ''Auth IDs that this plugin must not check or activate.''\<rparr>]"

definition pluginRegistration :: "sdk \<Rightarrow> registration" where
  "pluginRegistration K =
     \<lparr>rg_SchemaVersion = sk_SchemaVersion K,
      rg_Metadata = \<lparr>md_Name = ''Quota Window Activator'', md_Version = pluginVersion, md_Author = ''CPA community'',
        md_GitHubRepository = ''https://github.com/Fan1K413/cpa-plugin-quota-window-activator'',
        md_ConfigFields = configFields\<rparr>,
      rg_ManagementAPI = True\<rparr>"

section \<open>Management\<close>

definition managementPath :: string where
  "managementPath = ''/plugins/quota-window-activator/status''"

definition pluginIDFromResourceBase :: "string \<Rightarrow> string" where
  "pluginIDFromResourceBase base =
     (let b = trimChar CHR ''/'' (trimSpace base)
      in if b = '''' then '''' else trimSpace (last (splitAt CHR ''/'' b)))"

text \<open>The path of the status route.\<close>

definition managementRoute :: "string \<Rightarrow> string" where
  "managementRoute base =
     (let i = pluginIDFromResourceBase base
      in if i \<noteq> '''' then ''/plugins/'' @ i @ ''/status'' else managementPath)"

record routeEntry =
  re_Method :: string
  re_Path :: string
  re_Description :: string

record resourceEntry =
  rs_Path :: string
  rs_Menu :: string
  rs_Description :: string

record managementRoutes =
  mg_Routes :: "routeEntry list"
  mg_Resources :: "resourceEntry list"

text \<open>The title of the menu entry, in UTF-8.\<close>

definition menuTitle :: string where
  "menuTitle =
    [byte 0xE9, byte 0xA2, byte 0x9D, byte 0xE5, byte 0xBA, byte 0xA6, byte 0xE7,
     byte 0xAA, byte 0x97, byte 0xE5, byte 0x8F, byte 0xA3, byte 0xE6, byte 0xBF,
     byte 0x80, byte 0xE6, byte 0xB4, byte 0xBB, byte 0xE5, byte 0x99, byte 0xA8]"

definition managementRegistration :: "string \<Rightarrow> managementRoutes" where
  "managementRegistration base =
     \<lparr>mg_Routes = [\<lparr>re_Method = ''GET'', re_Path = managementRoute base,
        re_Description = ''Read quota window activator status.''\<rparr>],
      mg_Resources = [\<lparr>rs_Path = ''/status'', rs_Menu = menuTitle,
        rs_Description = ''Configure the activator and inspect quota-window state.''\<rparr>]\<rparr>"

definition isManagementStatusRequest :: "managementRequest \<Rightarrow> bool" where
  "isManagementStatusRequest r =
     (if mr_Method r \<noteq> '''' \<and> \<not> equalFold (mr_Method r) ''get'' then False
      else
        (let path = trimRightChar CHR ''/'' (trimSpace (mr_Path r))
         in if path = managementPath \<or> path = ''/v0/management'' @ managementPath then True
            else containsText path ''/v0/management/plugins/'' \<and> suffix ''/status'' path))"

section \<open>Responses\<close>

text \<open>
  A management response carries a text, the status document (written as JSON) or the page, whose
  text is a constant of the source.
\<close>

datatype responseBody = BodyText string | BodyStatus statusDoc | BodyPage

record managementResponse =
  ms_StatusCode :: int
  ms_Headers :: "(string \<times> string list) list"
  ms_Body :: responseBody

definition unavailableResponse :: managementResponse where
  "unavailableResponse = \<lparr>ms_StatusCode = 503, ms_Headers = [(''Content-Type'', [''application/json''])],
     ms_Body = BodyText (''{'' @ stringText ''error'' @ '':'' @ stringText ''runtime unavailable'' @ ''}'')\<rparr>"

definition statusResponse :: "statusDoc \<Rightarrow> managementResponse" where
  "statusResponse doc = \<lparr>ms_StatusCode = 200, ms_Headers = [(''Content-Type'', [''application/json''])],
     ms_Body = BodyStatus doc\<rparr>"

definition pageResponse :: managementResponse where
  "pageResponse = \<lparr>ms_StatusCode = 200,
     ms_Headers = [(''Content-Type'', [''text/html; charset=utf-8'']), (''Cache-Control'', [''no-store''])],
     ms_Body = BodyPage\<rparr>"

text \<open>
  What the plugin answers: the registration, an empty object, the management registration, a
  management response, or an error envelope.
\<close>

datatype response =
    RespRegistration registration
  | RespEmpty
  | RespRoutes managementRoutes
  | RespManagement managementResponse
  | RespError string string

text \<open>\<open>errorEnvelope\<close>.\<close>

definition errorEnvelope :: "string \<Rightarrow> string \<Rightarrow> string" where
  "errorEnvelope errorCode message =
     ''{'' @ stringText ''ok'' @ '':false,'' @ stringText ''error'' @ '':{'' @ stringText ''code'' @ '':'' @
     stringText errorCode @ '','' @ stringText ''message'' @ '':'' @ stringText message @ ''}}''"

section \<open>The life cycle\<close>

text \<open>
  The global service with its store, the files, and the trace of the services so far. While a
  service is told to stop, its loop may still run: \<open>drain\<close> is what it does to its world before
  its channel closes.
\<close>

record pluginState =
  pg_runtime :: "(runtimeService \<times> Store) option"
  pg_fs :: fs

record callEnv =
  cl_inTime :: bool
  cl_drain :: "Store \<Rightarrow> fs \<Rightarrow> Store \<times> fs"
  cl_managementNow :: time

definition stopRuntime :: "callEnv \<Rightarrow> runtimeService \<times> Store \<Rightarrow> fs \<Rightarrow> error option \<times> (runtimeService \<times> Store) \<times> fs" where
  "stopRuntime c rs f =
     (case rs of (r, st) \<Rightarrow>
       (case stopService (cl_inTime c) r of
          (res, r') \<Rightarrow> (case cl_drain c st f of (st', f') \<Rightarrow> (res, (r', st'), f'))))"

definition configureMethod :: "pluginEnv \<Rightarrow> sdk \<Rightarrow> callEnv \<Rightarrow> string \<Rightarrow> pluginState \<Rightarrow> (error + response) \<times> pluginState" where
  "configureMethod V K c request g =
     (case (if request = [] then Inr [] else sk_decodeLifecycle K request) of
        Inl e \<Rightarrow> (Inl e, g)
      | Inr yaml \<Rightarrow>
     (case decodeConfig (pe_config V) yaml of
        Inl e \<Rightarrow> (Inl e, g)
      | Inr cfg \<Rightarrow>
     (case newRuntime V cfg (pg_fs g) of
        Inl e \<Rightarrow> (Inl e, g)
      | Inr (next, store) \<Rightarrow>
     (case pg_runtime g of
        None \<Rightarrow> (Inr (RespRegistration (pluginRegistration K)), g\<lparr>pg_runtime := Some (startService next, store)\<rparr>)
      | Some old \<Rightarrow>
          (case stopRuntime c old (pg_fs g) of
             (Some e, old', f') \<Rightarrow> (Inl e, g\<lparr>pg_runtime := Some old', pg_fs := f'\<rparr>)
           | (None, old', f') \<Rightarrow>
               (Inr (RespRegistration (pluginRegistration K)), g\<lparr>pg_runtime := Some (startService next, store), pg_fs := f'\<rparr>))))))"

definition quiesceMethod :: "callEnv \<Rightarrow> pluginState \<Rightarrow> (error + response) \<times> pluginState" where
  "quiesceMethod c g =
     (case pg_runtime g of
        None \<Rightarrow> (Inr RespEmpty, g)
      | Some old \<Rightarrow>
          (case stopRuntime c old (pg_fs g) of
             (Some e, old', f') \<Rightarrow> (Inl e, g\<lparr>pg_runtime := Some old', pg_fs := f'\<rparr>)
           | (None, old', f') \<Rightarrow> (Inr RespEmpty, g\<lparr>pg_runtime := Some old', pg_fs := f'\<rparr>)))"

definition handleManagement :: "pluginEnv \<Rightarrow> sdk \<Rightarrow> callEnv \<Rightarrow> string \<Rightarrow> pluginState \<Rightarrow> error + response" where
  "handleManagement V K c raw g =
     (case (if raw = [] then Inr \<lparr>mr_Method = '''', mr_Path = ''''\<rparr> else sk_decodeManagement K raw) of
        Inl e \<Rightarrow> Inl e
      | Inr request \<Rightarrow>
          (if isManagementStatusRequest request then
             (case pg_runtime g of
                None \<Rightarrow> Inr (RespManagement unavailableResponse)
              | Some (r, st) \<Rightarrow>
                  Inr (RespManagement (statusResponse
                    (statusOf V r (snapshot (pf_lib (pe_platform V)) st) (cl_managementNow c)))))
           else Inr (RespManagement pageResponse)))"

definition handleMethod ::
  "pluginEnv \<Rightarrow> sdk \<Rightarrow> callEnv \<Rightarrow> string \<Rightarrow> string \<Rightarrow> pluginState \<Rightarrow> (error + response) \<times> pluginState" where
  "handleMethod V K c method request g =
     (if method = sk_Register K \<or> method = sk_Reconfigure K then configureMethod V K c request g
      else if method = sk_Quiesce K \<or> method = sk_Shutdown K then quiesceMethod c g
      else if method = sk_ManagementRegister K then
        (case (if request = [] then Inr '''' else sk_decodeRegistration K request) of
           Inl e \<Rightarrow> (Inl e, g)
         | Inr base \<Rightarrow> (Inr (RespRoutes (managementRegistration base)), g))
      else if method = sk_ManagementHandle K then (handleManagement V K c request g, g)
      else (Inr (RespError ''unknown_method'' (''unknown method: '' @ method)), g))"

text \<open>\<open>cliproxyPluginCall\<close>: the return code and the answer.\<close>

definition pluginCall ::
  "pluginEnv \<Rightarrow> sdk \<Rightarrow> callEnv \<Rightarrow> string option \<Rightarrow> string \<Rightarrow> pluginState \<Rightarrow> int \<times> response \<times> pluginState" where
  "pluginCall V K c method request g =
     (case method of
        None \<Rightarrow> (1, RespError ''invalid_method'' ''method is required'', g)
      | Some m \<Rightarrow>
          (case handleMethod V K c m request g of
             (Inl e, g') \<Rightarrow> (1, RespError ''plugin_error'' (errorText e), g')
           | (Inr r, g') \<Rightarrow> (0, r, g')))"

definition pluginShutdown :: "callEnv \<Rightarrow> pluginState \<Rightarrow> pluginState" where
  "pluginShutdown c g =
     (case pg_runtime g of
        None \<Rightarrow> g
      | Some old \<Rightarrow> (case stopRuntime c old (pg_fs g) of (_, _, f') \<Rightarrow> g\<lparr>pg_runtime := None, pg_fs := f'\<rparr>))"

section \<open>Answers of the host\<close>

text \<open>\<open>callHostCallback\<close>, from the return code and the bytes the host left on.\<close>

record hostEnvelope =
  he_OK :: bool
  he_Result :: string
  he_Error :: "(string \<times> string) option"

definition hostAnswer :: "(string \<Rightarrow> error + hostEnvelope) \<Rightarrow> string \<Rightarrow> int \<Rightarrow> string \<Rightarrow> error + string" where
  "hostAnswer decode method returnCode out =
     (if out = [] then Inl (ErrMsg (''host callback '' @ method @ '' returned no response''))
      else case decode out of
        Inl e \<Rightarrow> Inl e
      | Inr env \<Rightarrow>
          (if \<not> he_OK env then
             (case he_Error env of
                Some (errorCode, message) \<Rightarrow> Inl (ErrMsg (errorCode @ '': '' @ message))
              | None \<Rightarrow> Inl (ErrMsg (''host callback '' @ method @ '' failed'')))
           else if returnCode \<noteq> 0 then
             Inl (ErrMsg (''host callback '' @ method @ '' returned '' @ intText returnCode))
           else Inr (he_Result env)))"

text \<open>
  The whole of \<open>callHostCallback\<close>: \<open>None\<close> is the host before \<open>cliproxy_plugin_init\<close>, \<open>payload\<close> the
  marshalled payload; \<open>C.CBytes\<close> does not fail.
\<close>

definition callHostCallback ::
  "(string \<Rightarrow> error + hostEnvelope) \<Rightarrow> (string \<Rightarrow> string \<Rightarrow> int \<times> string) option \<Rightarrow> string \<Rightarrow> error + string \<Rightarrow> error + string" where
  "callHostCallback decode host method payload =
     (case host of
        None \<Rightarrow> Inl (ErrMsg ''host API unavailable'')
      | Some call \<Rightarrow>
     (case payload of
        Inl e \<Rightarrow> Inl e
      | Inr raw \<Rightarrow> (case call method raw of (returnCode, out) \<Rightarrow> hostAnswer decode method returnCode out)))"

end
