(* ===== verification/RuntimeProps.thy ===== *)
theory RuntimeProps
  imports PluginDemo PluginABI
begin

text \<open>
  The plugin around the controller: which adapter a credential gets, what an accepted configuration
  guarantees, when the next pass starts, what its goroutines and its semaphore do, what the status shows, and what
  a failed call of the host leaves behind.
\<close>

section \<open>The registry\<close>

lemma registered_lookup:
  "distinct (map ad_ID ads) \<Longrightarrow>
     fmlookup (fold (\<lambda>ad. fmupd (ad_ID ad) ad) ads m) i =
       (case find (\<lambda>ad. ad_ID ad = i) ads of Some ad \<Rightarrow> Some ad | None \<Rightarrow> fmlookup m i)"
proof (induction ads arbitrary: m)
  case (Cons ad ads)
  have "find (\<lambda>x. ad_ID x = ad_ID ad) ads = None"
    using Cons.prems by (metis (mono_tags, lifting) distinct.simps(2) find_None_iff image_eqI list.set_map list.simps(9))
  with Cons show ?case by (auto split: option.splits)
qed simp

lemma find_by_id:
  "distinct (map ad_ID ads) \<Longrightarrow> find (\<lambda>ad. ad_ID ad = i) ads = Some ad \<longleftrightarrow> ad \<in> set ads \<and> ad_ID ad = i"
proof (induction ads)
  case (Cons a ads)
  then show ?case by (auto simp: image_iff)
qed simp

text \<open>
  C26: The registry gives a credential the matching adapter with the least identifier, whatever the order in which the
  adapters were registered.
\<close>

theorem match_is_least_registered:
  assumes "newRegistry (map Some ads) = Inr r"
  shows "matchAdapter r c = Some ad \<longleftrightarrow>
    ad \<in> set ads \<and> ad_Match ad c \<and> (\<forall>x \<in> set ads. ad_Match x c \<longrightarrow> ad_ID ad \<le> ad_ID x)"
proof -
  have d: "distinct (map ad_ID ads)" and r: "rg_adapters r = fold (\<lambda>ad. fmupd (ad_ID ad) ad) ads fmempty"
    using assms by (simp_all add: newRegistry_def registerAll_Inr)
  have look: "fmlookup (rg_adapters r) i = Some x \<longleftrightarrow> x \<in> set ads \<and> ad_ID x = i" for i x
    using find_by_id [OF d, of i x] by (auto simp: r registered_lookup [OF d] split: option.splits)
  show ?thesis
    unfolding matchAdapter_Some [OF newRegistry_well [OF assms]] look by blast
qed

theorem match_is_least_registered_witness:
  "matchAdapter (rt_registry (demoService True)) demoSummary = Some (codexAdapter (hostedEnv demoPlugin))"
  by (subst match_is_least_registered [OF demo_registry])
    (use demo_match in \<open>simp add: registeredAdapters_def codexAdapter_def antigravityAdapter_def\<close>)

section \<open>The configuration\<close>

text \<open>
  C27: A configuration that the plugin accepts has positive timeout, retries and concurrency and valid modes; it
  leaves the dry run only when the document says so; and the controller made of it has positive intervals, no
  negative delay, and the default tolerance and retry delays.
\<close>

theorem accepted_configuration_is_safe:
  assumes "decodeConfig V raw = Inr c"
  shows "validConfig c \<and>
    (cf_DryRun c \<or> (\<exists>inp. ce_unmarshalYAML V raw = Inr inp \<and> rc_DryRun inp = Some False)) \<and>
    (\<forall>sender now nowAt wait C. newController sender (cf_Core c) now nowAt wait = Inr C \<longrightarrow>
       cfg_DryRun (ctl_cfg C) = cf_DryRun c \<and> 0 < cfg_ObservationInterval (ctl_cfg C) \<and>
       0 < cfg_SuppressionDuration (ctl_cfg C) \<and> 0 \<le> cfg_ResetGracePeriod (ctl_cfg C) \<and>
       0 \<le> cfg_VerifyDelay (ctl_cfg C) \<and> cfg_ClockSkewTolerance (ctl_cfg C) = 2 * minute \<and>
       cfg_RetryDelays (ctl_cfg C) = cfg_RetryDelays defaultConfig \<and> 1 \<le> cfg_MaxRetries (ctl_cfg C))"
proof -
  have valid: "validConfig c" by (rule decodeConfig_valid [OF assms])
  have core: "cfg_ClockSkewTolerance (cf_Core c) = 2 * minute \<and>
      cfg_RetryDelays (cf_Core c) = cfg_RetryDelays defaultConfig"
    using assms
  proof (cases rule: decodeConfig_cases)
    case default
    then show ?thesis by (simp add: defaultPluginConfig_def defaultConfig_def)
  next
    case (document inp core)
    then show ?thesis using coreDurations_keeps [OF document(3)] by (simp add: defaultConfig_def)
  qed
  have dry: "cf_DryRun c \<or> (\<exists>inp. ce_unmarshalYAML V raw = Inr inp \<and> rc_DryRun inp = Some False)"
    using assms
  proof (cases rule: decodeConfig_cases)
    case default
    then show ?thesis by (simp add: defaultPluginConfig_def)
  next
    case (document inp core)
    then show ?thesis by (auto simp: setBool_def split: option.splits)
  qed
  show ?thesis
    using valid core dry
    by (auto simp: newController_def controllerConfig_def Let_def validConfig_def duration_units
        split: sum.splits if_splits)
qed

theorem accepted_configuration_is_safe_witness:
  "validConfig (defaultPluginConfig (pe_config demoPlugin)) \<and> cf_DryRun (defaultPluginConfig (pe_config demoPlugin))"
  using accepted_configuration_is_safe [of "pe_config demoPlugin" "''''"]
  by (simp add: decodeConfig_def defaultPluginConfig_def)

section \<open>The next pass\<close>

definition baseDelay :: "config \<Rightarrow> duration" where
  "baseDelay cfg = (if cfg_ObservationInterval (cf_Core cfg) \<le> 0 then 30 * minute
     else cfg_ObservationInterval (cf_Core cfg))"

lemma Min_insert_min:
  fixes S :: "int set"
  shows "finite S \<Longrightarrow> Min (insert (min a b) S) = Min (insert a (insert b S))"
  by (cases "S = {}") (simp_all add: min.assoc)

lemma delay_fold:
  "fold (delayStep now) rs d = Min (insert d (dueIn now ` Set.filter (\<lambda>r. \<not> ignoredWindow r) (set rs)))"
proof (induction rs arbitrary: d)
  case (Cons r rs)
  let ?S = "dueIn now ` Set.filter (\<lambda>r. \<not> ignoredWindow r) (set rs)"
  have fin: "finite ?S" by simp
  note ins = Min_insert_min [OF fin]
  show ?case
  proof (cases "ignoredWindow r")
    case True
    then have "Set.filter (\<lambda>r. \<not> ignoredWindow r) (set (r # rs)) = Set.filter (\<lambda>r. \<not> ignoredWindow r) (set rs)"
      by auto
    with True Cons.IH show ?thesis by (simp add: delayStep_def)
  next
    case False
    then have set: "dueIn now ` Set.filter (\<lambda>r. \<not> ignoredWindow r) (set (r # rs)) = insert (dueIn now r) ?S"
      by auto
    have "delayStep now r d = min d (dueIn now r)" using False by (simp add: delayStep_def min_def)
    with Cons.IH ins show ?thesis unfolding set by simp
  qed
qed simp

lemma range_records:
  "set (map (getWindow s) (fmkeys (ps_Windows s))) = fset (fmran (ps_Windows s))"
proof -
  have "getWindow s ` fset (fmdom (ps_Windows s)) = fset (fmran (ps_Windows s))"
    by (force simp: getWindow_def getOr_def fmlookup_ran_iff fmlookup_dom_iff image_iff)
  then show ?thesis by simp
qed

text \<open>
  C30: The wait for the next pass is the least of the observation interval and of the times until the pending
  checks, each at least a second; so it is never below a second (or the interval, when that is less) and never above
  the interval, whatever the clock and the order of the map.
\<close>

theorem next_delay_is_earliest_check:
  "nextDelay cfg s now =
     Min (insert (baseDelay cfg) (dueIn now ` Set.filter (\<lambda>r. \<not> ignoredWindow r) (fset (fmran (ps_Windows s))))) \<and>
   min second (baseDelay cfg) \<le> nextDelay cfg s now \<and> nextDelay cfg s now \<le> baseDelay cfg"
proof -
  let ?S = "dueIn now ` Set.filter (\<lambda>r. \<not> ignoredWindow r) (fset (fmran (ps_Windows s)))"
  have eq: "nextDelay cfg s now = Min (insert (baseDelay cfg) ?S)"
    unfolding nextDelay_def baseDelay_def Let_def delay_fold range_records ..
  have fin: "finite (insert (baseDelay cfg) ?S)" by simp
  have "second \<le> x" if "x \<in> ?S" for x
    using that by (auto simp: dueIn_def Let_def)
  then have "min second (baseDelay cfg) \<le> Min (insert (baseDelay cfg) ?S)"
    using fin by (subst Min_ge_iff) (auto simp: min.coboundedI1)
  moreover have "Min (insert (baseDelay cfg) ?S) \<le> baseDelay cfg"
    using fin by (rule Min_le) simp
  ultimately show ?thesis using eq by simp
qed

section \<open>The semaphore\<close>

definition poolStart :: "nat \<Rightarrow> pool" where
  "poolStart n = \<lparr>po_waiting = n, po_running = 0, po_finished = 0\<rparr>"

lemma pool_steps:
  assumes "0 \<le> slots"
  shows "(poolStep slots ended ^^ k) (poolStart n) p \<Longrightarrow>
    int (po_running p) \<le> slots \<and> po_waiting p + po_running p + po_finished p = n \<and>
    k + 2 * po_waiting p + po_running p \<le> 2 * n"
proof (induction k arbitrary: p)
  case 0
  with assms show ?case by (auto simp: poolStart_def)
next
  case (Suc k)
  then obtain q where "(poolStep slots ended ^^ k) (poolStart n) q" "poolStep slots ended q p" by auto
  with Suc.IH [of q] show ?case by (auto elim!: poolStep.cases)
qed

lemma pool_moves:
  assumes "1 \<le> slots"
  shows "(\<exists>q. poolStep slots ended p q) \<longleftrightarrow> 0 < po_waiting p + po_running p"
proof
  assume "\<exists>q. poolStep slots ended p q"
  then show "0 < po_waiting p + po_running p" by (auto elim!: poolStep.cases)
next
  assume pos: "0 < po_waiting p + po_running p"
  show "\<exists>q. poolStep slots ended p q"
  proof (cases "po_running p")
    case 0
    then obtain k where "po_waiting p = Suc k" using pos by (cases "po_waiting p") auto
    from poolStep.acquire [OF this, of slots ended] 0 assms show ?thesis by (auto intro: exI)
  next
    case (Suc k)
    from poolStep.release [OF this] show ?thesis by blast
  qed
qed



section \<open>The goroutines of a pass\<close>

text \<open>The schedule's actions, each with the goroutine it is of.\<close>

fun interleaveTagged :: "nat list \<Rightarrow> 'a list list \<Rightarrow> (nat \<times> 'a) list" where
  "interleaveTagged [] js = []"
| "interleaveTagged (i # is) js =
     (if i < length js then
        (case js ! i of [] \<Rightarrow> interleaveTagged is js | x # xs \<Rightarrow> (i, x) # interleaveTagged is (js[i := xs]))
      else interleaveTagged is js)"

definition actionsOf :: "nat \<Rightarrow> (nat \<times> 'a) list \<Rightarrow> 'a list" where
  "actionsOf i xs = map snd (filter (\<lambda>x. fst x = i) xs)"

lemma interleave_tagged: "map snd (interleaveTagged sched js) = interleave sched js"
  by (induction sched js rule: interleaveTagged.induct) (auto split: list.splits)

lemma actions_prefix: "prefix (actionsOf i (interleaveTagged sched js)) (if i < length js then js ! i else [])"
proof (induction sched js rule: interleaveTagged.induct)
  case (2 k "is" js)
  show ?case
  proof (cases "k < length js")
    case True
    show ?thesis
    proof (cases "js ! k")
      case Nil
      with 2 True show ?thesis by simp
    next
      case (Cons x xs)
      with 2(2) [OF True Cons] True show ?thesis by (auto simp: actionsOf_def split: if_splits)
    qed
  qed (use 2 in simp)
qed (simp add: actionsOf_def)

definition isTick :: "action \<Rightarrow> bool" where
  "isTick x \<longleftrightarrow> (\<exists>C cred ad c. x = ActOp (OpTick C cred ad) c)"

definition isRecover :: "action \<Rightarrow> bool" where
  "isRecover x \<longleftrightarrow> (\<exists>C cred ad ops c. x = ActOp (OpRecover C cred ad ops) c)"

lemma actions_recover_first:
  assumes "prefix (xs @ [x]) (credentialActions V call r n i ad c)" and "isTick x" and "ad_Activation ad \<noteq> None"
  shows "cred_Disabled c \<or> (\<exists>y \<in> set xs. isRecover y)"
proof (rule ccontr)
  assume neg: "\<not> (cred_Disabled c \<or> (\<exists>y \<in> set xs. isRecover y))"
  obtain ops where ops: "ad_Activation ad = Some ops" using assms(3) by auto
  have "credentialActions V call r n i ad c = xs @ x # drop (length xs + 1) (credentialActions V call r n i ad c)"
    using assms(1) by (auto simp: prefix_def)
  with neg assms(2) ops show False
    by (auto simp: credentialActions_def isTick_def isRecover_def Cons_eq_append_conv append_eq_Cons_conv
        split: if_splits sum.splits)
qed

lemma jobs_of:
  assumes "j \<in> set (jobsOf V call r n creds)"
  shows "\<exists>m i summary ad c. summary \<in> set creds \<and> eligible r summary = Some (ad, c) \<and>
    j = credentialActions V call r m i ad c"
  using assms by (auto simp: jobsOf_def in_map_filter in_set_enumerate_eq split: option.splits) (metis nth_mem)

text \<open>
  C29: Whatever the schedule, a pass runs a beginning of each goroutine's actions in their own order; and no goroutine of an
  enabled credential with an activation adapter ticks before it has recovered the attempts in flight.
\<close>

theorem pass_recovers_before_tick:
  assumes "\<forall>summary \<in> set creds. \<forall>ad c. eligible r summary = Some (ad, c) \<longrightarrow> ad_Activation ad \<noteq> None"
  shows "\<exists>tagged. map snd tagged = interleave sched (jobsOf V call r n creds) \<and>
    (\<forall>i. prefix (actionsOf i tagged) (if i < length (jobsOf V call r n creds) then jobsOf V call r n creds ! i else []) \<and>
      (\<forall>xs x ys. actionsOf i tagged = xs @ x # ys \<longrightarrow> isTick x \<longrightarrow>
         (\<exists>y \<in> set xs. isRecover y) \<or>
         (\<exists>m k ad c. jobsOf V call r n creds ! i = credentialActions V call r m k ad c \<and> cred_Disabled c)))"
proof (rule exI [of _ "interleaveTagged sched (jobsOf V call r n creds)"], intro conjI allI impI)
  let ?js = "jobsOf V call r n creds" and ?t = "interleaveTagged sched (jobsOf V call r n creds)"
  show "map snd ?t = interleave sched ?js" by (rule interleave_tagged)
  fix i
  show pre: "prefix (actionsOf i ?t) (if i < length ?js then ?js ! i else [])" by (rule actions_prefix)
  fix xs x ys assume eq: "actionsOf i ?t = xs @ x # ys" and tick: "isTick x"
  then have i: "i < length ?js" and p: "prefix (xs @ [x]) (?js ! i)"
    using pre by (auto simp: prefix_def split: if_splits)
  obtain m k summary ad c where j: "summary \<in> set creds" "eligible r summary = Some (ad, c)"
    "?js ! i = credentialActions V call r m k ad c"
    using jobs_of [OF nth_mem [OF i]] by blast
  from actions_recover_first [OF p [unfolded j(3)] tick] assms j(1,2) j(3)
  show "(\<exists>y \<in> set xs. isRecover y) \<or>
      (\<exists>m k ad c. ?js ! i = credentialActions V call r m k ad c \<and> cred_Disabled c)"
    by blast
qed

theorem pass_recovers_before_tick_witness:
  "\<exists>tagged. map snd tagged = interleave [0, 0, 0] (jobsOf demoPlugin demoCall (demoService False) 0 [demoSummary]) \<and>
     prefix (actionsOf 0 tagged) (jobsOf demoPlugin demoCall (demoService False) 0 [demoSummary] ! 0)"
proof -
  have elig: "\<forall>summary \<in> set [demoSummary]. \<forall>ad c. eligible (demoService False) summary = Some (ad, c) \<longrightarrow>
      ad_Activation ad \<noteq> None"
    using demo_eligible [of False] by (auto simp: codexAdapter_def)
  define js where "js = jobsOf demoPlugin demoCall (demoService False) 0 [demoSummary]"
  have "length js = 1" by (simp add: js_def jobsOf_def demo_eligible map_filter_simps)
  moreover obtain tagged where "map snd tagged = interleave [0, 0, 0] js"
    "\<forall>i. prefix (actionsOf i tagged) (if i < length js then js ! i else [])"
    using pass_recovers_before_tick [OF elig, of "[0, 0, 0]" demoPlugin demoCall 0] unfolding js_def by blast
  ultimately show ?thesis unfolding js_def [symmetric] by (intro exI [of _ tagged]) (metis zero_less_one)
qed

section \<open>The status\<close>

text \<open>
  C32: The status lists exactly the windows of the two supported providers, in the order of their keys, each without
  its fingerprint field: what that field holds does not change the status.
\<close>

theorem status_hides_fingerprints:
  "set (sd_Windows (statusOf V r s now)) =
     {w\<lparr>wr_CredentialFP := ''''\<rparr> | w. w |\<in>| fmran (ps_Windows s) \<and> wr_Provider w \<in> {''codex'', ''antigravity''}} \<and>
   sorted (map wr_Key (sd_Windows (statusOf V r s now))) \<and>
   statusOf V r (s\<lparr>ps_Windows := fmmap (\<lambda>w. w\<lparr>wr_CredentialFP := fp w\<rparr>) (ps_Windows s)\<rparr>) now = statusOf V r s now"
proof (intro conjI)
  have "set (sd_Windows (statusOf V r s now)) =
      (\<lambda>w. w\<lparr>wr_CredentialFP := ''''\<rparr>) ` Set.filter (\<lambda>w. wr_Provider w = ''codex'' \<or> wr_Provider w = ''antigravity'')
        (set (map (getWindow s) (fmkeys (ps_Windows s))))"
    unfolding statusOf_def Let_def by auto
  then show "set (sd_Windows (statusOf V r s now)) =
     {w\<lparr>wr_CredentialFP := ''''\<rparr> | w. w |\<in>| fmran (ps_Windows s) \<and> wr_Provider w \<in> {''codex'', ''antigravity''}}"
    unfolding range_records by auto
  show "sorted (map wr_Key (sd_Windows (statusOf V r s now)))" by (simp add: statusOf_def Let_def)
  let ?s = "s\<lparr>ps_Windows := fmmap (\<lambda>w. w\<lparr>wr_CredentialFP := fp w\<rparr>) (ps_Windows s)\<rparr>"
  have get: "\<exists>g. getWindow ?s k = (getWindow s k)\<lparr>wr_CredentialFP := g\<rparr>" if "k \<in> set (fmkeys (ps_Windows s))" for k
    using that by (auto simp: getWindow_def getOr_def fmlookup_dom_iff)
  have "map (\<lambda>w. w\<lparr>wr_CredentialFP := ''''\<rparr>)
      (filter (\<lambda>w. wr_Provider w = ''codex'' \<or> wr_Provider w = ''antigravity'') (map (getWindow ?s) ks)) =
    map (\<lambda>w. w\<lparr>wr_CredentialFP := ''''\<rparr>)
      (filter (\<lambda>w. wr_Provider w = ''codex'' \<or> wr_Provider w = ''antigravity'') (map (getWindow s) ks))"
    if "set ks \<subseteq> set (fmkeys (ps_Windows s))" for ks
    using that
  proof (induction ks)
    case (Cons k ks)
    obtain g where "getWindow ?s k = (getWindow s k)\<lparr>wr_CredentialFP := g\<rparr>" using get [of k] Cons.prems by auto
    with Cons show ?case by simp
  qed simp
  from this [OF subset_refl] show "statusOf V r ?s now = statusOf V r s now"
    by (simp add: statusOf_def Let_def fmkeys_def)
qed

section \<open>Calls of the host\<close>

definition serviceOf :: "pluginState \<Rightarrow> (config \<times> Registry \<times> Controller) option" where
  "serviceOf g = map_option (\<lambda>(r, st). (rt_cfg r, rt_registry r, rt_controller r)) (pg_runtime g)"

lemma stopRuntime_service:
  assumes "stopRuntime c (r, st) f = (x, (r', st'), f')"
  shows "rt_cfg r' = rt_cfg r \<and> rt_registry r' = rt_registry r \<and> rt_controller r' = rt_controller r \<and> \<not> rt_cancel r' \<and>
    (x \<noteq> None \<longrightarrow> x = Some (ErrMsg ''background observation did not stop within 5s'') \<and> \<not> cl_inTime c)"
  using assms
  by (auto simp: stopRuntime_def stopService_def Let_def split: prod.splits option.splits if_splits)

text \<open>
  C31: A call that fails leaves the plugin with the service it had: the same configuration, registry and controller, or
  none. Only a loop that does not stop in time has been cancelled all the same; any other failed call changes
  nothing at all. Management calls and unknown methods never change anything.
\<close>

theorem failed_call_keeps_service:
  assumes "handleMethod V K c m request g = (res, g')"
  shows "(isl res \<longrightarrow> serviceOf g' = serviceOf g \<and>
      (g' = g \<or> res = Inl (ErrMsg ''background observation did not stop within 5s'') \<and> \<not> cl_inTime c)) \<and>
    (m \<notin> {sk_Register K, sk_Reconfigure K, sk_Quiesce K, sk_Shutdown K} \<longrightarrow> g' = g)"
proof -
  have conf: "serviceOf g' = serviceOf g \<and>
      (g' = g \<or> e = ErrMsg ''background observation did not stop within 5s'' \<and> \<not> cl_inTime c)"
    if "configureMethod V K c request g = (Inl e, g') \<or> quiesceMethod c g = (Inl e, g')" for e
    using that
    by (auto simp: configureMethod_def quiesceMethod_def serviceOf_def
        split: sum.splits prod.splits option.splits if_splits dest!: stopRuntime_service)
  show ?thesis
  proof (cases res)
    case (Inl e)
    with assms conf [of e] show ?thesis by (auto simp: handleMethod_def split: if_splits sum.splits)
  next
    case (Inr x)
    with assms show ?thesis by (auto simp: handleMethod_def split: if_splits sum.splits)
  qed
qed

definition demoSDK :: sdk where
  "demoSDK = \<lparr>sk_Register = ''register'', sk_Reconfigure = ''reconfigure'', sk_Quiesce = ''quiesce'',
     sk_Shutdown = ''shutdown'', sk_ManagementRegister = ''management.register'',
     sk_ManagementHandle = ''management.handle'', sk_SchemaVersion = 1, sk_decodeLifecycle = Inr,
     sk_decodeRegistration = Inr, sk_decodeManagement = (\<lambda>_. Inl (ErrMsg ''bad request''))\<rparr>"

definition demoCallEnv :: "bool \<Rightarrow> callEnv" where
  "demoCallEnv inTime = \<lparr>cl_inTime = inTime, cl_drain = Pair, cl_managementNow = unixTime 20000\<rparr>"

text \<open>A reconfiguration with a document that does not decode.\<close>

theorem failed_call_keeps_service_witness:
  "serviceOf (snd (handleMethod demoPlugin demoSDK (demoCallEnv True) ''reconfigure'' ''x''
     \<lparr>pg_runtime = Some (demoService False, w_store demoWorld), pg_fs = fmempty\<rparr>)) =
   Some (demoConfig False, rt_registry (demoService False), rt_controller (demoService False))"
proof -
  let ?g = "\<lparr>pg_runtime = Some (demoService False, w_store demoWorld), pg_fs = fmempty\<rparr>"
  have call: "handleMethod demoPlugin demoSDK (demoCallEnv True) ''reconfigure'' ''x'' ?g = (Inl (ErrMsg ''no document''), ?g)"
    by (simp add: handleMethod_def configureMethod_def demoSDK_def decodeConfig_def demoPlugin_def Let_def)
  from failed_call_keeps_service [OF this] show ?thesis
    unfolding call by (simp add: serviceOf_def demoService_def)
qed

end
