(* ===== verification/Reconfigure.thy ===== *)
theory Reconfigure
  imports RuntimeProps
begin

text \<open>
  The life cycle of the service against the ledger: a reconfiguration loads the state for the new service before it
  stops the old one. A concrete run in which this costs a second request for one cycle.
\<close>

section \<open>The new configuration\<close>

definition liveConfig :: config where
  "liveConfig = (defaultPluginConfig (pe_config demoPlugin))
     \<lparr>cf_DryRun := False, cf_Core := defaultConfig\<lparr>cfg_DryRun := False\<rparr>, cf_StateDir := ''state''\<rparr>"

lemma live_texts: "trimSpace ''state'' = ''state''" "''state'' \<noteq> ''''"
  by code_simp+

lemma decode_live: "decodeConfig (pe_config demoPlugin) ''live'' = Inr liveConfig"
  by (simp add: decodeConfig_def Let_def demoPlugin_def demoLive_def coreDurations_def durationField_def
      requestTimeout_def setBool_def liveConfig_def defaultPluginConfig_def defaultConfig_def live_texts)

definition liveService :: runtimeService where
  "liveService = (demoService False)\<lparr>rt_cfg := liveConfig\<rparr>"

definition demoStore :: Store where
  "demoStore = \<lparr>st_path = ''state/runtime-state.json'', st_state = emptyState\<rparr>"

lemma live_runtime: "newRuntime demoPlugin liveConfig fmempty = Inr (liveService, demoStore)"
  unfolding newRuntime_def demo_registry [of False]
  by (simp add: demo_load demo_controller liveConfig_def liveService_def demoService_def demoStore_def)

lemma demo_started: "newRuntime demoPlugin (demoConfig False) fmempty = Inr (demoService False, demoStore)"
  using demo_runtime by (simp add: demoStore_def)

lemma live_eligible: "eligible liveService demoSummary = Some (codexAdapter (hostedEnv demoPlugin), demoSummary)"
proof -
  have "eligible (demoService False) demoSummary = Some (codexAdapter (hostedEnv demoPlugin), demoSummary)"
    by (rule demo_eligible)
  then have "matchAdapter (rt_registry liveService) demoSummary = Some (codexAdapter (hostedEnv demoPlugin))"
    by (auto simp: eligible_def liveService_def Let_def split: option.splits if_splits)
  moreover have "ad_ID (codexAdapter E) = ''codex''" for E by (simp add: codexAdapter_def)
  ultimately show ?thesis
    by (simp add: eligible_def liveService_def liveConfig_def defaultPluginConfig_def getOr_def fmlookup_of_list)
qed

section \<open>One pass of each service\<close>

text \<open>The service on its store and the files, at its start.\<close>

definition started :: "runtimeService \<Rightarrow> Store \<Rightarrow> fs \<Rightarrow> serviceState" where
  "started r st f = \<lparr>ss_service = r, ss_world = \<lparr>w_store = st, w_fs = f, w_n = 0, w_trace = []\<rparr>, ss_logs = [],
     ss_before = (\<lambda>_. emptyState)\<rparr>"

definition onePass :: "runtimeService \<Rightarrow> Store \<Rightarrow> fs \<Rightarrow> world" where
  "onePass r st f = ss_world (runOnce demoPlugin demoCall 0 (replicate 4 0) (started r st f))"

lemma one_pass_sends:
  assumes "newRuntime demoPlugin cfg fmempty = Inr (r, demoStore)" and "\<not> cfg_DryRun (cf_Core cfg)"
    and "eligible r demoSummary = Some (codexAdapter (hostedEnv demoPlugin), demoSummary)"
  shows "\<exists>req a. sends (w_trace (onePass (startService r) demoStore f)) = [(demoDocument, req, a)] \<and>
    pa_CycleIDs a = [newCycleID refLib (instanceKey demoDocument ''codex'' demoFP) (qw_BucketID demoWin) (qw_ResetAt demoWin)]"
proof -
  let ?s = "started (startService r) demoStore f"
  have s: "sameService r (ss_service ?s)"
    by (simp add: started_def sameService_def startService_def)
  have w: "inFlight (stateOf (ss_world ?s)) ik = []" "winDom (stateOf (ss_world ?s)) = {}"
    "ledgerDom (stateOf (ss_world ?s)) = {}" "w_trace (ss_world ?s) = []" for ik
    by (simp_all add: started_def demoStore_def emptyState_def winDom_def ledgerDom_def inFlight_def fmkeys_def
        sorted_list_of_fset.rep_eq)
  have "\<exists>req a. sends (w_trace (ss_world (runOnce demoPlugin demoCall 0 (replicate 4 0 @ []) ?s))) =
      sends (w_trace (ss_world ?s)) @ [(demoDocument, req, a)] \<and>
    codexRequest (hostedEnv demoPlugin) demoDocument req \<and>
    pa_CycleIDs a = [newCycleID (pf_lib (pe_platform demoPlugin)) (instanceKey demoDocument ''codex'' demoFP)
      (qw_BucketID demoWin) (qw_ResetAt demoWin)] \<and>
    set (pa_CycleIDs a) \<subseteq> ledgerDom (stateOf (ss_world (runOnce demoPlugin demoCall 0 (replicate 4 0 @ []) ?s)))"
    by (rule codex_pass_sends [OF assms(1) s _ assms(2) demo_orders _ _ demo_list assms(3) _ _ demo_get
          demo_no_proxy demo_fingerprint demo_read demo_win])
      (use demo_working w in \<open>auto simp: demo_http badStatus_def demoSummary_def credentialOf_def\<close>)
  then show ?thesis by (auto simp: onePass_def w)
qed

section \<open>Two requests for one cycle\<close>

text \<open>What the old service does while the new one has been loaded and the old one not yet stopped: one pass.\<close>

definition lateStop :: callEnv where
  "lateStop = \<lparr>cl_inTime = True,
     cl_drain = (\<lambda>st f. let w = onePass (startService (demoService False)) st f in (w_store w, w_fs w)),
     cl_managementNow = unixTime 20000\<rparr>"

text \<open>
  C37: A reconfiguration can cost a second request for one cycle. The new service reads the files before the old one is
  stopped; if the old one activates a window in between, the new service starts from a ledger without that cycle,
  although it is on disk by then, and its first pass requests the same cycle again.
\<close>

theorem reconfigure_may_send_twice:
  "\<exists>g' new st' req req' a a'.
     newRuntime demoPlugin (demoConfig False) fmempty = Inr (demoService False, demoStore) \<and>
     handleMethod demoPlugin demoSDK lateStop ''reconfigure'' ''live''
       \<lparr>pg_runtime = Some (startService (demoService False), demoStore), pg_fs = fmempty\<rparr> = (Inr (RespRegistration (pluginRegistration demoSDK)), g') \<and>
     sends (w_trace (onePass (startService (demoService False)) demoStore fmempty)) = [(demoDocument, req, a)] \<and>
     pg_fs g' = w_fs (onePass (startService (demoService False)) demoStore fmempty) \<and>
     pg_runtime g' = Some (new, st') \<and>
     sends (w_trace (onePass new st' (pg_fs g'))) = [(demoDocument, req', a')] \<and>
     pa_CycleIDs a' = pa_CycleIDs a \<and> pa_CycleIDs a \<noteq> []"
proof -
  let ?old = "startService (demoService False)"
  let ?f = "w_fs (onePass ?old demoStore fmempty)"
  have dry: "\<not> cfg_DryRun (cf_Core (demoConfig False))" "\<not> cfg_DryRun (cf_Core liveConfig)"
    by (simp_all add: demoConfig_def liveConfig_def)
  have "handleMethod demoPlugin demoSDK lateStop ''reconfigure'' ''live'' \<lparr>pg_runtime = Some (?old, demoStore), pg_fs = fmempty\<rparr> =
      (Inr (RespRegistration (pluginRegistration demoSDK)), \<lparr>pg_runtime = Some (startService liveService, demoStore), pg_fs = ?f\<rparr>)"
    by (simp add: handleMethod_def configureMethod_def demoSDK_def decode_live live_runtime stopRuntime_def stopService_def
        lateStop_def Let_def startService_def demoService_def demoConfig_def)
  moreover obtain req a where "sends (w_trace (onePass ?old demoStore fmempty)) = [(demoDocument, req, a)]"
    "pa_CycleIDs a = [newCycleID refLib (instanceKey demoDocument ''codex'' demoFP) (qw_BucketID demoWin) (qw_ResetAt demoWin)]"
    using one_pass_sends [OF demo_started dry(1) demo_eligible] by blast
  moreover obtain req' a' where "sends (w_trace (onePass (startService liveService) demoStore ?f)) = [(demoDocument, req', a')]"
    "pa_CycleIDs a' = [newCycleID refLib (instanceKey demoDocument ''codex'' demoFP) (qw_BucketID demoWin) (qw_ResetAt demoWin)]"
    using one_pass_sends [OF live_runtime dry(2) live_eligible, of ?f] by blast
  ultimately show ?thesis using demo_started by auto
qed

end
