(* ===== verification/ControllerProps.thy ===== *)
theory ControllerProps
  imports Scenario CodexAdapter
begin

text \<open>
  What the controller decides: when a window joins an activation, what a reconciliation does to
  every record of the state, and the bounds of its helpers.
\<close>

section \<open>When a window joins an activation\<close>

definition rolled :: "Config \<Rightarrow> QuotaWindow \<Rightarrow> WindowRecord \<Rightarrow> bool" where
  "rolled cfg w r \<longleftrightarrow>
     qw_ResetAt w > addTime (bl_ResetAt (wr_Baseline r)) (cfg_ClockSkewTolerance cfg) \<and> \<not> qw_LazyHint w"

definition unmoved :: "Config \<Rightarrow> QuotaWindow \<Rightarrow> WindowRecord \<Rightarrow> bool" where
  "unmoved cfg w r \<longleftrightarrow>
     absDuration (subTime (qw_ResetAt w) (bl_ResetAt (wr_Baseline r))) \<le> cfg_ClockSkewTolerance cfg"

definition due :: "Config \<Rightarrow> time \<Rightarrow> WindowRecord \<Rightarrow> bool" where
  "due cfg now r \<longleftrightarrow> now \<ge> addTime (bl_ResetAt (wr_Baseline r)) (cfg_ResetGracePeriod cfg)"

text \<open>
  C16: A window that already has a record joins an activation exactly when its adapter can activate
  it and either it waits for its reset, shows lazy evidence and was never activated; or its baseline's
  reset and the grace period have passed, it has not rolled over by itself, its cycle is not in the ledger, and it
  shows lazy evidence or the reset of its baseline.
\<close>

theorem window_joins_iff:
  "snd (nextRecord L cfg now ik can ledger w r) \<longleftrightarrow>
     can \<and>
     (wr_State r = StateWaitingReset \<and> qw_LazyHint w \<and> wr_LastActivation r = zeroTime \<or>
      \<not> rolled cfg w r \<and> due cfg now r \<and> fmlookup ledger (bl_CycleID (wr_Baseline r)) = None \<and>
      (qw_LazyHint w \<or> unmoved cfg w r))"
  by (auto simp: nextRecord_def Let_def rolled_def unmoved_def due_def after_def before_def)

section \<open>What a reconciliation does\<close>

definition recordFor ::
  "golib \<Rightarrow> Config \<Rightarrow> time \<Rightarrow> Credential \<Rightarrow> string \<Rightarrow> string \<Rightarrow> (QuotaWindow \<Rightarrow> bool) \<Rightarrow> PersistentState \<Rightarrow> QuotaWindow \<Rightarrow>
   WindowRecord \<times> bool" where
  "recordFor L cfg now cred ik fp can s w =
     (case fmlookup (ps_Windows s) (windowKey ik (qw_BucketID w)) of
        None \<Rightarrow> firstRecord L cfg now cred ik fp (can (attribute cred w)) (attribute cred w)
      | Some r \<Rightarrow> nextRecord L cfg now ik (can (attribute cred w)) (ps_CycleLedger s) (attribute cred w) r)"

definition absentRecord :: "Config \<Rightarrow> time \<Rightarrow> string \<Rightarrow> WindowRecord \<Rightarrow> WindowRecord" where
  "absentRecord cfg now ik r =
     (if wr_InstanceKey r \<noteq> ik then r
      else r\<lparr>wr_State := StateRetryWait, wr_LastResult := ''bucket absent from latest observation'',
             wr_NextCheck := addTime now (cfg_ObservationInterval cfg)\<rparr>)"

lemma attribute_bucket [simp]: "qw_BucketID (attribute cred w) = qw_BucketID w"
  by (simp add: attribute_def)

lemma windowKey_inj [simp]: "windowKey ik b = windowKey ik b' \<longleftrightarrow> b = b'"
  by (simp add: windowKey_def)

lemma reconcileWindow_eq:
  "reconcileWindow L cfg now cred ik fp can w (s, gs) =
     (putWindow (windowKey ik (qw_BucketID w)) (fst (recordFor L cfg now cred ik fp can s w)) s,
      if snd (recordFor L cfg now cred ik fp can s w)
      then addGroup (groupOf (attribute cred w)) (fst (recordFor L cfg now cred ik fp can s w)) gs else gs)"
  by (cases "fmlookup (ps_Windows s) (windowKey ik (qw_BucketID w))")
    (simp_all add: reconcileWindow_def recordFor_def Let_def case_prod_beta)

lemma recordFor_put:
  "qw_BucketID w \<noteq> b \<Longrightarrow>
     recordFor L cfg now cred ik fp can (putWindow (windowKey ik b) r s) w = recordFor L cfg now cred ik fp can s w"
  by (cases "fmlookup (ps_Windows s) (windowKey ik (qw_BucketID w))")
    (simp_all add: recordFor_def putWindow_def)

lemma reconcile_fold:
  assumes "distinct (map qw_BucketID ws)"
  shows "fmlookup (ps_Windows (fst (fold (reconcileWindow L cfg now cred ik fp can) ws (s, gs)))) k =
      (case find (\<lambda>w. windowKey ik (qw_BucketID w) = k) ws of
         Some w \<Rightarrow> Some (fst (recordFor L cfg now cred ik fp can s w))
       | None \<Rightarrow> fmlookup (ps_Windows s) k) \<and>
    (r \<in> set (getOr [] (snd (fold (reconcileWindow L cfg now cred ik fp can) ws (s, gs))) g) \<longleftrightarrow>
      r \<in> set (getOr [] gs g) \<or>
      (\<exists>w \<in> set ws. groupOf (attribute cred w) = g \<and> recordFor L cfg now cred ik fp can s w = (r, True)))"
  using assms
proof (induction ws arbitrary: s gs)
  case (Cons w ws)
  let ?rec = "recordFor L cfg now cred ik fp can s"
  let ?s = "putWindow (windowKey ik (qw_BucketID w)) (fst (?rec w)) s"
  let ?gs = "if snd (?rec w) then addGroup (groupOf (attribute cred w)) (fst (?rec w)) gs else gs"
  have other: "recordFor L cfg now cred ik fp can ?s v = ?rec v" if "v \<in> set ws" for v
    using Cons.prems that by (intro recordFor_put) (auto simp: image_iff)
  have gr: "r \<in> set (getOr [] ?gs g) \<longleftrightarrow> r \<in> set (getOr [] gs g) \<or>
      groupOf (attribute cred w) = g \<and> ?rec w = (r, True)"
    by (cases "?rec w") (auto simp: addGroup_def getOr_def)
  have fin: "find (\<lambda>v. windowKey ik (qw_BucketID v) = k) ws = Some v \<Longrightarrow> v \<in> set ws" for v
    by (auto simp: find_Some_iff)
  have keep: "fmlookup (ps_Windows ?s) k =
      (if windowKey ik (qw_BucketID w) = k then Some (fst (?rec w)) else fmlookup (ps_Windows s) k)"
    by (simp add: putWindow_def)
  have absent: "find (\<lambda>v. windowKey ik (qw_BucketID v) = k) ws = None" if "windowKey ik (qw_BucketID w) = k"
    using Cons.prems that by (auto simp: find_None_iff image_iff)
  show ?case
    using Cons.IH [of ?s ?gs] Cons.prems other gr fin keep absent
    by (auto simp: reconcileWindow_eq split: option.splits)
qed simp

lemma reconcile_rest:
  "ps_CycleLedger (fst (fold (reconcileWindow L cfg now cred ik fp can) ws (s, gs))) = ps_CycleLedger s \<and>
   ps_Attempts (fst (fold (reconcileWindow L cfg now cred ik fp can) ws (s, gs))) = ps_Attempts s"
  by (induction ws arbitrary: s gs) (simp_all add: reconcileWindow_eq putWindow_def)

text \<open>
  C17: A reconciliation of distinct buckets leaves the ledger, the attempts and the records of other
  instances as they are, gives every observed window the record that the decision for this window alone makes from
  the old state, and marks the unobserved records of the instance; and a record is in a group exactly when it is the
  record of a window of that group that joins. So the loop of the code does not depend on the order of the
  windows.
\<close>

theorem reconcile_by_window:
  assumes "distinct (map qw_BucketID ws)"
  shows "fmlookup (ps_Windows (fst (reconcileState L cfg now cred ik fp can ws s))) k =
      (case find (\<lambda>w. windowKey ik (qw_BucketID w) = k) ws of
         Some w \<Rightarrow> Some (fst (recordFor L cfg now cred ik fp can s w))
       | None \<Rightarrow> map_option (absentRecord cfg now ik) (fmlookup (ps_Windows s) k)) \<and>
    (r \<in> set (getOr [] (snd (reconcileState L cfg now cred ik fp can ws s)) g) \<longleftrightarrow>
      (\<exists>w \<in> set ws. groupOf (attribute cred w) = g \<and> recordFor L cfg now cred ik fp can s w = (r, True))) \<and>
    ps_CycleLedger (fst (reconcileState L cfg now cred ik fp can ws s)) = ps_CycleLedger s \<and>
    ps_Attempts (fst (reconcileState L cfg now cred ik fp can ws s)) = ps_Attempts s"
proof -
  let ?fold = "fold (reconcileWindow L cfg now cred ik fp can) ws (s, fmempty)"
  let ?seen = "map (\<lambda>w. windowKey ik (qw_BucketID w)) ws"
  have eq: "reconcileState L cfg now cred ik fp can ws s = (markAbsent cfg now ik ?seen (fst ?fold), snd ?fold)"
    by (simp add: reconcileState_def case_prod_beta)
  have rest: "ps_CycleLedger (fst ?fold) = ps_CycleLedger s" "ps_Attempts (fst ?fold) = ps_Attempts s"
    using reconcile_rest by blast+
  have absent: "fmlookup (ps_Windows (markAbsent cfg now ik ?seen t)) k =
      (if k \<in> set ?seen then fmlookup (ps_Windows t) k
       else map_option (absentRecord cfg now ik) (fmlookup (ps_Windows t) k))" for t
    by (cases "fmlookup (ps_Windows t) k") (auto simp: markAbsent_def rangeWindows_def absentRecord_def)
  note f = reconcile_fold [OF assms, of L cfg now cred ik fp can s fmempty k r g]
  have seen: "k \<in> set ?seen \<longleftrightarrow> find (\<lambda>w. windowKey ik (qw_BucketID w) = k) ws \<noteq> None"
    by (auto simp: find_None_iff)
  show ?thesis
    unfolding eq fst_conv snd_conv absent seen
    using f rest by (auto simp: markAbsent_def rangeWindows_def getOr_def split: option.splits)
qed

lemma reconcile_demo_distinct: "distinct (map qw_BucketID [demoWindow (unixTime 38000)])"
  by simp

theorem reconcile_by_window_witness:
  "fmlookup (ps_Windows (fst (reconcileState refLib defaultConfig (unixTime 20000) demoCred ''ik'' ''fp''
     (\<lambda>_. True) [demoWindow (unixTime 38000)] emptyState))) (windowKey ''ik'' ''5h'') \<noteq> None"
  using reconcile_by_window [OF reconcile_demo_distinct, of refLib defaultConfig "unixTime 20000" demoCred "''ik''"
      "''fp''" "\<lambda>_. True" emptyState "windowKey ''ik'' ''5h''"]
  by (simp add: demoWindow_def)

section \<open>A window activated on its first observation\<close>

text \<open>The decisions of a sequence of observations of one window, each with its clock and ledger.\<close>

fun joinsOf ::
  "golib \<Rightarrow> Config \<Rightarrow> string \<Rightarrow> (time \<times> (string, CycleLedgerEntry) fmap \<times> QuotaWindow) list \<Rightarrow> WindowRecord \<Rightarrow> bool list" where
  "joinsOf L cfg ik [] r = []"
| "joinsOf L cfg ik ((now, ledger, w) # os) r =
     (case nextRecord L cfg now ik True ledger w r of (r', j) \<Rightarrow> j # joinsOf L cfg ik os r')"

lemma nextRecord_blocked:
  assumes "qw_LazyHint w" and "fmlookup ledger (bl_CycleID (wr_Baseline r)) \<noteq> None"
    and "wr_LastActivation r \<noteq> zeroTime"
  shows "\<exists>r'. nextRecord L cfg now ik True ledger w r = (r', False) \<and> wr_Baseline r' = wr_Baseline r \<and>
    wr_LastActivation r' = wr_LastActivation r"
  using assms by (simp add: nextRecord_def Let_def)

text \<open>
  C18: Once a window has been activated for the cycle of its baseline, no observation that shows it lazy again ever
  joins an activation, however many cycles go by, and no verification against such an observation confirms
  (which would move the baseline). A window activated on its first, lazy observation keeps the
  baseline of that observation, whose reset is the one the activation brings about; so when the activated window has
  expired, the next lazy reset is left alone until some other use of the account makes it roll.
\<close>

theorem activated_cycle_blocks_lazy_windows:
  assumes "wr_LastActivation r \<noteq> zeroTime"
    and "\<forall>(now, ledger, w) \<in> set os. qw_LazyHint w \<and> fmlookup ledger (bl_CycleID (wr_Baseline r)) \<noteq> None"
  shows "True \<notin> set (joinsOf L cfg ik os r) \<and>
    (\<forall>(now, ledger, w) \<in> set os. \<not> vr_Confirmed (codexVerify (wr_Baseline r) w))"
proof
  show "True \<notin> set (joinsOf L cfg ik os r)"
    using assms
  proof (induction os arbitrary: r)
    case (Cons x os)
    obtain now ledger w where x: "x = (now, ledger, w)" by (cases x)
    obtain r' where r': "nextRecord L cfg now ik True ledger w r = (r', False)" "wr_Baseline r' = wr_Baseline r"
      "wr_LastActivation r' = wr_LastActivation r"
      using nextRecord_blocked [of w ledger r L cfg now ik] Cons.prems x by auto
    with Cons show ?case by (simp add: x)
  qed simp
  show "\<forall>(now, ledger, w) \<in> set os. \<not> vr_Confirmed (codexVerify (wr_Baseline r) w)"
    using assms(2) by (auto simp: codexVerify_def split: option.splits)
qed

definition demoActivated :: WindowRecord where
  "demoActivated = (fst (firstRecord refLib defaultConfig (unixTime 20000) demoCred ''ik'' ''fp'' True
     (demoWindow (unixTime 38000))))\<lparr>wr_LastActivation := unixTime 20000\<rparr>"

text \<open>Activated at 20000; at 50000 the window of 38000 has expired and shows as lazy, with the reset 68000.\<close>

theorem activated_cycle_blocks_lazy_windows_witness:
  "joinsOf refLib defaultConfig ''ik'' [(unixTime 50000,
     fmupd (bl_CycleID (wr_Baseline demoActivated)) zeroLedgerEntry fmempty, demoWindow (unixTime 68000))]
     demoActivated = [False]"
  using activated_cycle_blocks_lazy_windows [of demoActivated "[(unixTime 50000,
     fmupd (bl_CycleID (wr_Baseline demoActivated)) zeroLedgerEntry fmempty, demoWindow (unixTime 68000))]"
      refLib defaultConfig "''ik''"]
  by (auto simp: demoActivated_def unixTime_def demoWindow_def split: prod.splits)

section \<open>Bounds\<close>


section \<open>Redaction\<close>

lemma redactStep_independent:
  assumes "toLower m = toLower marker"
  shows "redactStep marker (p @ m @ s) = redactStep marker (p @ m @ t)"
proof -
  obtain i where i: "indexOf (toLower marker) (toLower p @ toLower m) = Some i" "i \<le> length p"
    using indexOf_occurs [of "toLower marker" "toLower p" "[]"] assms by auto
  have "indexOf (toLower marker) (toLower (p @ m @ s)) = Some i" for s
    using indexOf_append [OF i(1), of "toLower s"] by (simp add: toLower_append)
  then show ?thesis using i(2) by (simp add: redactStep_def)
qed



end
