(* ===== verification/ObserveAdapters.thy ===== *)
theory ObserveAdapters
  imports ProviderUtil
begin

text \<open>
  The adapters that only observe: \<open>adapters/claude\<close>, \<open>adapters/geminicli\<close>, \<open>adapters/kimi\<close>
  and \<open>adapters/xai\<close>. They have no activation operations. Their \<open>ReadQuota\<close> does not test
  the client for nil (a nil client panics; \<open>New\<close> always gets one), so they take a client.
\<close>

text \<open>What the four reads share: the request, the error, the status, the parse.\<close>

definition fetchQuota ::
  "adapterEnv \<Rightarrow> httpDo \<Rightarrow> string \<Rightarrow> (string \<Rightarrow> string \<Rightarrow> time \<Rightarrow> error + Observation) \<Rightarrow> nat \<Rightarrow> Credential \<Rightarrow>
   ActivationRequest \<Rightarrow> error + Observation" where
  "fetchQuota E call label parse n c request =
     (case call n c request of
        Inl e \<Rightarrow> Inl e
      | Inr resp \<Rightarrow>
          (if badStatus resp then Inl (ErrMsg (label @ '' status '' @ intText (hr_StatusCode resp)))
           else parse (hr_Body resp) (cred_AuthID c) (ae_now E n)))"

definition observedOr :: "string \<Rightarrow> QuotaWindow list \<Rightarrow> error + Observation" where
  "observedOr message out = (if out = [] then Inl (ErrMsg message) else Inr \<lparr>ob_Windows = out\<rparr>)"

text \<open>A complete window with the fields every observer leaves at their zero values.\<close>

definition observedWindow ::
  "string \<Rightarrow> string \<Rightarrow> string \<Rightarrow> string \<Rightarrow> string \<Rightarrow> float64 \<Rightarrow> time \<Rightarrow> duration \<Rightarrow> time \<Rightarrow> QuotaWindow" where
  "observedWindow provider authID bucket family scope used reset duration now =
     \<lparr>qw_Provider = provider, qw_AuthID = authID, qw_BucketID = bucket, qw_ModelFamily = family,
      qw_Scope = scope, qw_UsedPercent = Some used, qw_ResetAt = reset, qw_WindowDuration = duration,
      qw_ObservedAt = now, qw_ServerTime = zeroTime, qw_ActivationGroup = '''', qw_LazyHint = False,
      qw_Complete = True\<rparr>"

section \<open>Claude\<close>

definition claudeMatch :: "Credential \<Rightarrow> bool" where
  "claudeMatch c \<longleftrightarrow> equalFold (cred_Provider c) ''claude''"

definition claudeFingerprint :: "adapterEnv \<Rightarrow> nat \<Rightarrow> Credential \<Rightarrow> error + string" where
  "claudeFingerprint E n c =
     (case decodeObject E (cred_RawJSON c) of
        Inl e \<Rightarrow> Inl e
      | Inr doc \<Rightarrow>
          fingerprint E [''claude'', foundText (deepStringOf (ae_order E n)
            [''account_id'', ''user_id'', ''email'', ''organization_id''] (JObj doc))])"

definition claudeKeys :: "string list" where
  "claudeKeys = [''five_hour'', ''seven_day'', ''seven_day_oauth_apps'', ''seven_day_opus'',
     ''seven_day_sonnet'', ''seven_day_cowork'', ''iguana_necktie'']"

definition claudeWindow :: "object \<Rightarrow> string \<Rightarrow> time \<Rightarrow> string \<Rightarrow> QuotaWindow option" where
  "claudeWindow doc authID now key =
     (case objectOf [key] doc of
        None \<Rightarrow> None
      | Some m \<Rightarrow>
     (case numberOf [''utilization''] m of
        None \<Rightarrow> None
      | Some used \<Rightarrow>
     (case timeOf [''resets_at''] m of
        None \<Rightarrow> None
      | Some reset \<Rightarrow>
          (let duration = (if key = ''five_hour'' then 5 * hour else 7 * 24 * hour)
           in Some (observedWindow ''claude'' authID key key ''oauth_usage'' used reset duration now)))))"

definition claudeParse :: "adapterEnv \<Rightarrow> string \<Rightarrow> string \<Rightarrow> time \<Rightarrow> error + Observation" where
  "claudeParse E raw authID now =
     (case decodeObject E raw of
        Inl e \<Rightarrow> Inl e
      | Inr doc \<Rightarrow>
          observedOr ''Claude response has no complete quota windows''
            (List.map_filter (claudeWindow doc authID now) claudeKeys))"

definition claudeReadQuota :: "adapterEnv \<Rightarrow> httpDo \<Rightarrow> nat \<Rightarrow> Credential \<Rightarrow> error + Observation" where
  "claudeReadQuota E call n c =
     (case decodeObject E (cred_RawJSON c) of
        Inl e \<Rightarrow> Inl e
      | Inr doc \<Rightarrow>
          (let token = foundText (deepStringOf (ae_order E n) [''access_token''] (JObj doc))
           in if token = '''' then Inl (ErrMsg ''Claude access token missing'')
              else fetchQuota E call ''Claude quota'' (claudeParse E) n c
                \<lparr>rq_Method = ''GET'', rq_URL = ''https://api.anthropic.com/api/oauth/usage'',
                 rq_Headers = fmap_of_list [(''Authorization'', [''Bearer '' @ token]),
                   (''Content-Type'', [''application/json'']), (''anthropic-beta'', [''oauth-2025-04-20''])],
                 rq_Body = []\<rparr>))"

definition claudeAdapter :: "adapterEnv \<Rightarrow> httpDo \<Rightarrow> Adapter" where
  "claudeAdapter E call = \<lparr>ad_ID = ''claude'', ad_Match = claudeMatch,
     ad_Fingerprint = claudeFingerprint E, ad_ReadQuota = claudeReadQuota E call, ad_Activation = None\<rparr>"

section \<open>Gemini CLI\<close>

definition geminiMatch :: "Credential \<Rightarrow> bool" where
  "geminiMatch c \<longleftrightarrow> equalFold (cred_Provider c) ''gemini-cli'' \<or> equalFold (cred_Provider c) ''geminicli''"

definition geminiFingerprint :: "adapterEnv \<Rightarrow> nat \<Rightarrow> Credential \<Rightarrow> error + string" where
  "geminiFingerprint E n c =
     (case decodeObject E (cred_RawJSON c) of
        Inl e \<Rightarrow> Inl e
      | Inr doc \<Rightarrow>
          fingerprint E [''gemini-cli'',
            foundText (deepStringOf (ae_order E n) [''user_id'', ''sub'', ''email''] (JObj doc)),
            foundText (deepStringOf (ae_order E n) [''project_id'', ''projectId''] (JObj doc))])"

definition geminiBucket :: "string \<Rightarrow> time \<Rightarrow> json \<Rightarrow> QuotaWindow option" where
  "geminiBucket authID now x =
     (case x of
        JObj m \<Rightarrow>
          (let model = stringOf [''modelId''] m; tokenType = stringOf [''tokenType''] m
           in case timeOf [''resetTime''] m of
                None \<Rightarrow> None
              | Some reset \<Rightarrow>
             (case numberOf [''remainingFraction''] m of
                None \<Rightarrow> None
              | Some remaining \<Rightarrow>
                  (let used = floatMul (FFin 100) (floatSub (FFin 1) remaining);
                       duration = subTime reset now
                   in if duration \<le> 0 \<or> 32 * 24 * hour < duration then None
                      else if model = '''' \<or> tokenType = '''' then None
                      else Some (observedWindow ''gemini-cli'' authID (model @ '':'' @ tokenType) model
                        tokenType used reset duration now))))
      | _ \<Rightarrow> None)"

definition geminiParse :: "adapterEnv \<Rightarrow> string \<Rightarrow> string \<Rightarrow> time \<Rightarrow> error + Observation" where
  "geminiParse E raw authID now =
     (case decodeObject E raw of
        Inl e \<Rightarrow> Inl e
      | Inr doc \<Rightarrow>
     (case sliceOf [''buckets''] doc of
        None \<Rightarrow> Inl (ErrMsg ''Gemini CLI buckets missing'')
      | Some buckets \<Rightarrow>
          observedOr ''Gemini CLI response has no complete buckets''
            (List.map_filter (geminiBucket authID now) buckets)))"

definition geminiReadQuota :: "adapterEnv \<Rightarrow> httpDo \<Rightarrow> nat \<Rightarrow> Credential \<Rightarrow> error + Observation" where
  "geminiReadQuota E call n c =
     (case decodeObject E (cred_RawJSON c) of
        Inl e \<Rightarrow> Inl e
      | Inr doc \<Rightarrow>
          (let token = foundText (deepStringOf (ae_order E n) [''access_token''] (JObj doc));
               project = foundText (deepStringOf (ae_order E n) [''project_id'', ''projectId''] (JObj doc))
           in if token = '''' \<or> project = '''' then Inl (ErrMsg ''Gemini CLI token or project missing'')
              else fetchQuota E call ''Gemini CLI quota'' (geminiParse E) n c
                \<lparr>rq_Method = ''POST'',
                 rq_URL = ''https://cloudcode-pa.googleapis.com/v1internal:retrieveUserQuota'',
                 rq_Headers = fmap_of_list [(''Authorization'', [''Bearer '' @ token]),
                   (''Content-Type'', [''application/json''])],
                 rq_Body = encodeJSON (ae_numberText E) (JObj [(''project'', JStr project)])\<rparr>))"

definition geminiAdapter :: "adapterEnv \<Rightarrow> httpDo \<Rightarrow> Adapter" where
  "geminiAdapter E call = \<lparr>ad_ID = ''gemini-cli'', ad_Match = geminiMatch,
     ad_Fingerprint = geminiFingerprint E, ad_ReadQuota = geminiReadQuota E call, ad_Activation = None\<rparr>"

section \<open>Kimi\<close>

definition kimiMatch :: "Credential \<Rightarrow> bool" where
  "kimiMatch c \<longleftrightarrow> equalFold (cred_Provider c) ''kimi''"

definition kimiFingerprint :: "adapterEnv \<Rightarrow> nat \<Rightarrow> Credential \<Rightarrow> error + string" where
  "kimiFingerprint E n c =
     (case decodeObject E (cred_RawJSON c) of
        Inl e \<Rightarrow> Inl e
      | Inr doc \<Rightarrow>
          fingerprint E [''kimi'',
            foundText (deepStringOf (ae_order E n) [''user_id'', ''account_id'', ''email''] (JObj doc))])"

text \<open>\<open>time.Duration(n) * unit\<close> wraps around.\<close>

definition kimiDuration :: "goarch \<Rightarrow> object \<Rightarrow> duration" where
  "kimiDuration arch window =
     (let unit = toUpperASCII (stringOf [''timeUnit'', ''time_unit''] window)
      in case numberOf [''duration''] window of
           None \<Rightarrow> 0
         | Some x \<Rightarrow>
             (let n = toInt64 arch x
              in if containsText unit ''SECOND'' then wrap64 (n * second)
                 else if containsText unit ''HOUR'' then wrap64 (n * hour)
                 else if containsText unit ''DAY'' then wrap64 (wrap64 (n * 24) * hour)
                 else if containsText unit ''WEEK'' then wrap64 (wrap64 (wrap64 (n * 7) * 24) * hour)
                 else wrap64 (n * minute)))"

definition kimiLimit :: "goarch \<Rightarrow> string \<Rightarrow> time \<Rightarrow> json \<Rightarrow> QuotaWindow option" where
  "kimiLimit arch authID now x =
     (case x of
        JObj m \<Rightarrow>
          (let detail = objectOf [''detail''] m;
               window = objectOf [''window''] m;
               i = stringOf [''id'', ''scope'', ''name''] m
           in if i = '''' then None
              else
                (let usedKeys = [''used_percent'', ''utilization'', ''percent''];
                     resetKeys = [''reset_at'', ''resetAt'', ''reset_time'', ''resetTime''];
                     used = (case numberOf usedKeys m of
                               Some u \<Rightarrow> Some u
                             | None \<Rightarrow> (case detail of None \<Rightarrow> None | Some d \<Rightarrow> numberOf usedKeys d));
                     reset = (case timeOf resetKeys m of
                               Some t \<Rightarrow> Some t
                             | None \<Rightarrow> (case detail of None \<Rightarrow> None | Some d \<Rightarrow> timeOf resetKeys d));
                     duration = (case window of None \<Rightarrow> 0 | Some w \<Rightarrow> kimiDuration arch w)
                 in case (used, reset) of
                      (Some u, Some t) \<Rightarrow>
                        (if 0 < duration
                         then Some (observedWindow ''kimi'' authID i '''' ''coding'' u t duration now) else None)
                    | _ \<Rightarrow> None))
      | _ \<Rightarrow> None)"

definition kimiParse :: "adapterEnv \<Rightarrow> string \<Rightarrow> string \<Rightarrow> time \<Rightarrow> error + Observation" where
  "kimiParse E raw authID now =
     (case decodeObject E raw of
        Inl e \<Rightarrow> Inl e
      | Inr doc \<Rightarrow>
     (case sliceOf [''limits'', ''usages''] doc of
        None \<Rightarrow> Inl (ErrMsg ''Kimi limits missing'')
      | Some limits \<Rightarrow>
          observedOr ''Kimi response has no complete stable windows''
            (List.map_filter (kimiLimit (ae_arch E) authID now) limits)))"

definition kimiReadQuota :: "adapterEnv \<Rightarrow> httpDo \<Rightarrow> nat \<Rightarrow> Credential \<Rightarrow> error + Observation" where
  "kimiReadQuota E call n c =
     (case decodeObject E (cred_RawJSON c) of
        Inl e \<Rightarrow> Inl e
      | Inr doc \<Rightarrow>
          (let token = foundText (deepStringOf (ae_order E n) [''access_token''] (JObj doc))
           in if token = '''' then Inl (ErrMsg ''Kimi access token missing'')
              else fetchQuota E call ''Kimi quota'' (kimiParse E) n c
                \<lparr>rq_Method = ''GET'', rq_URL = ''https://api.kimi.com/coding/v1/usages'',
                 rq_Headers = fmap_of_list [(''Authorization'', [''Bearer '' @ token])], rq_Body = []\<rparr>))"

definition kimiAdapter :: "adapterEnv \<Rightarrow> httpDo \<Rightarrow> Adapter" where
  "kimiAdapter E call = \<lparr>ad_ID = ''kimi'', ad_Match = kimiMatch,
     ad_Fingerprint = kimiFingerprint E, ad_ReadQuota = kimiReadQuota E call, ad_Activation = None\<rparr>"

section \<open>xAI\<close>

definition xaiMatch :: "Credential \<Rightarrow> bool" where
  "xaiMatch c \<longleftrightarrow> equalFold (cred_Provider c) ''xai'' \<or> equalFold (cred_Provider c) ''grok''"

definition xaiFingerprint :: "adapterEnv \<Rightarrow> nat \<Rightarrow> Credential \<Rightarrow> error + string" where
  "xaiFingerprint E n c =
     (case decodeObject E (cred_RawJSON c) of
        Inl e \<Rightarrow> Inl e
      | Inr doc \<Rightarrow>
          fingerprint E [''xai'',
            foundText (deepStringOf (ae_order E n) [''user_id'', ''sub'', ''email''] (JObj doc))])"

definition xaiPeriod :: "string \<Rightarrow> time \<Rightarrow> json \<Rightarrow> QuotaWindow option" where
  "xaiPeriod authID now x =
     (case x of
        JObj m \<Rightarrow>
          (let kind = stringOf [''periodType'', ''period_type'', ''type''] m
           in case timeOf [''resetAt'', ''reset_at'', ''endTime'', ''end_time''] m of
                None \<Rightarrow> None
              | Some reset \<Rightarrow>
             (case numberOf [''usedPercent'', ''used_percent'', ''utilization''] m of
                None \<Rightarrow> None
              | Some used \<Rightarrow>
                  (let d0 = windowDuration kind;
                       duration = (if d0 \<le> 0 then
                                     (if containsText (toLowerASCII kind) ''week'' then 7 * 24 * hour
                                      else if containsText (toLowerASCII kind) ''month'' then 30 * 24 * hour
                                      else d0)
                                   else d0);
                       i0 = stringOf [''id'', ''product''] m;
                       i = (if i0 = '''' then kind else i0)
                   in if duration \<le> 0 then None
                      else if i = '''' then None
                      else Some (observedWindow ''xai'' authID i '''' kind used reset duration now))))
      | _ \<Rightarrow> None)"

definition xaiParse :: "adapterEnv \<Rightarrow> string \<Rightarrow> string \<Rightarrow> time \<Rightarrow> error + Observation" where
  "xaiParse E raw authID now =
     (case decodeObject E raw of
        Inl e \<Rightarrow> Inl e
      | Inr doc \<Rightarrow>
          (let cfg = (case objectOf [''config''] doc of Some c \<Rightarrow> c | None \<Rightarrow> doc)
           in case sliceOf [''periods'', ''billing_periods''] cfg of
                None \<Rightarrow> Inl (ErrMsg ''xAI billing periods missing'')
              | Some periods \<Rightarrow>
                  observedOr ''xAI response has no complete billing windows''
                    (List.map_filter (xaiPeriod authID now) periods)))"

definition xaiReadQuota :: "adapterEnv \<Rightarrow> httpDo \<Rightarrow> nat \<Rightarrow> Credential \<Rightarrow> error + Observation" where
  "xaiReadQuota E call n c =
     (case decodeObject E (cred_RawJSON c) of
        Inl e \<Rightarrow> Inl e
      | Inr doc \<Rightarrow>
          (let token = foundText (deepStringOf (ae_order E n) [''access_token''] (JObj doc))
           in if token = '''' then Inl (ErrMsg ''xAI access token missing'')
              else fetchQuota E call ''xAI billing'' (xaiParse E) n c
                \<lparr>rq_Method = ''GET'', rq_URL = ''https://cli-chat-proxy.grok.com/v1/billing?format=credits'',
                 rq_Headers = fmap_of_list [(''Authorization'', [''Bearer '' @ token]),
                   (''x-xai-token-auth'', [''xai-grok-cli'']), (''accept'', [''application/json''])],
                 rq_Body = []\<rparr>))"

definition xaiAdapter :: "adapterEnv \<Rightarrow> httpDo \<Rightarrow> Adapter" where
  "xaiAdapter E call = \<lparr>ad_ID = ''xai'', ad_Match = xaiMatch,
     ad_Fingerprint = xaiFingerprint E, ad_ReadQuota = xaiReadQuota E call, ad_Activation = None\<rparr>"

end
