(* ===== verification/AdapterProps.thy ===== *)
theory AdapterProps
  imports PluginDemo ControllerProps ObserveAdapters
begin

text \<open>
  What the adapters promise: the shape of what they read, the identity of a credential, the plans of Antigravity,
  and the bounds of the texts they parse.
\<close>

section \<open>Readings\<close>

lemma floatSeconds_range: "floatSeconds arch x \<le> maxInt64"
  unfolding floatSeconds_def by (rule toInt64_range)

lemma codexWindow_duration:
  "codexWindow arch raw authID scope i fallback now activate = Some w \<Longrightarrow> fallback \<le> maxInt64 \<Longrightarrow>
     qw_WindowDuration w \<le> maxInt64"
  by (auto simp: codexWindow_def codexDuration_def Let_def split: option.splits if_splits
      intro: floatSeconds_range [simplified])

lemma codexParse_duration:
  assumes "codexParse E raw authID now = Inr obs" and "w \<in> set (ob_Windows obs)"
  shows "qw_WindowDuration w \<le> maxInt64"
proof -
  have add: "qw_WindowDuration w \<le> maxInt64" if add: "w \<in> set (additionalWindows arch i item authID now)" for arch i item
  proof -
    obtain w0 f rw b where "w = w0\<lparr>qw_ModelFamily := f\<rparr>"
      "codexWindow arch rw authID ''additional'' b 0 now False = Some w0"
      using additionalWindows_from [OF add] by blast
    with codexWindow_duration [OF this(2)] show ?thesis by simp
  qed
  obtain doc rate where "w \<in> set (mainWindows (ae_arch E) rate authID now) \<union>
      set (reviewPart (ae_arch E) doc authID now) \<union> set (additionalPart (ae_arch E) doc authID now)"
    using assms by (auto simp: codexParse_def Let_def split: sum.split_asm option.split_asm if_split_asm)
  then consider "w \<in> set (mainWindows (ae_arch E) rate authID now)"
    | review where "w \<in> set (reviewWindows (ae_arch E) review authID now)"
    | i item where "w \<in> set (additionalWindows (ae_arch E) i item authID now)"
    by (auto simp: reviewPart_def additionalPart_def split: option.splits)
  then show ?thesis
  proof cases
    case 1
    then show ?thesis
      by (auto simp: mainWindows_def codexSlots_def in_map_filter duration_units
        split: option.splits dest!: codexWindow_duration)
  next
    case 2
    then show ?thesis
      by (auto simp: reviewWindows_def codexSlots_def in_map_filter duration_units
        split: option.splits dest!: codexWindow_duration)
  next
    case 3
    then show ?thesis by (rule add)
  qed
qed

text \<open>
  C21: Every window of a successful Codex or Antigravity reading belongs to the credential and to this reading, has a
  positive duration of 64 bits and, when it is called lazy, no use and a reset one duration ahead (within three
  minutes); a window that can be activated is in a group; and a successful reading is never empty.
\<close>

theorem readings_are_well_typed:
  assumes "codexReadQuota E n c = Inr obs \<or> antigravityReadQuota E n c = Inr obs"
  shows "ob_Windows obs \<noteq> [] \<and> (\<forall>w \<in> set (ob_Windows obs).
    qw_Provider w \<in> {''codex'', ''antigravity''} \<and> qw_AuthID w = cred_AuthID c \<and> qw_ObservedAt w = ae_now E n \<and>
    0 < qw_WindowDuration w \<and> (qw_Provider w = ''codex'' \<longrightarrow> qw_WindowDuration w \<le> maxInt64) \<and>
    (qw_LazyHint w \<longrightarrow> lazyEvidence w) \<and> (qw_Complete w \<longleftrightarrow> qw_UsedPercent w \<noteq> None) \<and>
    (codexCanActivate w \<and> qw_Provider w = ''codex'' \<longrightarrow> qw_ActivationGroup w = ''codex-main'') \<and>
    (antigravityCanActivate w \<longrightarrow> qw_ActivationGroup w \<noteq> ''''))"
  using assms
proof
  assume read: "codexReadQuota E n c = Inr obs"
  have "codexShape (cred_AuthID c) (ae_now E n) w" "qw_WindowDuration w \<le> maxInt64"
    if "w \<in> set (ob_Windows obs)" for w
    using codexReadQuota_shape [OF read that] read that
    by (auto simp: codexReadQuota_def intro: codexParse_duration [simplified] split: option.splits sum.splits if_splits)
  moreover have "ob_Windows obs \<noteq> []"
    using read by (auto simp: codexReadQuota_def codexParse_def Let_def split: option.splits sum.splits if_splits)
  ultimately show ?thesis
    by (auto simp: codexShape_def codexCanActivate_def antigravityCanActivate_def Let_def split: if_splits)
next
  assume read: "antigravityReadQuota E n c = Inr obs"
  have tries: "tryURLs E call n c token body urls err = Inr obs \<Longrightarrow> ob_Windows obs \<noteq> []" for call token body urls err
    by (induction urls arbitrary: err)
      (auto simp: antigravityParse_def Let_def split: sum.splits option.splits if_splits)
  have "antigravityShape (cred_AuthID c) (ae_now E n) w" if "w \<in> set (ob_Windows obs)" for w
    using antigravityReadQuota_shape [OF read that] .
  moreover have "ob_Windows obs \<noteq> []"
    using read by (auto simp: antigravityReadQuota_def split: option.splits sum.splits dest: tries)
  ultimately show ?thesis
    by (auto simp: antigravityShape_def codexCanActivate_def antigravityCanActivate_def Let_def split: if_splits)
qed

theorem readings_are_well_typed_witness: "qw_AuthID demoWin = cred_AuthID demoDocument"
  using readings_are_well_typed [OF disjI1, OF demo_read [of 0]] by simp

section \<open>The identity of a Codex credential\<close>

text \<open>
  C22: The identity of a Codex credential is a function of its account alone: whatever the tokens, the other
  fields and the orders in which the maps are ranged over, two documents with the one and same account ID have
  the same fingerprint, so the rotation of the tokens does not start new windows.
\<close>

theorem codex_identity_is_account:
  assumes "parseJSON (cred_RawJSON c) = Some doc" and "anyOrder (ae_order E n)"
    and "stringsAt ''account_id'' doc = {a}" and "a \<noteq> ''''"
    and "stringsAt ''access_token'' doc \<noteq> {}" and "'''' \<notin> stringsAt ''access_token'' doc"
  shows "codexFingerprint E n c = Inr (hexEncode (ae_sha256 E (''codex'' @ [nul] @ a)))"
  using extractCredentials_account [OF assms(1-4,6,5), of E] assms(4) by (auto simp: codexFingerprint_def)

theorem codex_identity_is_account_witness:
  "codexFingerprint (hostedEnv demoPlugin) 0 demoDocument = Inr (hexEncode (sha256Sum refLib (''codex'' @ [nul] @ ''a'')))"
proof -
  have "stringsAt ''account_id'' (JObj [(''access_token'', JStr ''t''), (''account_id'', JStr ''a'')]) = {''a''}"
    "stringsAt ''access_token'' (JObj [(''access_token'', JStr ''t''), (''account_id'', JStr ''a'')]) = {''t''}"
    by (auto simp: stringEntry_def)
  moreover have "anyOrder (\<lambda>k v. v)" by (simp add: anyOrder_def)
  ultimately show ?thesis
    using codex_identity_is_account [of demoDocument _ "hostedEnv demoPlugin" 0 "''a''"] demo_document
    by (simp add: demoDocument_def)
qed

text \<open>Two account IDs in nested objects, and two orders of the range over the outer one.\<close>

definition twoAccounts :: "json list" where
  "twoAccounts = [JObj [(''a'', JObj [(''account_id'', JStr ''x'')]), (''access_token'', JStr ''t''),
       (''b'', JObj [(''account_id'', JStr ''y'')])],
     JObj [(''b'', JObj [(''account_id'', JStr ''y'')]), (''access_token'', JStr ''t''),
       (''a'', JObj [(''account_id'', JStr ''x'')])]]"

definition swappedOrder :: mapOrder where
  "swappedOrder k v = (if v = twoAccounts ! 0 then twoAccounts ! 1 else v)"

lemma swappedOrder_any: "anyOrder swappedOrder" "anyOrder (\<lambda>k v. v)"
proof -
  have "reordered (twoAccounts ! 0) (twoAccounts ! 1)"
    unfolding twoAccounts_def nth_Cons_0 One_nat_def nth_Cons_Suc by (rule reordered_perm) auto
  then show "anyOrder swappedOrder" by (simp add: anyOrder_def swappedOrder_def)
qed (simp add: anyOrder_def)

text \<open>
  C23: With two account IDs in nested objects the identity depends on the order in which Go ranges over the maps: the same
  document has two fingerprints, so one and the same credential may change its identity from one tick to the
  next, retiring its windows and starting new ones.
\<close>

theorem codex_identity_may_flip:
  assumes "ae_sha256 E (''codex'' @ [nul] @ ''x'') \<noteq> ae_sha256 E (''codex'' @ [nul] @ ''y'')"
  shows "\<exists>ord ord' raw. anyOrder ord \<and> anyOrder ord' \<and>
    codexFingerprint (E\<lparr>ae_order := (\<lambda>_. ord)\<rparr>) n (c\<lparr>cred_RawJSON := raw\<rparr>) \<noteq>
    codexFingerprint (E\<lparr>ae_order := (\<lambda>_. ord')\<rparr>) n (c\<lparr>cred_RawJSON := raw\<rparr>)"
proof -
  let ?raw = "encodeJSON (\<lambda>_. []) (twoAccounts ! 0)"
  have doc: "parseJSON ?raw = Some (twoAccounts ! 0)" by code_simp
  have "codexDeepString (\<lambda>k v. v) (twoAccounts ! 0) ''account_id'' = ''x''"
    "codexDeepString swappedOrder (twoAccounts ! 0) ''account_id'' = ''y''"
    "codexDeepString (\<lambda>k v. v) (twoAccounts ! 0) ''access_token'' = ''t''"
    "codexDeepString swappedOrder (twoAccounts ! 0) ''access_token'' = ''t''"
    by (simp_all add: codexDeepString_def swappedOrder_def twoAccounts_def foundText_def stringEntry_def)
  then have "codexFingerprint (E\<lparr>ae_order := (\<lambda>_ k v. v)\<rparr>) n (c\<lparr>cred_RawJSON := ?raw\<rparr>) =
      Inr (hexEncode (ae_sha256 E (''codex'' @ [nul] @ ''x'')))"
    "codexFingerprint (E\<lparr>ae_order := (\<lambda>_. swappedOrder)\<rparr>) n (c\<lparr>cred_RawJSON := ?raw\<rparr>) =
      Inr (hexEncode (ae_sha256 E (''codex'' @ [nul] @ ''y'')))"
    using doc by (simp_all add: codexFingerprint_def extractCredentials_def Let_def)
  moreover have "hexEncode (ae_sha256 E (''codex'' @ [nul] @ ''x'')) \<noteq> hexEncode (ae_sha256 E (''codex'' @ [nul] @ ''y''))"
    using assms hexEncode_inject by blast
  ultimately show ?thesis
    using swappedOrder_any by (intro exI [of _ "\<lambda>k v. v"] exI [of _ swappedOrder] exI [of _ ?raw]) simp
qed

theorem codex_identity_may_flip_witness:
  "\<exists>ord ord' raw. anyOrder ord \<and> anyOrder ord' \<and>
     codexFingerprint (demoAdapterEnv\<lparr>ae_sha256 := id, ae_order := (\<lambda>_. ord)\<rparr>) 0 (demoCred\<lparr>cred_RawJSON := raw\<rparr>) \<noteq>
     codexFingerprint (demoAdapterEnv\<lparr>ae_sha256 := id, ae_order := (\<lambda>_. ord')\<rparr>) 0 (demoCred\<lparr>cred_RawJSON := raw\<rparr>)"
  using codex_identity_may_flip [of "demoAdapterEnv\<lparr>ae_sha256 := id\<rparr>" 0 demoCred] by simp

section \<open>Antigravity's plans\<close>

lemma requestIDs_Inr:
  assumes "requestIDs rand = Inr (rid, sid)" and "\<forall>b. rand 0 = Inr b \<longrightarrow> length b = 16"
  shows "length rid = 42 \<and> (\<exists>k. 1 \<le> k \<and> k \<le> 9000000000000000000 \<and> sid = ''-'' @ decimal k)"
proof -
  obtain b c where "rand 0 = Inr b" "sid = ''-'' @ decimal (unat (sessionNumber c))"
    "rid = ''agent-'' @ joinWith ''-'' (map hexEncode [take 4 b, take 2 (drop 4 b), take 2 (drop 6 b),
       take 2 (drop 8 b), take 6 (drop 10 b)])"
    using assms(1) by (auto simp: requestIDs_def Let_def split: sum.splits)
  then show ?thesis
    using assms(2) sessionNumber_bounds [of c] by (auto simp: length_hexEncode)
qed

definition groupPlan :: "adapterEnv \<Rightarrow> WindowRecord list \<Rightarrow> ActivationPlan \<Rightarrow> bool" where
  "groupPlan E rs plan \<longleftrightarrow> rs \<noteq> [] \<and> pl_Group plan \<in> {geminiGroup, thirdPartyGroup} \<and>
     (\<forall>r \<in> set rs. wr_ActivationGroup r = pl_Group plan \<and> activationGroup (qw_BucketID (wr_Latest r)) \<noteq> '''') \<and>
     pl_WindowKeys plan = map wr_Key rs \<and>
     (\<exists>project rid k. length rid = 42 \<and> 1 \<le> k \<and> k \<le> 9000000000000000000 \<and>
        rq_Body (pl_Request plan) = encodeJSON (ae_numberText E)
          (antigravityPayload (pl_TargetModel plan) project rid (''-'' @ decimal k)))"

text \<open>
  C24: Antigravity makes a plan only for records of one of its two groups, each with a window of that adapter; records of
  two groups, or none, are refused with an error. The body of the request is the payload for the model of that group, one
  output token, a request ID of 42 characters and a session number that fits in 63 bits.
\<close>

theorem antigravity_plan_stays_in_group:
  assumes "\<forall>b. ae_rand E n 0 = Inr b \<longrightarrow> length b = 16"
  shows "(\<forall>plan. antigravityPlan E n c rs = Inr plan \<longrightarrow> groupPlan E rs plan) \<and>
    ((\<exists>r \<in> set rs. \<exists>q \<in> set rs. wr_ActivationGroup r \<noteq> wr_ActivationGroup q) \<or> rs = [] \<longrightarrow>
      isl (antigravityPlan E n c rs))"
proof -
  have plan: "groupPlan E rs plan" if p: "antigravityPlan E n c rs = Inr plan" for plan
  proof -
    obtain doc token project rid sid where d: "requestIDs (ae_rand E n) = Inr (rid, sid)"
      "rs \<noteq> []" "pl_Group plan \<in> {geminiGroup, thirdPartyGroup}"
      "\<forall>r \<in> set rs. wr_ActivationGroup r = pl_Group plan \<and> antigravityCanActivate (wr_Latest r)"
      "plan = \<lparr>pl_Group = pl_Group plan,
        pl_Request = \<lparr>rq_Method = ''POST'', rq_URL = antigravityBaseURL (ae_order E n) c doc @ generatePath,
          rq_Headers = antigravityHeaders token,
          rq_Body = encodeJSON (ae_numberText E)
            (antigravityPayload (activationModel (pl_Group plan)) project rid sid)\<rparr>,
        pl_WindowKeys = map wr_Key rs, pl_TargetModel = activationModel (pl_Group plan),
        pl_MaxInput = 4, pl_MaxOutput = 1\<rparr>"
      using antigravityPlan_Inr [OF p] by auto
    obtain k where k: "length rid = 42" "1 \<le> k" "k \<le> 9000000000000000000" "sid = ''-'' @ decimal k"
      using requestIDs_Inr [OF d(1) assms] by blast
    have "pl_WindowKeys plan = map wr_Key rs" "pl_TargetModel plan = activationModel (pl_Group plan)"
      "rq_Body (pl_Request plan) = encodeJSON (ae_numberText E)
         (antigravityPayload (activationModel (pl_Group plan)) project rid sid)"
      by (subst d(5); simp)+
    with d(2-4) k show ?thesis by (auto simp: groupPlan_def antigravityCanActivate_def Let_def split: if_splits)
  qed
  then have "isl (antigravityPlan E n c rs)"
    if "(\<exists>r \<in> set rs. \<exists>q \<in> set rs. wr_ActivationGroup r \<noteq> wr_ActivationGroup q) \<or> rs = []"
    using that by (cases "antigravityPlan E n c rs") (auto simp: groupPlan_def)
  with plan show ?thesis by blast
qed

definition demoMixed :: "WindowRecord list" where
  "demoMixed = [zeroWindowRecord\<lparr>wr_ActivationGroup := geminiGroup\<rparr>,
     zeroWindowRecord\<lparr>wr_ActivationGroup := thirdPartyGroup\<rparr>]"

theorem antigravity_plan_stays_in_group_witness:
  "isl (antigravityPlan (demoAdapterEnv\<lparr>ae_rand := (\<lambda>_ _. Inr (replicate 16 nul))\<rparr>) 0 demoCred demoMixed)"
proof -
  have "\<exists>r \<in> set demoMixed. \<exists>q \<in> set demoMixed. wr_ActivationGroup r \<noteq> wr_ActivationGroup q"
    by (auto simp: demoMixed_def groups_distinct)
  then show ?thesis
    using antigravity_plan_stays_in_group [of "demoAdapterEnv\<lparr>ae_rand := (\<lambda>_ _. Inr (replicate 16 nul))\<rparr>" 0 demoCred demoMixed]
    by simp
qed

section \<open>Numbers\<close>

text \<open>
  C35: The distance the controller compares with its tolerance is exact, except for a reset at least two to the 63
  nanoseconds (about 292 years) before the baseline's: subtraction saturates there, its negation wraps around to
  a negative duration, and the window counts as unmoved.
\<close>

theorem unmoved_is_distance:
  assumes "0 \<le> cfg_ClockSkewTolerance cfg" and "cfg_ClockSkewTolerance cfg < maxInt64"
  shows "unmoved cfg w r \<longleftrightarrow>
    \<bar>qw_ResetAt w - bl_ResetAt (wr_Baseline r)\<bar> \<le> cfg_ClockSkewTolerance cfg \<or>
    2 ^ 63 \<le> bl_ResetAt (wr_Baseline r) - qw_ResetAt w"
proof -
  let ?d = "qw_ResetAt w - bl_ResetAt (wr_Baseline r)"
  consider "?d \<le> minInt64" | "minInt64 < ?d" "?d < 0" | "0 \<le> ?d" by linarith
  then show ?thesis
  proof cases
    case 1
    then have "subTime (qw_ResetAt w) (bl_ResetAt (wr_Baseline r)) = minInt64" by (simp add: subTime_def)
    moreover have "wrap64 (- minInt64) = minInt64" by (simp add: wrap64_def)
    ultimately show ?thesis using 1 assms by (simp add: unmoved_def absDuration_def)
  next
    case 2
    then have "subTime (qw_ResetAt w) (bl_ResetAt (wr_Baseline r)) = ?d" by (simp add: subTime_def)
    moreover have "wrap64 (- ?d) = - ?d" using 2 by (intro wrap64_id) simp_all
    ultimately show ?thesis using 2 assms by (auto simp: unmoved_def absDuration_def)
  next
    case 3
    then show ?thesis using assms by (auto simp: unmoved_def absDuration_def subTime_def min_def)
  qed
qed

theorem unmoved_is_distance_witness:
  "unmoved defaultConfig (demoWindow 0) (demoActivated\<lparr>wr_Baseline := zeroBaseline\<lparr>bl_ResetAt := 2 ^ 63\<rparr>\<rparr>)"
  by (subst unmoved_is_distance) (simp_all add: defaultConfig_def duration_units demoWindow_def)

end
