(* ===== verification/ObserveProps.thy ===== *)
theory ObserveProps
  imports ObserveAdapters PluginDemo
begin

text \<open>What the four observing adapters promise.\<close>

definition observers :: "adapterEnv \<Rightarrow> httpDo \<Rightarrow> Adapter list" where
  "observers E call = [claudeAdapter E call, geminiAdapter E call, kimiAdapter E call, xaiAdapter E call]"

definition observedShape :: "string \<Rightarrow> string \<Rightarrow> time \<Rightarrow> QuotaWindow \<Rightarrow> bool" where
  "observedShape provider authID now w \<longleftrightarrow> qw_Provider w = provider \<and> qw_AuthID w = authID \<and> qw_ObservedAt w = now \<and>
     0 < qw_WindowDuration w \<and> qw_BucketID w \<noteq> '''' \<and> qw_UsedPercent w \<noteq> None \<and> qw_Complete w \<and>
     \<not> qw_LazyHint w \<and> qw_ActivationGroup w = ''''"

lemma observed_shape [simp]:
  "observedShape p a now (observedWindow p a b f s u r d now) \<longleftrightarrow> 0 < d \<and> b \<noteq> ''''"
  by (simp add: observedShape_def observedWindow_def)

lemma fetchQuota_shape:
  assumes "fetchQuota E call label parse n c req = Inr obs"
    and "\<And>raw a now obs. parse raw a now = Inr obs \<Longrightarrow>
      ob_Windows obs \<noteq> [] \<and> (\<forall>w \<in> set (ob_Windows obs). observedShape p a now w)"
  shows "ob_Windows obs \<noteq> [] \<and> (\<forall>w \<in> set (ob_Windows obs). observedShape p (cred_AuthID c) (ae_now E n) w)"
  using assms by (auto simp: fetchQuota_def split: sum.splits if_splits)

lemma observedOr_Inr: "observedOr m out = Inr obs \<longleftrightarrow> out \<noteq> [] \<and> obs = \<lparr>ob_Windows = out\<rparr>"
  by (auto simp: observedOr_def)

lemmas reading = objectOf.simps sliceOf.simps stringOf.simps numberOf.simps timeOf.simps

lemma claudeWindow_shape:
  assumes "claudeWindow doc a now key = Some w" and "key \<in> set claudeKeys"
  shows "observedShape ''claude'' a now w"
proof -
  have "key \<noteq> ''''" using assms(2) by (auto simp: claudeKeys_def)
  with assms(1) show ?thesis
    by (auto simp: claudeWindow_def Let_def duration_units simp del: reading split: option.split_asm)
qed

lemma claudeParse_shape:
  "claudeParse E raw a now = Inr obs \<Longrightarrow>
     ob_Windows obs \<noteq> [] \<and> (\<forall>w \<in> set (ob_Windows obs). observedShape ''claude'' a now w)"
  by (auto simp: claudeParse_def observedOr_Inr in_map_filter split: sum.split_asm dest: claudeWindow_shape)

lemma geminiBucket_shape:
  assumes "geminiBucket a now x = Some w"
  shows "observedShape ''gemini-cli'' a now w"
  using assms
  by (auto simp: geminiBucket_def Let_def duration_units simp del: reading split: json.split_asm option.split_asm if_split_asm prod.split_asm)

lemma geminiParse_shape:
  "geminiParse E raw a now = Inr obs \<Longrightarrow>
     ob_Windows obs \<noteq> [] \<and> (\<forall>w \<in> set (ob_Windows obs). observedShape ''gemini-cli'' a now w)"
  by (auto simp: geminiParse_def observedOr_Inr in_map_filter  simp del: reading
      split: sum.split_asm option.split_asm dest: geminiBucket_shape)

lemma kimiLimit_shape:
  assumes "kimiLimit arch a now x = Some w"
  shows "observedShape ''kimi'' a now w"
  using assms
  by (auto simp: kimiLimit_def Let_def duration_units simp del: reading split: json.split_asm option.split_asm if_split_asm prod.split_asm)

lemma kimiParse_shape:
  "kimiParse E raw a now = Inr obs \<Longrightarrow>
     ob_Windows obs \<noteq> [] \<and> (\<forall>w \<in> set (ob_Windows obs). observedShape ''kimi'' a now w)"
  by (auto simp: kimiParse_def observedOr_Inr in_map_filter  simp del: reading
      split: sum.split_asm option.split_asm dest: kimiLimit_shape)

lemma xaiPeriod_shape:
  assumes "xaiPeriod a now x = Some w"
  shows "observedShape ''xai'' a now w"
  using assms
  by (auto simp: xaiPeriod_def Let_def duration_units simp del: reading split: json.split_asm option.split_asm if_split_asm prod.split_asm)

lemma xaiParse_shape:
  "xaiParse E raw a now = Inr obs \<Longrightarrow>
     ob_Windows obs \<noteq> [] \<and> (\<forall>w \<in> set (ob_Windows obs). observedShape ''xai'' a now w)"
  by (auto simp: xaiParse_def observedOr_Inr in_map_filter Let_def simp del: reading
      split: sum.split_asm option.split_asm dest: xaiPeriod_shape)

text \<open>
  C25: The adapters for Claude, Gemini CLI, Kimi and xAI can never take part in an activation: they have no activation
  operations, and each window they read is complete, has a bucket and a positive duration, and shows no lazy
  reset and no group. A successful reading is never empty.
\<close>

theorem observers_never_activate:
  assumes "ad \<in> set (observers E call)"
  shows "ad_Activation ad = None \<and>
    (\<forall>n c obs. ad_ReadQuota ad n c = Inr obs \<longrightarrow> ob_Windows obs \<noteq> [] \<and>
       (\<forall>w \<in> set (ob_Windows obs). observedShape (ad_ID ad) (cred_AuthID c) (ae_now E n) w))"
proof -
  have "ob_Windows obs \<noteq> [] \<and> (\<forall>w \<in> set (ob_Windows obs). observedShape ''claude'' (cred_AuthID c) (ae_now E n) w)"
    if "claudeReadQuota E call n c = Inr obs" for n c obs
    using that unfolding claudeReadQuota_def Let_def
    by (auto simp del: deepStringOf.simps split: sum.splits if_splits dest!: fetchQuota_shape [OF _ claudeParse_shape])
  moreover have "ob_Windows obs \<noteq> [] \<and> (\<forall>w \<in> set (ob_Windows obs). observedShape ''gemini-cli'' (cred_AuthID c) (ae_now E n) w)"
    if "geminiReadQuota E call n c = Inr obs" for n c obs
    using that unfolding geminiReadQuota_def Let_def
    by (auto simp del: deepStringOf.simps split: sum.splits if_splits dest!: fetchQuota_shape [OF _ geminiParse_shape])
  moreover have "ob_Windows obs \<noteq> [] \<and> (\<forall>w \<in> set (ob_Windows obs). observedShape ''kimi'' (cred_AuthID c) (ae_now E n) w)"
    if "kimiReadQuota E call n c = Inr obs" for n c obs
    using that unfolding kimiReadQuota_def Let_def
    by (auto simp del: deepStringOf.simps split: sum.splits if_splits dest!: fetchQuota_shape [OF _ kimiParse_shape])
  moreover have "ob_Windows obs \<noteq> [] \<and> (\<forall>w \<in> set (ob_Windows obs). observedShape ''xai'' (cred_AuthID c) (ae_now E n) w)"
    if "xaiReadQuota E call n c = Inr obs" for n c obs
    using that unfolding xaiReadQuota_def Let_def
    by (auto simp del: deepStringOf.simps split: sum.splits if_splits dest!: fetchQuota_shape [OF _ xaiParse_shape])
  ultimately show ?thesis
    using assms
    by (auto simp: observers_def claudeAdapter_def geminiAdapter_def kimiAdapter_def xaiAdapter_def)
qed

theorem observers_never_activate_witness: "ad_Activation (kimiAdapter demoAdapterEnv (hostHTTP demoHost)) = None"
  using observers_never_activate [of "kimiAdapter demoAdapterEnv (hostHTTP demoHost)" demoAdapterEnv "hostHTTP demoHost"]
  by (simp add: observers_def)

end
