(* ===== verification/TimeProps.thy ===== *)
theory TimeProps
  imports PluginConfig ReferenceCodec
begin

text \<open>
  Times and durations as text: a formatted time is read back, so the identifier of a cycle determines its reset time;
  and a duration that is read fits in 64 bits.
\<close>

section \<open>Digits\<close>

lemma hexDigit_decimal:
  assumes "n < 10"
  shows "isDigit (hexDigit n) \<and> digitVal (hexDigit n) = int n"
proof -
  have "\<forall>n \<in> {0, 1, 2, 3, 4, 5, 6, 7, 8, 9}. isDigit (hexDigit n) \<and> digitVal (hexDigit n) = int n" by code_simp
  moreover have "n \<in> {0, 1, 2, 3, 4, 5, 6, 7, 8, 9}" using assms by auto
  ultimately show ?thesis by blast
qed

lemma natOf_append: "natOf (s @ [c]) = natOf s * 10 + digitVal c"
  by (simp add: natOf_def)

lemma length_digitsOf [simp]: "length (digitsOf w n) = w"
  by (induction w arbitrary: n) simp_all

lemma digitsOf_digits: "list_all isDigit (digitsOf w n)"
  by (induction w arbitrary: n) (simp_all add: hexDigit_decimal)

lemma natOf_digitsOf: "natOf (digitsOf w n) = int (n mod 10 ^ w)"
proof (induction w arbitrary: n)
  case (Suc w)
  have "n mod (10 * 10 ^ w) = 10 * (n div 10 mod 10 ^ w) + n mod 10" by (rule mod_mult2_eq)
  then show ?case
    using Suc [of "n div 10"] hexDigit_decimal [of "n mod 10"] by (simp add: natOf_append)
qed (simp add: natOf_def)

lemma fixedDigits_digitsOf: "fixedDigits w (digitsOf w n @ r) = Some (int (n mod 10 ^ w), r)"
  by (simp add: fixedDigits_def digitsOf_digits natOf_digitsOf)

lemma appendInt_digits:
  assumes "0 \<le> x" and "x < 10 ^ w"
  shows "appendInt x w = digitsOf w (nat x)"
proof -
  have "nat x < 10 ^ w" using assms by (simp add: nat_less_iff)
  with assms(1) show ?thesis by (simp add: appendInt_def padTo_def)
qed

lemma fixedDigits_appendInt:
  assumes "0 \<le> x" and "x < 10 ^ w"
  shows "fixedDigits w (appendInt x w @ r) = Some (x, r)"
proof -
  have "nat x mod 10 ^ w = nat x" using assms by (simp add: nat_less_iff)
  with assms show ?thesis by (simp add: appendInt_digits fixedDigits_digitsOf)
qed

section \<open>The fraction\<close>

lemma natOf_zeros: "natOf (s @ replicate k CHR ''0'') = natOf s * 10 ^ k"
proof (induction k)
  case (Suc k)
  have "digitVal CHR ''0'' = 0" by code_simp
  moreover have "s @ replicate (Suc k) CHR ''0'' = (s @ replicate k CHR ''0'') @ [CHR ''0'']"
    by (simp add: replicate_append_same)
  ultimately show ?case using Suc natOf_append [of "s @ replicate k CHR ''0''" "CHR ''0''"] by simp
qed simp

lemma strip_zeros: "\<exists>k. s = rev (dropWhile (\<lambda>c. c = CHR ''0'') (rev s)) @ replicate k CHR ''0''"
proof -
  have "takeWhile (\<lambda>c. c = CHR ''0'') (rev s) = replicate (length (takeWhile (\<lambda>c. c = CHR ''0'') (rev s))) CHR ''0''"
    by (rule replicate_eqI) (auto dest: set_takeWhileD)
  moreover have "s = rev (dropWhile (\<lambda>c. c = CHR ''0'') (rev s)) @ rev (takeWhile (\<lambda>c. c = CHR ''0'') (rev s))"
    by (metis rev_append rev_rev_ident takeWhile_dropWhile_id)
  ultimately show ?thesis by (metis rev_replicate)
qed

lemma not_digit: "\<not> isDigit CHR ''Z''"
  by code_simp

lemma fraction_suffix:
  assumes "0 \<le> ns" and "ns < 10 ^ 9"
  shows "fraction (nanoSuffix ns @ ''Z'') = (ns, ''Z'')"
proof -
  define ds where "ds = rev (dropWhile (\<lambda>c. c = CHR ''0'') (rev (digitsOf 9 (nat ns))))"
  obtain k where k: "digitsOf 9 (nat ns) = ds @ replicate k CHR ''0''"
    using strip_zeros [of "digitsOf 9 (nat ns)"] unfolding ds_def by blast
  have len: "length ds + k = 9" using arg_cong [OF k, of length] by simp
  have "nat ns mod 10 ^ 9 = nat ns" using assms by (simp add: nat_less_iff)
  then have val: "natOf ds * 10 ^ k = ns"
    using natOf_digitsOf [of 9 "nat ns"] assms(1) natOf_zeros [of ds k] unfolding k by simp
  have dig: "list_all isDigit ds" using digitsOf_digits [of 9 "nat ns"] unfolding k by simp
  have suf: "nanoSuffix ns = (if ds = [] then [] else CHR ''.'' # ds)"
    by (simp only: nanoSuffix_def Let_def ds_def)
  show ?thesis
  proof (cases ds)
    case Nil
    then have "nanoSuffix ns = []" by (simp add: suf)
    moreover have "ns = 0" using val Nil by (simp add: natOf_def)
    ultimately show ?thesis by (simp add: fraction_def)
  next
    case (Cons d r)
    have tw: "takeWhile isDigit (ds @ ''Z'') = ds" "dropWhile isDigit (ds @ ''Z'') = ''Z''"
      using dig not_digit by (simp_all add: list_all_iff takeWhile_append dropWhile_append)
    have "take 9 ds = ds" "9 - length ds = k" using len by simp_all
    moreover have "isDigit d" using dig Cons by simp
    ultimately have "fraction (CHR ''.'' # ds @ ''Z'') = (natOf ds * 10 ^ k, ''Z'')"
      using tw unfolding Cons by (simp add: fraction_def Let_def)
    with Cons val show ?thesis by (simp add: suf)
  qed
qed

section \<open>The calendar\<close>

lemma monthDay_inverse:
  "0 \<le> d \<Longrightarrow> d < sum_list ls \<Longrightarrow> monthDay ls m d = (m', d') \<Longrightarrow>
     m \<le> m' \<and> nat (m' - m) < length ls \<and> sum_list (take (nat (m' - m)) ls) + d' - 1 = d \<and>
     1 \<le> d' \<and> d' \<le> ls ! nat (m' - m)"
proof (induction ls arbitrary: m d)
  case (Cons l ls)
  show ?case
  proof (cases "d < l")
    case True
    with Cons.prems show ?thesis by auto
  next
    case False
    with Cons.prems Cons.IH [of "d - l" "m + 1"]
    have *: "m + 1 \<le> m'" "nat (m' - (m + 1)) < length ls" "sum_list (take (nat (m' - (m + 1))) ls) + d' - 1 = d - l"
      "1 \<le> d'" "d' \<le> ls ! nat (m' - (m + 1))"
      by auto
    have "nat (m' - m) = Suc (nat (m' - (m + 1)))" using *(1) by linarith
    with * show ?thesis by simp
  qed
qed simp

lemma civil_inverse:
  assumes "0 \<le> days" and "civilDate days = (y, m, d)"
  shows "daysFromCivil y m d = days \<and> 1 \<le> y \<and> 1 \<le> m \<and> m \<le> 12 \<and> 1 \<le> d \<and> d \<le> daysIn y m \<and> 365 * (y - 1) \<le> days"
proof -
  define c4 r where "c4 = days div 146097" and "r = days mod 146097"
  define c1 where "c1 = min (r div 36524) 3"
  define r1 where "r1 = r - c1 * 36524"
  define y4 r2 where "y4 = r1 div 1461" and "r2 = r1 mod 1461"
  define y1 where "y1 = min (r2 div 365) 3"
  define doy where "doy = r2 - y1 * 365"
  have days: "days = 146097 * c4 + r" "0 \<le> c4" "0 \<le> r" "r < 146097"
    using assms(1) by (simp_all add: c4_def r_def pos_imp_zdiv_nonneg_iff)
  have c1: "0 \<le> c1" "c1 \<le> 3" "0 \<le> r1" "r1 \<le> 36524" "c1 < 3 \<longrightarrow> r1 < 36524"
    using days(3,4) unfolding c1_def r1_def min_def by (auto simp: pos_imp_zdiv_nonneg_iff; linarith)+
  have r1: "r1 = 1461 * y4 + r2" "0 \<le> y4" "0 \<le> r2" "r2 < 1461"
    using c1(3) by (simp_all add: y4_def r2_def pos_imp_zdiv_nonneg_iff)
  have y4: "y4 \<le> 24" "c1 < 3 \<longrightarrow> y4 = 24 \<longrightarrow> r2 < 1460" using r1 c1 by linarith+
  have y1: "0 \<le> y1" "y1 \<le> 3" "0 \<le> doy" "doy \<le> 365" "y1 < 3 \<longrightarrow> doy < 365" "doy = 365 \<longrightarrow> r2 = 1460"
    using r1(3,4) unfolding y1_def doy_def min_def by (auto simp: pos_imp_zdiv_nonneg_iff; linarith)+
  define Y where "Y = 400 * c4 + 100 * c1 + 4 * y4 + y1"
  have div: "Y div 4 = 100 * c4 + 25 * c1 + y4" "Y div 100 = 4 * c4 + c1" "Y div 400 = c4"
    using c1 y4 y1 r1(2) unfolding Y_def by (intro int_div_pos_eq [where r = "y1"] int_div_pos_eq [where r = "4 * y4 + y1"]
      int_div_pos_eq [where r = "100 * c1 + 4 * y4 + y1"]; simp)+
  have before: "daysBeforeYear (Y + 1) + doy = days"
    using days(1) r1(1) div by (simp add: daysBeforeYear_def Y_def doy_def r1_def)
  have mods: "(Y + 1) mod 4 = (y1 + 1) mod 4" "(Y + 1) mod 100 = (4 * y4 + y1 + 1) mod 100"
    "(Y + 1) mod 400 = (100 * c1 + 4 * y4 + y1 + 1) mod 400"
  proof -
    have "Y + 1 = y1 + 1 + 4 * (100 * c4 + 25 * c1 + y4)" "Y + 1 = 4 * y4 + y1 + 1 + 100 * (4 * c4 + c1)"
      "Y + 1 = 100 * c1 + 4 * y4 + y1 + 1 + 400 * c4"
      by (simp_all add: Y_def)
    then show "(Y + 1) mod 4 = (y1 + 1) mod 4" "(Y + 1) mod 100 = (4 * y4 + y1 + 1) mod 100"
      "(Y + 1) mod 400 = (100 * c1 + 4 * y4 + y1 + 1) mod 400"
      by (metis mod_mult_self2)+
  qed
  have leap: "isLeap (Y + 1)" if "doy = 365"
  proof -
    have y: "y1 = 3" "r2 = 1460" using that y1 by auto
    then have c: "y4 \<noteq> 24 \<or> c1 = 3" using y4(2) c1(2) by linarith
    show ?thesis
    proof (cases "y4 = 24")
      case True
      with c y show ?thesis unfolding isLeap_def mods by simp
    next
      case False
      then have "(4 * y4 + 3 + 1) mod 100 = 4 * y4 + 3 + 1" using y4(1) r1(2) by (intro mod_pos_pos_trivial) auto
      then show ?thesis unfolding isLeap_def mods using y r1(2) by simp
    qed
  qed
  have sum: "sum_list (monthLengths leap) = (if leap then 366 else 365)" "length (monthLengths leap) = 12" for leap
    by (simp_all add: monthLengths_def)
  have lt: "doy < sum_list (monthLengths (isLeap (Y + 1)))"
    using y1(4) leap by (cases "doy = 365") (auto simp: sum)
  have eq: "monthDay (monthLengths (isLeap (Y + 1))) 1 doy = (m, d)" "y = Y + 1"
  proof -
    have "civilDate days = (case monthDay (monthLengths (isLeap (Y + 1))) 1 doy of (m, d) \<Rightarrow> (Y + 1, m, d))"
      unfolding civilDate_def Let_def Y_def doy_def y1_def y4_def r2_def r1_def c1_def c4_def r_def ..
    with assms(2) show "monthDay (monthLengths (isLeap (Y + 1))) 1 doy = (m, d)" "y = Y + 1"
      by (auto split: prod.splits)
  qed
  from monthDay_inverse [OF y1(3) lt eq(1)]
  have "1 \<le> m" "nat (m - 1) < 12" "sum_list (take (nat (m - 1)) (monthLengths (isLeap (Y + 1)))) + d - 1 = doy"
    "1 \<le> d" "d \<le> daysIn y m"
    by (simp_all add: sum daysIn_def eq(2))
  moreover have "0 \<le> Y" using days(2) c1(1) r1(2) y1(1) by (simp add: Y_def)
  moreover have "365 * Y \<le> days" using before y1(3) div days(2) c1(1) r1(2) by (simp add: daysBeforeYear_def)
  ultimately show ?thesis using before eq(2) by (simp add: daysFromCivil_def)
qed

section \<open>Times\<close>

lemma skipText_append [simp]: "skipText p (p @ s) = Some s"
  by (simp add: skipText_def)

lemma skipText_Cons [simp]: "skipText [c] (c # s) = Some s"
  by (simp add: skipText_def)

lemma inRange_Some [simp]: "lo \<le> n \<Longrightarrow> n \<le> hi \<Longrightarrow> inRange lo hi n = Some ()"
  by (simp add: inRange_def)

lemma daysBefore_10000:
  assumes "10000 \<le> y"
  shows "3652059 \<le> daysBeforeYear y"
proof -
  define u where "u = y - 1"
  define q where "q = u div 4"
  have u: "9999 \<le> u" using assms by (simp add: u_def)
  have "9999 div 4 \<le> u div 4" "9999 div 400 \<le> u div 400" using u by (intro zdiv_mono1; simp)+
  then have q: "2499 \<le> q" "24 \<le> u div 400" by (simp_all add: q_def)
  have "u div 100 = q div 25" unfolding q_def using zdiv_zmult2_eq [of 25 u 4] by simp
  moreover have "2400 \<le> q - q div 25"
  proof (cases "q = 2499")
    case False
    moreover have "25 * (q div 25) \<le> q" by simp
    ultimately show ?thesis using q(1) by linarith
  qed simp
  ultimately show ?thesis using u q by (simp add: daysBeforeYear_def flip: u_def q_def)
qed

lemma daysIn_bound: "1 \<le> m \<Longrightarrow> m \<le> 12 \<Longrightarrow> daysIn y m \<le> 31"
proof -
  assume "1 \<le> m" "m \<le> 12"
  then have "monthLengths (isLeap y) ! nat (m - 1) \<in> set (monthLengths (isLeap y))"
    by (intro nth_mem) (simp add: monthLengths_def)
  then show ?thesis by (auto simp: daysIn_def monthLengths_def split: if_splits)
qed

lemma monthDays_nonneg: "0 \<le> sum_list (take k (monthLengths leap))"
  by (rule sum_list_nonneg) (auto simp: monthLengths_def dest!: in_set_takeD split: if_splits)

definition maxTime :: time where
  "maxTime = 3652059 * 86400 * 1000000000"

lemma format_read_back:
  assumes "0 \<le> t" and "t < maxTime"
  shows "parseRFC3339 (formatRFC3339Nano t) = Some t"
proof -
  define secs ns where "secs = t div 1000000000" and "ns = t mod 1000000000"
  define days s where "days = secs div 86400" and "s = secs mod 86400"
  obtain y m d where c: "civilDate days = (y, m, d)" by (cases "civilDate days")
  have t: "t = secs * 1000000000 + ns" "0 \<le> ns" "ns < 10 ^ 9" "0 \<le> secs"
    using assms(1) by (simp_all add: secs_def ns_def pos_imp_zdiv_nonneg_iff)
  have s: "secs = days * 86400 + s" "0 \<le> s" "s < 86400" "0 \<le> days"
    using t(4) by (simp_all add: days_def s_def pos_imp_zdiv_nonneg_iff)
  have days: "days < 3652059" using assms(2) t s by (simp add: maxTime_def)
  note civil = civil_inverse [OF s(4) c]
  have y: "y < 10 ^ 4"
    using civil daysBefore_10000 [of y] days monthDays_nonneg [of "nat (m - 1)" "isLeap y"] by (force simp: daysFromCivil_def)
  have bounds: "0 \<le> y" "0 \<le> m" "m < 10 ^ 2" "0 \<le> d" "d < 10 ^ 2"
    using civil daysIn_bound [of m y] by auto
  define h mi se where "h = s div 3600" and "mi = s mod 3600 div 60" and "se = s mod 60"
  have clock: "0 \<le> h" "h \<le> 23" "0 \<le> mi" "mi \<le> 59" "0 \<le> se" "se \<le> 59"
    using s(2,3) unfolding h_def mi_def se_def by (simp_all add: pos_imp_zdiv_nonneg_iff)
  have "s mod 60 = s mod 3600 mod 60" by (simp add: mod_mod_cancel)
  then have "h * 3600 + mi * 60 + se = s"
    using div_mult_mod_eq [of s 3600] div_mult_mod_eq [of "s mod 3600" 60] unfolding h_def mi_def se_def by linarith
  then have instant: "instantOf y m d h mi se ns = t"
    using civil t(1) s(1) by (simp add: instantOf_def add.assoc)
  have zone: "zoneOffset ''Z'' = Some (0, [])" by (simp add: zoneOffset_def)
  have fmt: "formatRFC3339Nano t = appendInt y 4 @ ''-'' @ appendInt m 2 @ ''-'' @ appendInt d 2 @ ''T''
           @ appendInt h 2 @ '':'' @ appendInt mi 2 @ '':'' @ appendInt se 2 @ nanoSuffix ns @ ''Z''"
    unfolding formatRFC3339Nano_def Let_def secs_def [symmetric] ns_def [symmetric]
      days_def [symmetric] s_def [symmetric] c prod.case h_def mi_def se_def ..
  have fd: "fixedDigits w (appendInt x w @ r) = Some (x, r)" if "0 \<le> x" "x < 10 ^ w" for x w r
    using fixedDigits_appendInt that .
  have "fixedDigits 4 (appendInt y 4 @ r) = Some (y, r)" "fixedDigits 2 (appendInt m 2 @ r) = Some (m, r)"
    "fixedDigits 2 (appendInt d 2 @ r) = Some (d, r)" "fixedDigits 2 (appendInt h 2 @ r) = Some (h, r)"
    "fixedDigits 2 (appendInt mi 2 @ r) = Some (mi, r)" "fixedDigits 2 (appendInt se 2 @ r) = Some (se, r)" for r
    using y bounds clock by (simp_all add: fd)
  moreover have "inRange 1 12 m = Some ()" "inRange 0 23 h = Some ()" "inRange 0 59 mi = Some ()" "inRange 0 59 se = Some ()"
    "inRange 1 (daysIn y m) d = Some ()"
    using clock civil by simp_all
  ultimately show ?thesis
    unfolding fmt parseRFC3339_def
    by (simp add: oneOrTwoDigits_def fraction_suffix [OF t(2,3)] zone instant del: inRange_Some)
qed



section \<open>The identifier of a cycle\<close>

lemma hexDigit_not_nul: "hexDigit n \<noteq> nul"
proof -
  have "list_all (\<lambda>c. c \<noteq> nul) ''0123456789abcdef''" by code_simp
  then show ?thesis unfolding hexDigit_def by (simp add: list_all_length)
qed

lemma digits_not_nul: "nul \<notin> set (digitsOf w n)" "nul \<notin> set (decimal n)"
proof -
  show "nul \<notin> set (digitsOf w n)"
    using hexDigit_not_nul by (induction w arbitrary: n) (auto simp: eq_commute)
  show "nul \<notin> set (decimal n)"
    using hexDigit_not_nul by (induction n rule: decimal.induct) (subst decimal.simps, auto simp: eq_commute)
qed

lemma nanoSuffix_not_nul: "nul \<notin> set (nanoSuffix ns)"
proof -
  have "set (rev (dropWhile (\<lambda>c. c = CHR ''0'') (rev (digitsOf 9 (nat ns))))) \<subseteq> set (digitsOf 9 (nat ns))"
    by (auto dest: set_dropWhileD)
  moreover have "nul \<noteq> CHR ''.''" by code_simp
  ultimately show ?thesis using digits_not_nul(1) by (auto simp: nanoSuffix_def Let_def)
qed

lemma format_not_nul: "nul \<notin> set (formatRFC3339Nano t)"
proof -
  have "nul \<notin> set (appendInt x w)" for x w
    using digits_not_nul by (auto simp: appendInt_def padTo_def nul_def)
  moreover have "nul \<notin> set ''-T:Z''" by code_simp
  ultimately show ?thesis
    using nanoSuffix_not_nul by (auto simp: formatRFC3339Nano_def Let_def split: prod.splits)
qed

lemma append_nul_eq:
  assumes "nul \<notin> set f" and "nul \<notin> set g"
  shows "b @ nul # f = c @ nul # g \<longleftrightarrow> b = c \<and> f = g"
proof
  assume "b @ nul # f = c @ nul # g"
  then have "rev f @ nul # rev b = rev g @ nul # rev c" by (metis append_Cons append_Nil append_assoc rev.simps(2) rev_append)
  moreover have "takeWhile (\<lambda>x. x \<noteq> nul) (rev h @ nul # r) = rev h" if "nul \<notin> set h" for h r
    using that by (auto simp: takeWhile_append)
  ultimately have "rev f = rev g" using assms by metis
  with \<open>b @ nul # f = c @ nul # g\<close> show "b = c \<and> f = g" by simp
qed simp

lemma cyclePreimage_inject:
  assumes "0 \<le> t" "t < maxTime" "0 \<le> u" "u < maxTime" and "nul \<notin> set b" "nul \<notin> set c"
  shows "cyclePreimage ik b t = cyclePreimage jk c u \<longleftrightarrow> ik = jk \<and> b = c \<and> t = u"
proof
  assume "cyclePreimage ik b t = cyclePreimage jk c u"
  then have "(ik @ nul # b) @ nul # formatRFC3339Nano t = (jk @ nul # c) @ nul # formatRFC3339Nano u"
    by (simp add: cyclePreimage_def)
  then have "ik = jk \<and> b = c \<and> formatRFC3339Nano t = formatRFC3339Nano u"
    unfolding append_nul_eq [OF format_not_nul format_not_nul] append_nul_eq [OF assms(5,6)] by blast
  moreover have "parseRFC3339 (formatRFC3339Nano t) = Some t" "parseRFC3339 (formatRFC3339Nano u) = Some u"
    using assms(1-4) by (simp_all add: format_read_back)
  ultimately show "ik = jk \<and> b = c \<and> t = u" by (metis option.inject)
qed simp

text \<open>
  C19: Two cycle identifiers are equal only for the same instance, bucket and reset time, as long as SHA-256 does not collide
  on the first 16 bytes for the two texts it hashes and no bucket holds a zero byte. So the ledger's entry for one
  cycle never blocks, or lets through, another.
\<close>

theorem cycle_id_identifies_cycle:
  assumes "0 \<le> t" "t < maxTime" "0 \<le> u" "u < maxTime" and "nul \<notin> set b" "nul \<notin> set c"
    and "take 16 (sha256Sum L (cyclePreimage ik b t)) = take 16 (sha256Sum L (cyclePreimage jk c u)) \<longrightarrow>
      cyclePreimage ik b t = cyclePreimage jk c u"
  shows "newCycleID L ik b t = newCycleID L jk c u \<longleftrightarrow> ik = jk \<and> b = c \<and> t = u"
proof -
  have "newCycleID L ik b t = newCycleID L jk c u \<longleftrightarrow> cyclePreimage ik b t = cyclePreimage jk c u"
    using assms(7) unfolding newCycleID_def hexEncode_inject by metis
  then show ?thesis unfolding cyclePreimage_inject [OF assms(1-6)] .
qed

text \<open>The two resets of one bucket, a window apart.\<close>

theorem cycle_id_identifies_cycle_witness:
  "newCycleID refLib ''ik'' ''5h'' (unixTime 20000) \<noteq> newCycleID refLib ''ik'' ''5h'' (unixTime 38000)"
proof -
  have "take 16 (sha256Sum refLib (cyclePreimage ''ik'' ''5h'' (unixTime 20000))) \<noteq>
      take 16 (sha256Sum refLib (cyclePreimage ''ik'' ''5h'' (unixTime 38000)))"
    by code_simp
  then show ?thesis
    using cycle_id_identifies_cycle [of "unixTime 20000" "unixTime 38000" "''5h''" "''5h''" refLib "''ik''" "''ik''"]
    by (simp add: unixTime_def maxTime_def nul_def)
qed

section \<open>Durations\<close>

lemma leadingInt_nonneg: "leadingInt x s = Some v \<Longrightarrow> 0 \<le> x \<Longrightarrow> list_all isDigit s \<Longrightarrow> 0 \<le> v"
proof (induction s arbitrary: x)
  case (Cons c s)
  have "0 \<le> digitVal c" using Cons.prems(3) by (simp add: isDigit_def between_def digitVal_def)
  with Cons show ?case by (auto simp: Let_def split: if_splits)
qed simp

text \<open>Every number read adds at least nothing.\<close>

lemma scaledFraction_nonneg:
  assumes "0 \<le> f" and "0 < unit" and "0 < scale"
  shows "0 \<le> scaledFraction f unit scale"
proof -
  have fin: "0 \<le> x" if "roundFloat y = FFin x" "0 \<le> y" for x y
  proof -
    have "0 \<le> roundEven z" if "0 \<le> z" for z :: rat
    proof -
      have "0 \<le> \<lfloor>z\<rfloor>" using that by simp
      then show ?thesis by (auto simp: roundEven_def Let_def)
    qed
    with that show ?thesis
      by (auto simp: roundFloat_def Let_def split: if_splits intro!: mult_nonneg_nonneg)
  qed
  show ?thesis
  proof (cases "roundFloat (of_int unit / scale)")
    case (FFin q)
    have q: "0 \<le> q" using fin [OF FFin] assms by simp
    show ?thesis
    proof (cases "floatMul (roundFloat (of_int f)) (FFin q)")
      case x: (FFin x)
      obtain p where p: "roundFloat (of_int f) = FFin p" "roundFloat (p * q) = FFin x"
        using x by (cases "roundFloat (of_int f)") (auto split: if_splits)
      have "0 \<le> p" using fin [OF p(1)] assms(1) by simp
      then have "0 \<le> x" using fin [OF p(2)] q by simp
      then show ?thesis by (simp add: scaledFraction_def FFin x GoFloat.truncate_def)
    qed (simp_all add: scaledFraction_def FFin)
  qed (simp_all add: scaledFraction_def)
qed

lemma durationStep_nonneg:
  assumes "durationStep orig s = Inr (v, rest)"
  shows "0 \<le> v"
proof -
  obtain fp r where r: "pointDigits (dropWhile isDigit s) = (fp, r)" by fastforce
  have fp: "list_all isDigit fp"
    using r by (auto simp: pointDigits_def list_all_iff dest: set_takeWhileD split: list.splits if_splits)
  have frac: "0 < sc" if "leadingFraction x scale ds = (f, sc)" "0 < scale" for x scale ds f sc
    using that by (induction x scale ds rule: leadingFraction.induct) (auto simp: Let_def split: if_splits)
  obtain i unit f scale where i: "leadingInt 0 (takeWhile isDigit s) = Some i" "durationUnit (takeWhile inUnit r) = Some unit"
    "leadingFraction 0 1 fp = (f, scale)" "v = i * unit + (if 0 < f then scaledFraction f unit scale else 0)"
    using assms by (auto simp: durationStep_def Let_def r split: option.splits prod.splits if_splits)
  have "0 \<le> i" using leadingInt_nonneg [OF i(1)] by (auto simp: list_all_iff dest: set_takeWhileD)
  moreover have "0 < unit" using i(2) by (auto simp: durationUnit_def duration_units split: if_splits)
  moreover have "0 < scale" using frac [OF i(3)] by simp
  ultimately show ?thesis using i(4) scaledFraction_nonneg [of f unit scale] by simp
qed

lemma durationLoop_bounds:
  "durationLoop orig d s = Inr x \<Longrightarrow> 0 \<le> d \<Longrightarrow> d \<le> 2 ^ 63 \<Longrightarrow> 0 \<le> x \<and> x \<le> 2 ^ 63"
proof (induction orig d s rule: durationLoop.induct)
  case (1 orig d s)
  from 1(2) show ?case
    by (subst (asm) durationLoop.simps)
      (use 1 durationStep_nonneg [of orig s] in \<open>auto split: if_splits sum.splits prod.splits\<close>)
qed

lemma parseDuration_bounds:
  assumes "parseDuration s = Inr d"
  shows "minInt64 \<le> d \<and> d \<le> maxInt64 \<and> (hd s \<noteq> CHR ''-'' \<longrightarrow> 0 \<le> d)"
  using assms
  by (auto simp: parseDuration_def Let_def split: list.split_asm if_split_asm sum.split_asm prod.split_asm
      dest!: durationLoop_bounds [where d = 0, simplified])



end
