(* ===== verification/JsonRoundTrip.thy ===== *)
theory JsonRoundTrip
  imports TimeProps
begin

text \<open>
  What is written by \<open>json.Marshal\<close> is read back by \<open>json.Unmarshal\<close>: the entries of an object come back in the order
  of their keys. For texts in UTF-8 and integers below two to the 53, to the depth the decoder accepts.
\<close>

section \<open>Documents\<close>

fun smallInt :: "float64 \<Rightarrow> bool" where
  "smallInt (FFin x) \<longleftrightarrow> x = of_int \<lfloor>x\<rfloor> \<and> \<bar>x\<bar> < 2 ^ 53"
| "smallInt _ \<longleftrightarrow> False"

primrec plainJSON :: "json \<Rightarrow> bool" where
  "plainJSON JNull = True"
| "plainJSON (JBool b) = True"
| "plainJSON (JNum x) = smallInt x"
| "plainJSON (JStr s) = validUTF8 s"
| "plainJSON (JArr vs) = list_all id (map plainJSON vs)"
| "plainJSON (JObj es) = (distinct (map fst es) \<and> list_all (validUTF8 \<circ> fst) es \<and>
     list_all (id \<circ> snd) (map (map_prod id plainJSON) es))"

primrec depthJSON :: "json \<Rightarrow> nat" where
  "depthJSON JNull = 0"
| "depthJSON (JBool b) = 0"
| "depthJSON (JNum x) = 0"
| "depthJSON (JStr s) = 0"
| "depthJSON (JArr vs) = Suc (foldr max (map depthJSON vs) 0)"
| "depthJSON (JObj es) = Suc (foldr max (map snd (map (map_prod id depthJSON) es)) 0)"

primrec sortedJSON :: "json \<Rightarrow> json" where
  "sortedJSON JNull = JNull"
| "sortedJSON (JBool b) = JBool b"
| "sortedJSON (JNum x) = JNum x"
| "sortedJSON (JStr s) = JStr s"
| "sortedJSON (JArr vs) = JArr (map sortedJSON vs)"
| "sortedJSON (JObj es) = JObj (sort_key fst (map (map_prod id sortedJSON) es))"

lemma insort_key_map: "insort_key fst (map_prod id f e) (map (map_prod id f) es) = map (map_prod id f) (insort_key fst e es)"
  by (induction es) auto

lemma sort_key_map: "sort_key fst (map (map_prod id f) es) = map (map_prod id f) (sort_key fst es)"
  by (induction es) (simp_all only: list.map sort_key_simps insort_key_map)

section \<open>Strings\<close>

lemma hexVal_hexDigit:
  assumes "n < 16"
  shows "hexVal (hexDigit n) = Some (int n)"
proof -
  have "\<forall>n \<in> set [0..<16]. hexVal (hexDigit n) = Some (int n)" by code_simp
  with assms show ?thesis by simp
qed

lemma hexByte_vals:
  "\<exists>x y. hexByte c = [x, y] \<and> hexVal x \<noteq> None \<and> hexVal y \<noteq> None \<and> hexCode 0 [CHR ''0'', CHR ''0'', x, y] = Some (code c)"
proof -
  let ?n = "of_char c :: nat"
  have n: "?n < 256" by (metis of_char_mod_256 mod_less_divisor zero_less_numeral)
  then have "?n div 16 < 16" by (simp add: less_mult_imp_div_less)
  then have x: "hexVal (hexDigit (?n div 16)) = Some (int (?n div 16))" by (rule hexVal_hexDigit)
  have y: "hexVal (hexDigit (?n mod 16)) = Some (int (?n mod 16))" by (rule hexVal_hexDigit) simp
  have z: "hexVal CHR ''0'' = Some 0" by code_simp
  have "int (?n div 16) * 16 + int (?n mod 16) = int ?n" 
    by (metis div_mult_mod_eq of_nat_add of_nat_mult of_nat_numeral)
  also have "int ?n = code c" by (simp add: of_nat_of_char)
  finally show ?thesis using x y z by (simp add: hexByte_def)
qed

text \<open>The escape of one byte, through the decoder and through the lexer.\<close>

lemma escapeByte_cases:
  obtains (pair) d where "escapeByte c = [CHR 0x5C, d]" "d \<in> set ''bfnrt'' \<union> {CHR 0x22, CHR 0x5C}" "escapeValue d = c"
    | (hex) x y where "escapeByte c = [CHR 0x5C, CHR ''u'', CHR ''0'', CHR ''0'', x, y]" "hexVal x \<noteq> None" "hexVal y \<noteq> None"
        "hexCode 0 [CHR ''0'', CHR ''0'', x, y] = Some (code c)"
    | (plain) "escapeByte c = [c]" "c \<noteq> CHR 0x22" "c \<noteq> CHR 0x5C" "\<not> code c < 32"
proof -
  obtain x y where xy: "hexByte c = [x, y]" "hexVal x \<noteq> None" "hexVal y \<noteq> None"
    "hexCode 0 [CHR ''0'', CHR ''0'', x, y] = Some (code c)"
    using hexByte_vals by blast
  show thesis
  proof (cases "c \<in> {CHR 0x22, CHR 0x5C, CHR 0x08, CHR 0x0C, CHR 0x0A, CHR 0x0D, CHR 0x09}")
    case True
    then show thesis
      by (elim insertE emptyE) (auto intro!: pair simp: escapeByte_def escapeValue_def)
  next
    case False
    show thesis
    proof (cases "code c < 32 \<or> c = CHR ''<'' \<or> c = CHR ''>'' \<or> c = CHR ''&''")
      case True
      with False xy(1) show thesis by (intro hex [OF _ xy(2-4)]) (simp add: escapeByte_def)
    next
      case code: False
      with False show thesis by (intro plain) (simp_all add: escapeByte_def)
    qed
  qed
qed

lemma unquote_escape:
  assumes "code c < 128"
  shows "unquote (escapeByte c @ s) = c # unquote s"
proof (cases c rule: escapeByte_cases)
  case (pair d)
  then have "getu4 (CHR 0x5C # d # s) = None" by (auto simp: getu4_def)
  with pair show ?thesis by (simp add: unquote.simps(2))
next
  case (hex x y)
  have g: "getu4 (CHR 0x5C # CHR ''u'' # CHR ''0'' # CHR ''0'' # x # y # s) = Some (code c)"
    using hex(4) by (simp add: getu4_def)
  have "\<not> surrogate (code c)" "encodeRune (code c) = [c]"
    using assms by (simp_all add: surrogate_def encodeRune_def)
  with g hex(1) show ?thesis by (simp add: unquote.simps(2))
next
  case plain
  with assms show ?thesis by (simp add: unquote.simps(2))
qed

subsection \<open>Runes\<close>

text \<open>The encoding of one rune, of two bytes or more.\<close>

definition longRune :: "string \<Rightarrow> bool" where
  "longRune r \<longleftrightarrow> r \<noteq> [] \<and> 128 \<le> code (hd r) \<and> runeLength r = length r"

lemma inRanges_take: "inRanges rs s \<Longrightarrow> inRanges rs (take (length rs) s @ t)"
  by (induction rs s rule: inRanges.induct) simp_all

lemma inRanges_append: "inRanges rs s \<Longrightarrow> inRanges rs (s @ t)"
  by (induction rs s rule: inRanges.induct) simp_all

lemma inRanges_above: "inRanges rs s \<Longrightarrow> \<forall>r \<in> set rs. k \<le> fst r \<Longrightarrow> \<forall>c \<in> set (take (length rs) s). k \<le> code c"
  by (induction rs s rule: inRanges.induct) (auto simp: between_def)

lemma runeTail_above: "runeTail n = Some rs \<Longrightarrow> \<forall>r \<in> set rs. 128 \<le> fst r"
  by (auto simp: runeTail_def Let_def split: if_splits)

lemma longRune_append:
  assumes "longRune r"
  shows "runeLength (r @ s) = length r"
proof (cases r)
  case (Cons a q)
  with assms obtain rs where "runeTail (code a) = Some rs" "inRanges rs q" "length rs = length q"
    by (auto simp: longRune_def split: option.splits if_splits)
  with Cons show ?thesis by (simp add: inRanges_append)
qed (use assms in \<open>simp add: longRune_def\<close>)

lemma longRune_bytes:
  assumes "longRune r"
  shows "\<forall>c \<in> set r. 128 \<le> code c"
proof (cases r)
  case (Cons a q)
  with assms obtain rs where rs: "runeTail (code a) = Some rs" "inRanges rs q" "length rs = length q" and "128 \<le> code a"
    by (auto simp: longRune_def split: option.splits if_splits)
  then show ?thesis using inRanges_above [OF rs(2) runeTail_above [OF rs(1)]] Cons by simp
qed (use assms in \<open>simp add: longRune_def\<close>)

lemma utf8_split:
  assumes "validUTF8 (a # s)" and "128 \<le> code a"
  obtains r t where "a # s = r @ t" "longRune r" "validUTF8 t"
proof -
  obtain rs where rs: "runeTail (code a) = Some rs" "inRanges rs s" "runeLength (a # s) = Suc (length rs)"
    using assms(1) by (auto simp: validUTF8.simps(2) split: option.splits if_splits)
  have "length (take (length rs) s) = length rs" using inRanges_length [OF rs(2)] by simp
  then have "longRune (a # take (length rs) s)"
    using rs(1) inRanges_take [OF rs(2), of "[]"] assms(2) by (simp add: longRune_def)
  moreover have "validUTF8 (drop (length rs) s)" using assms(1) rs(3) by (simp add: validUTF8.simps(2))
  ultimately show thesis by (intro that [of "a # take (length rs) s"]) simp_all
qed

lemma utf8_induct [consumes 1, case_names empty short long]:
  assumes "validUTF8 s" and "P []"
    and "\<And>a s. code a < 128 \<Longrightarrow> P s \<Longrightarrow> P (a # s)" and "\<And>r s. longRune r \<Longrightarrow> P s \<Longrightarrow> P (r @ s)"
  shows "P s"
  using assms(1)
proof (induction s rule: length_induct)
  case (1 s)
  show ?case
  proof (cases s)
    case (Cons a t)
    show ?thesis
    proof (cases "code a < 128")
      case True
      with 1 Cons show ?thesis by (simp add: validUTF8_ascii assms(3))
    next
      case False
      then obtain r u where "s = r @ u" "longRune r" "validUTF8 u" using utf8_split [of a t] 1(2) Cons by auto
      with 1(1) show ?thesis by (auto simp: longRune_def intro!: assms(4))
    qed
  qed (simp add: assms(2))
qed

definition asciiText :: "string \<Rightarrow> bool" where
  "asciiText s \<longleftrightarrow> list_all (\<lambda>c. code c < 128) s"

lemma asciiText_valid: "asciiText s \<Longrightarrow> validUTF8 s"
  by (induction s) (simp_all add: asciiText_def validUTF8_ascii)

definition escapeRune :: "string \<Rightarrow> string" where
  "escapeRune r = (if r = encodeRune 0x2028 then [CHR 0x5C] @ ''u2028''
     else if r = encodeRune 0x2029 then [CHR 0x5C] @ ''u2029'' else r)"

lemma quote_short: "code a < 128 \<Longrightarrow> quoteJSON (a # s) = escapeByte a @ quoteJSON s"
  by (simp add: quoteJSON.simps(2))

lemma quote_long:
  assumes "longRune r"
  shows "quoteJSON (r @ s) = escapeRune r @ quoteJSON s"
proof (cases r)
  case (Cons a q)
  with assms longRune_append [OF assms, of s] show ?thesis
    by (simp add: quoteJSON.simps(2) longRune_def escapeRune_def Let_def del: runeLength.simps)
qed (use assms in \<open>simp add: longRune_def\<close>)

lemma separator_digits:
  "hexCode 0 ''2028'' = Some 0x2028" "hexCode 0 ''2029'' = Some 0x2029"
  by code_simp+

lemma unquote_long:
  assumes "longRune r"
  shows "unquote (escapeRune r @ s) = r @ unquote s"
proof -
  have sep: "unquote (CHR 0x5C # CHR ''u'' # d @ s) = encodeRune n @ unquote s"
    if "length d = 4" "hexCode 0 d = Some n" "\<not> surrogate n" for d n
  proof -
    have "getu4 (CHR 0x5C # CHR ''u'' # d @ s) = Some n" using that(1,2) by (simp add: getu4_def)
    with that(1,3) show ?thesis by (simp add: unquote.simps(2))
  qed
  obtain a q where r: "r = a # q" "128 \<le> code a" using assms by (cases r) (simp_all add: longRune_def)
  then have "a \<noteq> CHR 0x5C" by auto
  then have "unquote (r @ s) = r @ unquote s"
    using longRune_append [OF assms, of s] r by (simp add: unquote.simps(2) del: runeLength.simps)
  with sep [OF _ separator_digits(1)] sep [OF _ separator_digits(2)] show ?thesis
    by (simp add: escapeRune_def surrogate_def)
qed

lemma unquote_quote: "validUTF8 s \<Longrightarrow> unquote (quoteJSON s) = s"
  by (induction s rule: utf8_induct) (simp_all add: quote_short quote_long unquote_escape unquote_long)

section \<open>The lexer\<close>

lemma no_tokens [simp]: "map_option ((@) []) x = x"
  by (cases x) simp_all

lemma one_token [simp]: "map_option ((@) [t]) x = map_option ((#) t) x"
  by (cases x) simp_all

lemma lex_silent:
  assumes "lexStep st c = Some ([], st')"
  shows "lexFrom st (c # s) = lexFrom st' s"
  using assms by simp

lemma lex_escape:
  assumes "code c < 128"
  shows "lexFrom (LStr acc) (escapeByte c @ s) = lexFrom (LStr (rev (escapeByte c) @ acc)) s"
proof (cases c rule: escapeByte_cases)
  case (pair d)
  then show ?thesis by auto
next
  case (hex x y)
  have "hexVal CHR ''0'' = Some 0" by code_simp
  moreover obtain v w where "hexVal x = Some v" "hexVal y = Some w" using hex(2,3) by auto
  ultimately show ?thesis using hex(1) by simp
next
  case plain
  then show ?thesis by simp
qed

lemma lex_long:
  assumes "longRune r"
  shows "lexFrom (LStr acc) (escapeRune r @ s) = lexFrom (LStr (rev (escapeRune r) @ acc)) s"
proof -
  have "\<forall>c \<in> set r. 128 \<le> code c \<Longrightarrow> lexFrom (LStr acc) (r @ s) = lexFrom (LStr (rev r @ acc)) s" for acc r
    by (induction r arbitrary: acc) auto
  moreover have "lexFrom (LStr acc) ([CHR 0x5C] @ ''u202'' @ [d] @ s) =
      lexFrom (LStr (rev ([CHR 0x5C] @ ''u202'' @ [d]) @ acc)) s" if "hexVal d \<noteq> None" for d
  proof -
    have "hexVal CHR ''2'' = Some 2" "hexVal CHR ''0'' = Some 0" by code_simp+
    with that show ?thesis by auto
  qed
  moreover have "hexVal CHR ''8'' \<noteq> None" "hexVal CHR ''9'' \<noteq> None" by code_simp+
  ultimately show ?thesis using longRune_bytes [OF assms] by (auto simp: escapeRune_def simp del: lexFrom.simps)
qed

lemma lex_quoted:
  "validUTF8 s \<Longrightarrow> lexFrom (LStr acc) (quoteJSON s @ t) = lexFrom (LStr (rev (quoteJSON s) @ acc)) t"
  by (induction s arbitrary: acc rule: utf8_induct)
    (simp_all add: quote_short quote_long lex_escape lex_long del: lexFrom.simps)

lemma lex_string:
  assumes "validUTF8 s"
  shows "lexFrom LIdle (stringText s @ t) = map_option ((#) (TStr s)) (lexFrom LIdle t)"
proof -
  have "lexStep LIdle CHR 0x22 = Some ([], LStr [])" by (simp add: startToken_def isSpaceJSON_def)
  from lex_silent [OF this] have "lexFrom LIdle (stringText s @ t) = lexFrom (LStr []) (quoteJSON s @ CHR 0x22 # t)"
    by (simp add: stringText_def del: lexFrom.simps lexStep.simps)
  also have "\<dots> = lexFrom (LStr (rev (quoteJSON s))) (CHR 0x22 # t)"
    using lex_quoted [OF assms, of "[]"] by simp
  also have "\<dots> = map_option ((#) (TStr s)) (lexFrom LIdle t)"
    using unquote_quote [OF assms] by simp
  finally show ?thesis .
qed

text \<open>What may follow a value in a document: nothing, or a closing bracket or comma.\<close>

definition ends :: "string \<Rightarrow> bool" where
  "ends t \<longleftrightarrow> t = [] \<or> hd t \<in> set '',]}''"

lemma lex_punctuation:
  assumes "punctuation c = Some p"
  shows "startToken c = Some ([p], LIdle)"
proof -
  have "c \<in> set ''{}[]:,''" using assms by (auto simp: punctuation_def split: if_splits)
  moreover have "\<forall>c \<in> set ''{}[]:,''. startToken c = map_option (\<lambda>p. ([p], LIdle)) (punctuation c)" by code_simp
  ultimately have "startToken c = map_option (\<lambda>p. ([p], LIdle)) (punctuation c)" by blast
  with assms show ?thesis by simp
qed

lemma end_token:
  assumes "ends t" and "\<And>c. c \<in> set '',]}'' \<Longrightarrow> lexStep st c = endThen (Some [p]) c" and "lexEnd st = Some [p]"
  shows "lexFrom st t = map_option ((#) p) (lexFrom LIdle t)"
proof (cases t)
  case Nil
  with assms(3) show ?thesis by simp
next
  case (Cons c r)
  then have c: "c \<in> set '',]}''" using assms(1) by (simp add: ends_def)
  obtain q where q: "punctuation c = Some q" using c by (auto simp: punctuation_def)
  from lex_punctuation [OF q] assms(2) [OF c] Cons show ?thesis
    by (cases "lexFrom LIdle r") (simp_all add: endThen_def)
qed

lemma lex_letters: "list_all (between 97 122) w \<Longrightarrow> lexFrom (LWord acc) (w @ t) = lexFrom (LWord (rev w @ acc)) t"
  by (induction w arbitrary: acc) simp_all

lemma lex_word:
  assumes "ends t" and "wordOf w = Some v"
  shows "lexFrom LIdle (w @ t) = map_option ((#) (TWord v)) (lexFrom LIdle t)"
proof -
  have "w \<in> {''true'', ''false'', ''null''}" using assms(2) by (auto simp: wordOf_def split: if_splits)
  then have "w \<noteq> []" "list_all (between 97 122) w" "lexStep LIdle (hd w) = Some ([], LWord [hd w])"
    by (elim insertE emptyE; simp add: between_def startToken_def isSpaceJSON_def isDigit_def)+
  then obtain c r where w: "w = c # r" "list_all (between 97 122) r" "lexStep LIdle c = Some ([], LWord [c])"
    by (cases w) auto
  have "lexFrom LIdle (w @ t) = lexFrom (LWord (rev w)) t"
    using lex_silent [OF w(3)] lex_letters [OF w(2), of "[c]" t] w(1) by simp
  also have "\<dots> = map_option ((#) (TWord v)) (lexFrom LIdle t)"
    using assms(1) by (rule end_token) (auto simp: endWord_def assms(2) between_def)
  finally show ?thesis .
qed

section \<open>Numbers\<close>

lemma bitLength_bounds: "0 < n \<Longrightarrow> n < 2 ^ k \<Longrightarrow> 1 \<le> bitLength n \<and> bitLength n \<le> int k"
proof (induction k arbitrary: n)
  case (Suc k)
  show ?case
  proof (cases "n = 1")
    case True
    then show ?thesis by (simp add: bitLength.simps)
  next
    case False
    with Suc.prems have "0 < n div 2" "n div 2 < 2 ^ k" by auto
    then show ?thesis using Suc.IH [of "n div 2"] Suc.prems by (simp add: bitLength.simps [of n])
  qed
qed simp

lemma roundFloat_int:
  assumes "0 < n" and "n < 2 ^ 53"
  shows "roundFloat (of_int n) = FFin (of_int n)"
proof -
  have one: "bitLength 1 = 1" by (simp add: bitLength.simps)
  have b: "1 \<le> bitLength n" "bitLength n \<le> 53" using bitLength_bounds [OF assms] by simp_all
  define k where "k = leadingBit (of_int n :: rat)"
  have "leadingBit (of_int n :: rat) = bitLength n - 1 \<or> leadingBit (of_int n :: rat) = bitLength n - 2"
    by (simp add: leadingBit_def one Let_def)
  then have k: "- 1 \<le> k" "k \<le> 52" using b by (auto simp: k_def)
  then have e: "max (k - 52) (- 1074) = k - 52" by simp
  have p: "pow2 (k - 52) = 1 / of_int (2 ^ nat (52 - k))" using k by (simp add: pow2_def)
  have "of_int n / pow2 (k - 52) = of_int (n * 2 ^ nat (52 - k))" by (simp add: p)
  then have r: "roundEven (of_int n / pow2 (k - 52)) = n * 2 ^ nat (52 - k)" by (simp only: roundEven_int)
  have "of_int (n * 2 ^ nat (52 - k)) * pow2 (k - 52) = of_int n" by (simp add: p)
  with e r k assms(1) show ?thesis
    by (simp add: roundFloat_def Let_def k_def [symmetric] del: of_int_mult)
qed

lemma decimal_digits: "list_all isDigit (decimal n)"
  by (induction n rule: decimal.induct) (subst decimal.simps, simp add: hexDigit_decimal)

lemma natOf_decimal: "natOf (decimal n) = int n"
proof (induction n rule: decimal.induct)
  case (1 n)
  show ?case
  proof (cases "n < 10")
    case True
    then show ?thesis using hexDigit_decimal [of n] by (simp add: decimal.simps natOf_def)
  next
    case False
    then show ?thesis
      using 1 hexDigit_decimal [of "n mod 10"] by (subst decimal.simps) (simp add: natOf_append, presburger)
  qed
qed

lemma hexDigit_zero:
  assumes "hexDigit n = CHR ''0''" and "n < 10"
  shows "n = 0"
  using hexDigit_decimal [OF assms(2)] assms(1) by (simp add: digitVal_def)

lemma decimal_head: "decimal n \<noteq> [] \<and> (hd (decimal n) = CHR ''0'' \<longrightarrow> n = 0)"
proof (induction n rule: decimal.induct)
  case (1 n)
  then show ?case using hexDigit_zero by (subst (1 2) decimal.simps) auto
qed

lemma decimal_zero [simp]: "decimal 0 = ''0''"
  by (simp add: decimal.simps hexDigit_def)

lemma isDigit_other:
  assumes "isDigit c"
  shows "c \<notin> set ''-+.eEinxboINXBO_'' \<and> asciiLower c = c \<and> numberChar c"
proof -
  have "int (of_char c) = code c" by (simp add: of_nat_of_char)
  with assms show ?thesis by (auto simp: isDigit_def between_def numberChar_def asciiLower_def)
qed

lemma lower_digits: "list_all isDigit s \<Longrightarrow> map asciiLower s = s"
  by (induction s) (simp_all add: isDigit_other)

lemma whole_digits: "list_all isDigit s \<Longrightarrow> takeWhile isDigit s = s \<and> dropWhile isDigit s = []"
  by (induction s) simp_all

lemma isNumber_digits:
  assumes "list_all isDigit ds" and "ds \<noteq> []" and "ds = ''0'' \<or> hd ds \<noteq> CHR ''0''"
  shows "isNumber ds" "isNumber (CHR ''-'' # ds)"
proof -
  note whole = whole_digits [OF assms(1), THEN conjunct1] whole_digits [OF assms(1), THEN conjunct2]
  have "isNumber (CHR ''-'' # ds)"
    using assms(2,3) by (simp add: isNumber_def fractionOK_def whole)
  moreover have "hd ds \<noteq> CHR ''-''" using assms(1,2) isDigit_other [of "hd ds"] by (cases ds) auto
  then have "(case ds of c # r \<Rightarrow> if c = CHR ''-'' then r else ds | [] \<Rightarrow> []) = ds"
    by (cases ds) simp_all
  then have "isNumber ds"
    using assms(2,3) by (simp only: isNumber_def) (simp add: fractionOK_def whole)
  ultimately show "isNumber ds" "isNumber (CHR ''-'' # ds)" by simp_all
qed

lemma isNumber_intText: "isNumber (intText n)"
proof -
  have "decimal m = ''0'' \<or> hd (decimal m) \<noteq> CHR ''0''" for m
    using decimal_head [of m] by (cases "m = 0") auto
  then show ?thesis
    using isNumber_digits [OF decimal_digits] decimal_head by (auto simp: intText_def simp del: decimal_zero)
qed

lemma underscores_digits: "list_all isDigit s \<Longrightarrow> underscoresIn isDigit b s"
proof (induction s arbitrary: b)
  case (Cons c s)
  then show ?case using isDigit_other [of c] by simp
qed simp

lemma unsignedFloat_decimal:
  assumes "int n < 2 ^ 53"
  shows "unsignedFloat (decimal n) = Some (FFin (of_int (int n)))"
proof -
  note ds = decimal_digits [of n]
  have lower: "map asciiLower (decimal n) = decimal n" by (rule lower_digits [OF ds])
  obtain c r where c: "decimal n = c # r" "isDigit c" "list_all isDigit r"
    using decimal_head [of n] ds by (cases "decimal n") auto
  have "decimal n \<noteq> ''inf''" "decimal n \<noteq> ''infinity''" using c isDigit_other [OF c(2)] by auto
  moreover have "\<not> prefix ''0x'' (decimal n)" using c isDigit_other [of "hd r"] by (cases r) auto
  moreover have "decimalValue (decimal n) = Some (of_int (int n))"
    using decimal_head [of n]
    by (simp add: decimalValue_def splitDigits_def whole_digits [OF ds] natOf_decimal pow10_def)
  moreover have "roundFloat (of_int (int n)) = FFin (of_int (int n))"
    using roundFloat_int [of "int n"] assms by (cases "n = 0") (simp_all add: roundFloat_def)
  ultimately show ?thesis by (simp add: unsignedFloat_def lower)
qed

lemma parseFloat_intText:
  assumes "\<bar>n\<bar> < 2 ^ 53"
  shows "parseFloat (intText n) = Some (FFin (of_int n))"
proof -
  define m where "m = nat \<bar>n\<bar>"
  note ds = decimal_digits [of m]
  obtain c r where c: "decimal m = c # r" "isDigit c"
    using decimal_head [of m] ds by (cases "decimal m") auto
  have form: "intText n = (if n < 0 then CHR ''-'' # decimal m else decimal m)"
    by (simp add: intText_def m_def)
  have "CHR ''_'' \<notin> set (decimal m)" using ds isDigit_other by (fastforce simp: list_all_iff)
  moreover have "map asciiLower (intText n) = intText n" by (simp add: form lower_digits [OF ds] asciiLower_def)
  moreover have "intText n \<noteq> ''nan''" using c isDigit_other [OF c(2)] by (auto simp: form)
  ultimately have us: "CHR ''_'' \<notin> set (intText n)" "map asciiLower (intText n) \<noteq> ''nan''"
    by (simp_all add: form)
  have "signedFloat (intText n) = Some (FFin (of_int n))"
  proof (cases "n < 0")
    case True
    then have "intText n = CHR ''-'' # decimal m" "(of_int n :: rat) = - of_int (int m)"
      by (simp_all add: intText_def m_def)
    then show ?thesis using unsignedFloat_decimal [of m] assms by (simp add: signedFloat_def m_def)
  next
    case False
    then have "intText n = decimal m" "(of_int n :: rat) = of_int (int m)" by (simp_all add: intText_def m_def)
    then show ?thesis
      using unsignedFloat_decimal [of m] assms c isDigit_other [OF c(2)] by (auto simp: signedFloat_def m_def)
  qed
  with us show ?thesis by (simp add: parseFloat_def)
qed

lemma lex_digits:
  "list_all numberChar ds \<Longrightarrow> lexFrom (LNum acc) (ds @ t) = lexFrom (LNum (rev ds @ acc)) t"
  by (induction ds arbitrary: acc) simp_all

lemma lex_number:
  assumes "ends t"
  shows "lexFrom LIdle (intText n @ t) = map_option ((#) (TNum (intText n))) (lexFrom LIdle t)"
proof -
  have minus: "numberChar CHR ''-''" by (simp add: numberChar_def)
  have digits: "list_all numberChar (decimal m)" for m
    using decimal_digits [of m] isDigit_other by (auto simp: list_all_iff)
  obtain c r where w: "intText n = c # r" "c = CHR ''-'' \<or> isDigit c" "list_all numberChar r"
  proof (cases "n < 0")
    case True
    then show ?thesis using digits by (intro that [of "CHR ''-''"]) (simp_all add: intText_def)
  next
    case False
    moreover obtain c r where "decimal (nat n) = c # r" using decimal_head [of "nat n"] by (cases "decimal (nat n)") auto
    ultimately show ?thesis
      using digits [of "nat n"] decimal_digits [of "nat n"] by (intro that [of c r]) (simp_all add: intText_def)
  qed
  have "lexStep LIdle c = Some ([], LNum [c])"
    using w(2) by (auto simp: startToken_def isSpaceJSON_def isDigit_def between_def)
  then have "lexFrom LIdle (intText n @ t) = lexFrom (LNum (rev (intText n))) t"
    using lex_silent lex_digits [OF w(3), of "[c]" t] w(1) by simp
  also have "\<dots> = map_option ((#) (TNum (intText n))) (lexFrom LIdle t)"
    using assms by (rule end_token) (auto simp: endNumber_def isNumber_intText numberChar_def isDigit_def between_def)
  finally show ?thesis .
qed

section \<open>A document as tokens\<close>

fun joinTokens :: "jtoken list list \<Rightarrow> jtoken list" where
  "joinTokens [] = []"
| "joinTokens [p] = p"
| "joinTokens (p # ps) = p @ TComma # joinTokens ps"

primrec tokensOf :: "json \<Rightarrow> jtoken list" where
  "tokensOf JNull = [TWord JNull]"
| "tokensOf (JBool b) = [TWord (JBool b)]"
| "tokensOf (JNum x) = [TNum (numberText (\<lambda>_. []) x)]"
| "tokensOf (JStr s) = [TStr s]"
| "tokensOf (JArr vs) = TOpenArr # joinTokens (map tokensOf vs) @ [TCloseArr]"
| "tokensOf (JObj es) = TOpenObj #
     joinTokens (map (\<lambda>(k, ts). TStr k # TColon # ts) (sort_key fst (map (map_prod id tokensOf) es))) @ [TCloseObj]"

lemma append_cons: "(@) (x # xs) = (\<lambda>r. x # xs @ r)"
  by (rule ext) simp

text \<open>The text \<open>p\<close> reads as the tokens \<open>ts\<close>, before anything that may follow a value.\<close>

definition reads :: "string \<Rightarrow> jtoken list \<Rightarrow> bool" where
  "reads p ts \<longleftrightarrow> (\<forall>t. ends t \<longrightarrow> lexFrom LIdle (p @ t) = map_option ((@) ts) (lexFrom LIdle t))"

lemma lex_mark:
  "punctuation c = Some p \<Longrightarrow> lexFrom LIdle (c # t) = map_option ((#) p) (lexFrom LIdle t)"
  using lex_punctuation [of c p] by simp

lemma punctuation_marks [simp]:
  "punctuation CHR ''{'' = Some TOpenObj" "punctuation CHR ''}'' = Some TCloseObj"
  "punctuation CHR ''['' = Some TOpenArr" "punctuation CHR '']'' = Some TCloseArr"
  "punctuation CHR '':'' = Some TColon" "punctuation CHR '','' = Some TComma"
  by (simp_all add: punctuation_def)

lemma map_option_comp [simp]: "map_option f (map_option g x) = map_option (\<lambda>y. f (g y)) x"
  by (cases x) simp_all

lemma reads_join:
  assumes "\<forall>(p, ts) \<in> set l. reads p ts" and "ends t"
  shows "lexFrom LIdle (joinWith '','' (map fst l) @ t) =
    map_option ((@) (joinTokens (map snd l))) (lexFrom LIdle t)"
  using assms(1)
proof (induction l rule: induct_list012)
  case (3 e f l)
  have "ends ('','' @ joinWith '','' (map fst (f # l)) @ t)" by (simp add: ends_def)
  with 3 show ?case by (auto simp: reads_def lex_mark simp del: lexFrom.simps)
qed (use assms(2) in \<open>auto simp: reads_def\<close>)

lemma reads_entry:
  assumes "validUTF8 k" and "reads p ts"
  shows "reads (stringText k @ '':'' @ p) (TStr k # TColon # ts)"
  unfolding reads_def
proof (intro allI impI)
  fix t
  assume "ends t"
  then show "lexFrom LIdle ((stringText k @ '':'' @ p) @ t) = map_option ((@) (TStr k # TColon # ts)) (lexFrom LIdle t)"
    using assms by (simp add: lex_string lex_mark reads_def append_cons del: lexFrom.simps)
qed

lemma reads_array:
  assumes "\<forall>(p, ts) \<in> set l. reads p ts"
  shows "reads (''['' @ joinWith '','' (map fst l) @ '']'') (TOpenArr # joinTokens (map snd l) @ [TCloseArr])"
proof -
  have "ends ('']'' @ t)" for t by (simp add: ends_def)
  with reads_join [OF assms] show ?thesis by (simp add: reads_def lex_mark append_cons del: lexFrom.simps)
qed

lemma reads_object:
  assumes "\<forall>(p, ts) \<in> set l. reads p ts"
  shows "reads (''{'' @ joinWith '','' (map fst l) @ ''}'') (TOpenObj # joinTokens (map snd l) @ [TCloseObj])"
proof -
  have "ends (''}'' @ t)" for t by (simp add: ends_def)
  with reads_join [OF assms] show ?thesis by (simp add: reads_def lex_mark append_cons del: lexFrom.simps)
qed

lemma smallInt_text:
  assumes "smallInt x"
  obtains n where "x = FFin (of_int n)" "\<bar>n\<bar> < 2 ^ 53" "\<And>fmt. numberText fmt x = intText n"
proof (cases x)
  case (FFin y)
  with assms have y: "y = of_int \<lfloor>y\<rfloor>" "\<bar>y\<bar> < 2 ^ 53" by simp_all
  then have "\<bar>of_int \<lfloor>y\<rfloor> :: rat\<bar> < of_int (2 ^ 53)" by simp
  then have "\<bar>\<lfloor>y\<rfloor>\<bar> < 2 ^ 53" by (simp only: of_int_abs [symmetric] of_int_less_iff)
  with y FFin show thesis by (intro that [of "\<lfloor>y\<rfloor>"]) (simp_all del: of_int_abs)
qed (use assms in simp_all)

lemma reads_word: "wordOf w = Some v \<Longrightarrow> reads w [TWord v]"
  by (simp add: reads_def lex_word del: lexFrom.simps)

lemma encode_reads: "plainJSON v \<Longrightarrow> reads (encodeJSON fmt v) (tokensOf v)"
proof (induction v)
  case JNull
  show ?case using reads_word [of "''null''"] by (simp add: wordOf_def)
next
  case (JBool b)
  show ?case using reads_word [of "encodeJSON fmt (JBool b)"] by (simp add: wordOf_def)
next
  case (JNum x)
  then obtain n where "\<And>fmt. numberText fmt x = intText n"
    using smallInt_text [of x] by (metis plainJSON.simps(3))
  then show ?case by (simp add: reads_def lex_number del: lexFrom.simps numberText.simps)
next
  case (JStr s)
  then show ?case by (simp add: reads_def lex_string del: lexFrom.simps)
next
  case (JArr vs)
  then have "\<forall>(p, ts) \<in> set (map (\<lambda>v. (encodeJSON fmt v, tokensOf v)) vs). reads p ts" by (auto simp: list_all_iff)
  from reads_array [OF this] show ?case by (simp add: comp_def)
next
  case (JObj es)
  let ?l = "map (\<lambda>(k, v). (stringText k @ '':'' @ encodeJSON fmt v, TStr k # TColon # tokensOf v)) (sort_key fst es)"
  have "reads (stringText k @ '':'' @ encodeJSON fmt v) (TStr k # TColon # tokensOf v)" if e: "(k, v) \<in> set es" for k v
  proof (rule reads_entry)
    show "validUTF8 k" using JObj.prems e by (auto simp: list_all_iff)
    show "reads (encodeJSON fmt v) (tokensOf v)"
      using JObj.prems e by (intro JObj.IH [OF e]) (auto simp: list_all_iff)
  qed
  then have "\<forall>(p, ts) \<in> set ?l. reads p ts" by auto
  from reads_object [OF this] show ?case
    by (simp only: encodeJSON.simps tokensOf.simps sort_key_map map_map)
      (simp add: comp_def case_prod_beta' map_prod_def)
qed

section \<open>The parser\<close>

text \<open>The tokens of a value, where one is expected, lead to the state after that value.\<close>

definition parses :: "jtoken list \<Rightarrow> json \<Rightarrow> nat \<Rightarrow> bool" where
  "parses ts v d \<longleftrightarrow> ts \<noteq> [] \<and> hd ts \<noteq> TCloseArr \<and>
     (\<forall>fs r. d + length fs \<le> maxDepth \<longrightarrow> runTokens (ts @ r) (MValue, fs) = runTokens r (complete v fs))"

lemma parses_run:
  "parses ts v d \<Longrightarrow> d + length fs \<le> maxDepth \<Longrightarrow> runTokens (ts @ r) (MValue, fs) = runTokens r (complete v fs)"
  by (simp add: parses_def)

lemma joinTokens_cons: "joinTokens (p # ps) = p @ (if ps = [] then [] else TComma # joinTokens ps)"
  by (cases ps) simp_all

lemma run_elements:
  assumes "\<forall>(ts, v) \<in> set l. parses ts v d" and "l \<noteq> []" and "Suc d + length fs \<le> maxDepth"
  shows "runTokens (joinTokens (map fst l) @ r) (MValue, FArr acc # fs) =
    runTokens r (MAfter, FArr (rev (map snd l) @ acc) # fs)"
  using assms(1,2)
proof (induction l arbitrary: acc)
  case (Cons e l)
  obtain ts v where e: "e = (ts, v)" by (cases e)
  have "runTokens (ts @ q) (MValue, FArr acc # fs) = runTokens q (MAfter, FArr (v # acc) # fs)" for q
    using parses_run [of ts v d "FArr acc # fs" q] Cons.prems assms(3) e by simp
  then show ?case using Cons e by (cases "l = []") (simp_all add: joinTokens_cons)
qed simp

lemma putEntry_new: "k \<notin> fst ` set es \<Longrightarrow> putEntry k v es = es @ [(k, v)]"
  by (induction es) auto

lemma run_entries:
  assumes "\<forall>(k, ts, v) \<in> set l. parses ts v d" and "l \<noteq> []" and "Suc d + length fs \<le> maxDepth"
    and "distinct (map fst es @ map fst l)"
  shows "runTokens (joinTokens (map (\<lambda>(k, ts, v). TStr k # TColon # ts) l) @ r) (MKey, FObj es k0 # fs) =
    runTokens r (MAfter, FObj (es @ map (\<lambda>(k, ts, v). (k, v)) l) (fst (last l)) # fs)"
  using assms(1,2,4)
proof (induction l arbitrary: es k0)
  case (Cons e l)
  obtain k ts v where e: "e = (k, ts, v)" by (cases e)
  have "k \<notin> fst ` set es" using Cons.prems(3) e by auto
  then have "runTokens (ts @ q) (MValue, FObj es k # fs) = runTokens q (MAfter, FObj (es @ [(k, v)]) k # fs)" for q
    using parses_run [of ts v d "FObj es k # fs" q] Cons.prems assms(3) e by (simp add: putEntry_new)
  then show ?case using Cons e by (cases "l = []") (simp_all add: joinTokens_cons)
qed simp

lemma depth_bound:
  "x \<in> set xs \<Longrightarrow> x \<le> foldr max xs (0 :: nat)"
  by (induction xs) auto

lemma parses_mono: "parses ts v d \<Longrightarrow> d \<le> e \<Longrightarrow> parses ts v e"
  by (auto simp: parses_def)

lemma joinTokens_head:
  assumes "\<forall>ts \<in> set l. ts \<noteq> [] \<and> hd ts \<noteq> TCloseArr" and "l \<noteq> []"
  obtains t r where "joinTokens l = t # r" "t \<noteq> TCloseArr"
proof (cases l)
  case (Cons p ps)
  with assms(1) obtain t q where "p = t # q" "t \<noteq> TCloseArr" by (cases p) auto
  with Cons show thesis by (intro that [of t]) (simp_all add: joinTokens_cons)
qed (use assms(2) in simp)

lemma parses_array:
  assumes "\<forall>(ts, v) \<in> set l. parses ts v d"
  shows "parses (TOpenArr # joinTokens (map fst l) @ [TCloseArr]) (JArr (map snd l)) (Suc d)"
  unfolding parses_def
proof (intro conjI allI impI)
  fix fs :: "frame list" and r
  assume depth: "Suc d + length fs \<le> maxDepth"
  show "runTokens ((TOpenArr # joinTokens (map fst l) @ [TCloseArr]) @ r) (MValue, fs) =
    runTokens r (complete (JArr (map snd l)) fs)"
  proof (cases "l = []")
    case True
    with depth show ?thesis by (simp add: push_def)
  next
    case False
    have "\<forall>ts \<in> set (map fst l). ts \<noteq> [] \<and> hd ts \<noteq> TCloseArr" using assms by (auto simp: parses_def)
    then obtain t q where t: "joinTokens (map fst l) = t # q" "t \<noteq> TCloseArr"
      by (rule joinTokens_head) (use False in simp)
    have "parseStep t (MElemOrEnd, FArr [] # fs) = parseStep t (MValue, FArr [] # fs)"
      using t(2) by (cases t) simp_all
    with t(1) have "runTokens (joinTokens (map fst l) @ s) (MElemOrEnd, FArr [] # fs) =
        runTokens (joinTokens (map fst l) @ s) (MValue, FArr [] # fs)" for s by simp
    with run_elements [OF assms False depth, of _ "[]"] depth show ?thesis
      by (simp add: push_def)
  qed
qed simp_all

lemma parses_object:
  assumes "\<forall>(k, ts, v) \<in> set l. parses ts v d" and "distinct (map fst l)"
  shows "parses (TOpenObj # joinTokens (map (\<lambda>(k, ts, v). TStr k # TColon # ts) l) @ [TCloseObj])
    (JObj (map (\<lambda>(k, ts, v). (k, v)) l)) (Suc d)"
  unfolding parses_def
proof (intro conjI allI impI)
  fix fs :: "frame list" and r
  assume depth: "Suc d + length fs \<le> maxDepth"
  let ?ts = "joinTokens (map (\<lambda>(k, ts, v). TStr k # TColon # ts) l)"
  show "runTokens ((TOpenObj # ?ts @ [TCloseObj]) @ r) (MValue, fs) =
    runTokens r (complete (JObj (map (\<lambda>(k, ts, v). (k, v)) l)) fs)"
  proof (cases l)
    case Nil
    with depth show ?thesis by (simp add: push_def)
  next
    case (Cons e l')
    then obtain k q where "?ts = TStr k # q" by (cases e) (simp add: joinTokens_cons)
    then have "runTokens (?ts @ s) (MKeyOrEnd, FObj [] [] # fs) = runTokens (?ts @ s) (MKey, FObj [] [] # fs)" for s
      by simp
    moreover have "l \<noteq> []" using Cons by simp
    ultimately show ?thesis
      using run_entries [OF assms(1) _ depth, of "[]" _ "[]"] assms(2) depth by (simp add: push_def)
  qed
qed simp_all

lemma tokens_parse: "plainJSON v \<Longrightarrow> parses (tokensOf v) (sortedJSON v) (depthJSON v)"
proof (induction v)
  case (JNum x)
  then obtain n where n: "x = FFin (of_int n)" "\<bar>n\<bar> < 2 ^ 53" "\<And>fmt. numberText fmt x = intText n"
    using smallInt_text [of x] by auto
  then show ?case by (simp add: parses_def parseFloat_intText del: numberText.simps)
next
  case (JArr vs)
  let ?l = "map (\<lambda>v. (tokensOf v, sortedJSON v)) vs"
  let ?d = "foldr max (map depthJSON vs) 0"
  have "\<forall>(ts, v) \<in> set ?l. parses ts v ?d"
    using JArr by (auto simp: list_all_iff intro!: parses_mono [OF _ depth_bound])
  from parses_array [OF this] show ?case by (simp add: comp_def)
next
  case (JObj es)
  let ?l = "map (\<lambda>(k, v). (k, tokensOf v, sortedJSON v)) (sort_key fst es)"
  let ?d = "foldr max (map snd (map (map_prod id depthJSON) es)) 0"
  have bound: "depthJSON v \<le> ?d" if "(k, v) \<in> set es" for k v
    using that by (intro depth_bound) force
  have "\<forall>(k, ts, v) \<in> set ?l. parses ts v ?d"
    using JObj bound by (fastforce simp: list_all_iff intro: parses_mono)
  moreover have "distinct (map fst ?l)" 
    using JObj.prems by (simp add: comp_def case_prod_beta' distinct_map inj_on_def)
  ultimately show ?case
    using parses_object [of ?l ?d]
    by (simp only: tokensOf.simps sortedJSON.simps depthJSON.simps sort_key_map map_map)
      (simp add: comp_def case_prod_beta' map_prod_def)
qed (simp_all add: parses_def)

section \<open>The round trip\<close>

lemma reads_parses:
  assumes "reads p ts" and "parses ts v d" and "d \<le> maxDepth"
  shows "parseJSON p = Some v"
proof -
  have "lexFrom LIdle p = Some ts"
    using assms(1) by (auto simp: reads_def ends_def dest!: spec [of _ "[]"])
  moreover have "runTokens ts (MValue, []) = Some v"
    using parses_run [OF assms(2), of "[]" "[]"] assms(3) by simp
  ultimately show ?thesis by (simp add: parseJSON_def)
qed

lemma encode_parse:
  assumes "plainJSON v" and "depthJSON v \<le> maxDepth"
  shows "parseJSON (encodeJSON fmt v) = Some (sortedJSON v)"
  using encode_reads [OF assms(1)] tokens_parse [OF assms(1)] assms(2) by (rule reads_parses)

end
