(* ===== verification/JsonProps.thy ===== *)
theory JsonProps
  imports JsonRoundTrip AdapterProps PluginABI
begin

text \<open>
  What the plugin writes as JSON is read back: the bodies of the requests that its plans hold, and the answers of
  failed calls.
\<close>

section \<open>The bodies of the requests\<close>

lemma asciiText_append [simp]: "asciiText (s @ t) \<longleftrightarrow> asciiText s \<and> asciiText t"
  by (simp add: asciiText_def)

lemma hexDigit_ascii: "code (hexDigit n) < 128"
proof -
  have "\<forall>c \<in> set ''0123456789abcdef''. code c < 128" by code_simp
  moreover have "n mod 16 < length ''0123456789abcdef''" by simp
  then have "hexDigit n \<in> set ''0123456789abcdef''" unfolding hexDigit_def by (rule nth_mem)
  ultimately show ?thesis by blast
qed

lemma hexEncode_ascii: "asciiText (hexEncode s)"
  by (induction s) (simp_all add: asciiText_def hexEncode_def hexByte_def hexDigit_ascii)

lemma decimal_ascii: "asciiText (decimal n)"
  by (induction n rule: decimal.induct) (subst decimal.simps, simp add: asciiText_def hexDigit_ascii)

lemma requestIDs_ascii:
  assumes "requestIDs rand = Inr ids"
  shows "asciiText (fst ids) \<and> asciiText (snd ids)"
proof -
  obtain b c where "fst ids = ''agent-'' @ joinWith ''-'' (map hexEncode [take 4 b, take 2 (drop 4 b), take 2 (drop 6 b),
      take 2 (drop 8 b), take 6 (drop 10 b)])" "snd ids = ''-'' @ decimal (unat (sessionNumber c))"
    using assms by (auto simp: requestIDs_def Let_def split: sum.splits)
  moreover have "asciiText ''agent-''" "asciiText ''-''" by (simp_all add: asciiText_def)
  ultimately show ?thesis by (simp add: decimal_ascii hexEncode_ascii del: append_Cons append.simps)
qed

lemma codexPayload_plain: "plainJSON codexPayload" "depthJSON codexPayload \<le> maxDepth"
  by (simp_all add: codexPayload_def codexModel_def validUTF8_ascii maxDepth_def)

lemma antigravityPayload_plain:
  assumes "validUTF8 project" and "validUTF8 rid" and "validUTF8 sid" and "validUTF8 model"
  shows "plainJSON (antigravityPayload model project rid sid)"
    "depthJSON (antigravityPayload model project rid sid) \<le> maxDepth"
  using assms by (simp_all add: antigravityPayload_def validUTF8_ascii maxDepth_def)

lemma activationModel_valid: "validUTF8 (activationModel grp)"
  by (simp add: activationModel_def validUTF8_ascii)


definition demoProject :: Credential where
  "demoProject = demoCred\<lparr>cred_RawJSON := encodeJSON (\<lambda>_. [])
     (JObj [(''access_token'', JStr ''t''), (''project_id'', JStr ''p'')])\<rparr>"

definition demoBucket :: "WindowRecord list" where
  "demoBucket = [zeroWindowRecord\<lparr>wr_ActivationGroup := geminiGroup,
     wr_Latest := demoWin\<lparr>qw_BucketID := ''gemini-5h'', qw_ActivationGroup := geminiGroup\<rparr>\<rparr>]"

lemma demo_project_decodes:
  "decodeObject E (cred_RawJSON demoProject) = Inr [(''access_token'', JStr ''t''), (''project_id'', JStr ''p'')]"
  using encode_parse [of "JObj [(''access_token'', JStr ''t''), (''project_id'', JStr ''p'')]" "\<lambda>_. []"]
  by (simp add: demoProject_def decodeObject_def validUTF8_ascii maxDepth_def)

lemma demo_project_fields:
  "tokenAndProject (\<lambda>_ v. v) [(''access_token'', JStr ''t''), (''project_id'', JStr ''p'')] = Inr (''t'', ''p'')"
  by code_simp

lemma demo_bucket_plan: "\<exists>plan. antigravityPlan demoAdapterEnv 0 demoProject demoBucket = Inr plan"
proof -
  have "activationGroup ''gemini-5h'' = geminiGroup" by code_simp
  then show ?thesis
    using demo_project_decodes [of demoAdapterEnv] demo_project_fields
    by (auto simp: antigravityPlan_def demoBucket_def antigravityCanActivate_def activationModel_empty groups_distinct
        demoWin_def demoAdapterEnv_def requestIDs_def Let_def)
qed


section \<open>The answer of a failed call\<close>

text \<open>
  C39: The text that answers a failed call is a JSON document, and reading it gives back the code and the message,
  whatever quotes, control characters or runes the message holds, if it is valid UTF-8.
\<close>

theorem error_answer_reads_back:
  assumes "validUTF8 errorCode" and "validUTF8 message"
  shows "parseJSON (errorEnvelope errorCode message) = Some (JObj [(''ok'', JBool False),
    (''error'', JObj [(''code'', JStr errorCode), (''message'', JStr message)])])"
proof -
  have str: "reads (stringText s) [TStr s]" "parses [TStr s] (JStr s) 0" if "validUTF8 s" for s
    using encode_reads [of "JStr s"] tokens_parse [of "JStr s"] that by simp_all
  have bool: "reads ''false'' [TWord (JBool False)]" "parses [TWord (JBool False)] (JBool False) 1"
    using reads_word [of "''false''"] by (simp_all add: wordOf_def parses_def)
  have keys: "validUTF8 ''ok''" "validUTF8 ''error''" "validUTF8 ''code''" "validUTF8 ''message''"
    by (simp_all add: validUTF8_ascii)
  let ?in = "[(''code'', [TStr errorCode], JStr errorCode), (''message'', [TStr message], JStr message)]"
  let ?inText = "''{'' @ stringText ''code'' @ '':'' @ stringText errorCode @ '','' @ stringText ''message'' @ '':'' @
    stringText message @ ''}''"
  let ?inTokens = "TOpenObj # joinTokens (map (\<lambda>(k, ts, v). TStr k # TColon # ts) ?in) @ [TCloseObj]"
  let ?inner = "JObj [(''code'', JStr errorCode), (''message'', JStr message)]"
  have r1: "reads ?inText ?inTokens"
    using reads_object [of "[(stringText ''code'' @ '':'' @ stringText errorCode, [TStr ''code'', TColon, TStr errorCode]),
        (stringText ''message'' @ '':'' @ stringText message, [TStr ''message'', TColon, TStr message])]"]
      reads_entry [OF keys(3) str(1) [OF assms(1)]] reads_entry [OF keys(4) str(1) [OF assms(2)]] by simp
  have p1: "parses ?inTokens ?inner 1"
    using parses_object [of ?in 0] str(2) [OF assms(1)] str(2) [OF assms(2)] by simp
  let ?out = "[(''ok'', [TWord (JBool False)], JBool False), (''error'', ?inTokens, ?inner)]"
  let ?tokens = "TOpenObj # joinTokens (map (\<lambda>(k, ts, v). TStr k # TColon # ts) ?out) @ [TCloseObj]"
  have "reads (errorEnvelope errorCode message) ?tokens"
    using reads_object [of "[(stringText ''ok'' @ '':'' @ ''false'', [TStr ''ok'', TColon, TWord (JBool False)]),
        (stringText ''error'' @ '':'' @ ?inText, TStr ''error'' # TColon # ?inTokens)]"]
      reads_entry [OF keys(1) bool(1)] reads_entry [OF keys(2) r1] by (simp add: errorEnvelope_def)
  moreover have "parses ?tokens (JObj [(''ok'', JBool False), (''error'', ?inner)]) (Suc 1)"
    using parses_object [of ?out 1] p1 bool(2) by simp
  ultimately show ?thesis by (rule reads_parses) (simp add: maxDepth_def)
qed

theorem error_answer_reads_back_witness:
  "parseJSON (errorEnvelope ''plugin_error'' [CHR 0x22, CHR 0x0A, CHR ''<'']) = Some (JObj [(''ok'', JBool False),
    (''error'', JObj [(''code'', JStr ''plugin_error''), (''message'', JStr [CHR 0x22, CHR 0x0A, CHR ''<''])])])"
  using error_answer_reads_back [of "''plugin_error''" "[CHR 0x22, CHR 0x0A, CHR ''<'']"] by (simp add: validUTF8_ascii)

end
