(* ===== verification/ManagementProps.thy ===== *)
theory ManagementProps
  imports RuntimeProps
begin

text \<open>
  The route that the plugin registers for its status, and what a request to that route gets.
\<close>

section \<open>Texts\<close>

lemma spaceRunes_ends: "list_all (\<lambda>r. r \<noteq> [] \<and> hd r \<noteq> CHR ''/'' \<and> last r \<noteq> CHR ''s'') spaceRunes"
  by code_simp

lemma trimSpace_path:
  assumes "s \<noteq> []" and "hd s = CHR ''/''" and "last s = CHR ''s''"
  shows "trimSpace s = s"
proof -
  have "\<not> prefix r s" "\<not> prefix (rev r) (rev s)" if "r \<in> set spaceRunes" for r
  proof -
    have r: "r \<noteq> []" "hd r \<noteq> CHR ''/''" "last r \<noteq> CHR ''s''" using spaceRunes_ends that by (auto simp: list_all_iff)
    with assms show "\<not> prefix r s" by (auto simp: prefix_def)
    from r assms show "\<not> prefix (rev r) (rev s)" by (auto simp: suffix_to_prefix [symmetric] suffix_def)
  qed
  then have "find (\<lambda>r. r \<noteq> [] \<and> prefix r s) spaceRunes = None"
    "find (\<lambda>r. r \<noteq> [] \<and> prefix r (rev s)) (map rev spaceRunes) = None"
    by (auto simp: find_None_iff)
  then show ?thesis by (simp add: trimSpace_def trimLeftOf_done)
qed

lemma trimRightChar_path: "s \<noteq> [] \<Longrightarrow> last s \<noteq> c \<Longrightarrow> trimRightChar c s = s"
  by (cases s rule: rev_cases) (simp_all add: trimRightChar_def)

lemma splitAt_parts: "p \<in> set (splitAt c s) \<Longrightarrow> c \<notin> set p"
proof (induction s arbitrary: p)
  case (Cons a s)
  then show ?case by (cases "splitAt c s") (auto split: if_splits)
qed simp

lemma trimLeftOf_subset: "set (trimLeftOf rs s) \<subseteq> set s"
  using trimLeftOf_suffix [of rs s] by (auto dest: set_mono_suffix)

lemma trimSpace_subset: "set (trimSpace s) \<subseteq> set s"
  using trimLeftOf_subset [of "map rev spaceRunes"] trimLeftOf_subset [of spaceRunes s] by (fastforce simp: trimSpace_def)

lemma pluginID_no_slash: "CHR ''/'' \<notin> set (pluginIDFromResourceBase base)"
proof -
  have "CHR ''/'' \<notin> set (last (splitAt CHR ''/'' s))" for s by (rule splitAt_parts [OF last_in_set]) simp
  then have "CHR ''/'' \<notin> set (trimSpace (last (splitAt CHR ''/'' s)))" for s using trimSpace_subset by blast
  then show ?thesis by (simp add: pluginIDFromResourceBase_def Let_def)
qed

section \<open>Routes\<close>

lemma managementRoute_cases:
  obtains (own) "managementRoute base = managementPath"
    | (named) i where "managementRoute base = ''/plugins/'' @ i @ ''/status''" "CHR ''/'' \<notin> set i"
proof (cases "pluginIDFromResourceBase base = []")
  case True
  then show ?thesis by (intro own) (simp add: managementRoute_def)
next
  case False
  then show ?thesis by (intro named [OF _ pluginID_no_slash]) (simp add: managementRoute_def Let_def)
qed

lemma managementRoute_form: "\<exists>i. managementRoute base = ''/plugins/'' @ i @ ''/status'' \<and> CHR ''/'' \<notin> set i"
proof (cases base rule: managementRoute_cases)
  case own
  moreover have "managementPath = ''/plugins/'' @ ''quota-window-activator'' @ ''/status''" by (simp add: managementPath_def)
  ultimately show ?thesis by (intro exI [of _ "''quota-window-activator''"]) simp
qed blast

lemma containsText_iff: "containsText s sub \<longleftrightarrow> (\<exists>p t. s = p @ sub @ t)"
proof
  assume "containsText s sub"
  then obtain i t where "drop i s = sub @ t" by (metis containsText_def indexOf_prefix not_None_eq prefix_def)
  then show "\<exists>p t. s = p @ sub @ t" by (metis append_take_drop_id)
next
  assume "\<exists>p t. s = p @ sub @ t"
  then show "containsText s sub" using indexOf_occurs by (force simp: containsText_def)
qed

definition slashes :: "string \<Rightarrow> nat" where
  "slashes s = length (filter (\<lambda>c. c = CHR ''/'') s)"

lemma slashes_append [simp]: "slashes (s @ t) = slashes s + slashes t"
  by (simp add: slashes_def)

lemma slashes_none: "CHR ''/'' \<notin> set s \<Longrightarrow> slashes s = 0"
  by (auto simp: slashes_def filter_empty_conv)

lemma status_path:
  assumes "m = '''' \<or> equalFold m ''get''" and "path \<noteq> []" and "hd path = CHR ''/''" and "last path = CHR ''s''"
  shows "isManagementStatusRequest \<lparr>mr_Method = m, mr_Path = path\<rparr> \<longleftrightarrow>
    path = managementPath \<or> path = ''/v0/management'' @ managementPath \<or>
    containsText path ''/v0/management/plugins/'' \<and> suffix ''/status'' path"
proof -
  have "trimRightChar CHR ''/'' (trimSpace path) = path"
    using assms trimSpace_path [OF assms(2-4)] trimRightChar_path [OF assms(2)] by simp
  with assms(1) show ?thesis by (auto simp: isManagementStatusRequest_def Let_def)
qed

lemma prefixed_route_is_status:
  assumes "m = '''' \<or> equalFold m ''get''"
  shows "isManagementStatusRequest \<lparr>mr_Method = m, mr_Path = ''/v0/management'' @ managementRoute base\<rparr>"
proof -
  obtain i where i: "managementRoute base = ''/plugins/'' @ i @ ''/status''" using managementRoute_form by blast
  have "suffix ''/status'' (''/v0/management'' @ managementRoute base)"
    unfolding i suffix_def by (rule exI [of _ "''/v0/management/plugins/'' @ i"]) simp
  moreover have "containsText (''/v0/management'' @ managementRoute base) ''/v0/management/plugins/''"
    unfolding i containsText_iff by (rule exI [of _ "[]"], rule exI [of _ "i @ ''/status''"]) simp
  ultimately show ?thesis by (subst status_path [OF assms]) (simp_all add: i)
qed

lemma bare_route_is_status:
  assumes "m = '''' \<or> equalFold m ''get''"
  shows "isManagementStatusRequest \<lparr>mr_Method = m, mr_Path = managementRoute base\<rparr> \<longleftrightarrow> managementRoute base = managementPath"
proof -
  obtain i where i: "managementRoute base = ''/plugins/'' @ i @ ''/status''" "CHR ''/'' \<notin> set i"
    using managementRoute_form by blast
  have "slashes (managementRoute base) = 3" using slashes_none [OF i(2)] by (simp add: i(1)) (simp add: slashes_def)
  moreover have "slashes ''/v0/management/plugins/'' = 4" by (simp add: slashes_def)
  ultimately have "\<not> containsText (managementRoute base) ''/v0/management/plugins/''"
    by (auto simp: containsText_iff simp del: append.simps)
  then show ?thesis by (subst status_path [OF assms]) (auto simp: i(1))
qed

text \<open>What a request for the status gets.\<close>

definition statusAnswer :: "pluginEnv \<Rightarrow> callEnv \<Rightarrow> pluginState \<Rightarrow> managementResponse" where
  "statusAnswer V c g =
     (case pg_runtime g of
        None \<Rightarrow> unavailableResponse
      | Some (r, st) \<Rightarrow> statusResponse (statusOf V r (snapshot (pf_lib (pe_platform V)) st) (cl_managementNow c)))"

text \<open>
  C40: The route that the plugin registers is the one it serves: a request with its method for its path under
  /v0/management gets the status (503 without a service), whatever the resource base was. The path without that prefix
  gets it only when it is the default one; a plugin under another name answers it with the page.
\<close>

theorem registered_route_is_served:
  assumes "handleMethod V K c (sk_ManagementRegister K) request g = (Inr (RespRoutes rts), g1)"
    and "rt \<in> set (mg_Routes rts)" and "raw \<noteq> []"
    and "sk_decodeManagement K raw = Inr \<lparr>mr_Method = re_Method rt, mr_Path = pre @ re_Path rt\<rparr>"
    and "pre = '''' \<or> pre = ''/v0/management''"
  shows "handleManagement V K c raw g2 = Inr (RespManagement
    (if pre = ''/v0/management'' \<or> re_Path rt = managementPath then statusAnswer V c g2 else pageResponse))"
proof -
  have "\<exists>base. rts = managementRegistration base"
    using assms(1) by (auto simp: handleMethod_def configureMethod_def quiesceMethod_def split: if_splits sum.splits option.splits prod.splits)
  then obtain base where rt: "re_Method rt = ''GET''" "re_Path rt = managementRoute base"
    using assms(2) by (auto simp: managementRegistration_def)
  have get: "''GET'' = '''' \<or> equalFold ''GET'' ''get''" by code_simp
  show ?thesis
    using assms(3-5) prefixed_route_is_status [OF get, of base] bare_route_is_status [OF get, of base] rt
    by (auto simp: handleManagement_def statusAnswer_def simp del: append_Cons split: option.splits)
qed

definition echoSDK :: sdk where
  "echoSDK = demoSDK\<lparr>sk_decodeManagement := (\<lambda>raw. Inr \<lparr>mr_Method = ''GET'', mr_Path = raw\<rparr>)\<rparr>"

theorem registered_route_is_served_witness:
  "handleManagement demoPlugin echoSDK (demoCallEnv True) ''/v0/management/plugins/x/status''
     \<lparr>pg_runtime = None, pg_fs = fmempty\<rparr> = Inr (RespManagement unavailableResponse)"
proof -
  have reg: "handleMethod demoPlugin echoSDK (demoCallEnv True) (sk_ManagementRegister echoSDK) '' /v0/plugins/x/''
      \<lparr>pg_runtime = None, pg_fs = fmempty\<rparr> = (Inr (RespRoutes (managementRegistration '' /v0/plugins/x/'')), \<lparr>pg_runtime = None, pg_fs = fmempty\<rparr>)"
    by (simp add: handleMethod_def echoSDK_def demoSDK_def)
  have path: "managementRoute '' /v0/plugins/x/'' = ''/plugins/x/status''" by code_simp
  show ?thesis
    using registered_route_is_served [OF reg, of _ "''/v0/management/plugins/x/status''" "''/v0/management''"] path
    by (simp add: managementRegistration_def echoSDK_def statusAnswer_def)
qed

end
