(* ===== verification/Spec2Isabelle.thy ===== *)
theory Spec2Isabelle
  imports StoreProps StateInvariant RuntimeProps Reconfigure AdapterProps ObserveProps TimeProps JsonProps ManagementProps
begin

text \<open>
  A model and proofs of the CLIProxyAPI plugin \<open>quota-window-activator\<close>. The plugin watches the
  quota windows of provider credentials and, when a window's reset time has passed without the next window
  starting (a lazy reset), sends one minimal request that starts it. What must never happen is a second
  request for the same cycle of a window, whatever crashes, fails or interleaves.

  Parts of the program and the theories that model them:

  \<^item> \<open>core/model.go\<close>: \<open>CoreModel\<close> (records, enumerations, keys, \<open>NormalizeWindows\<close>); Go's errors,
    strings, maps and times: \<open>GoBase\<close>, \<open>GoTime\<close>, \<open>GoText\<close> (UTF-8, trimming, folding), \<open>GoFloat\<close>
    (binary64, \<open>ParseFloat\<close>, conversions to \<open>int64\<close>), \<open>GoParse\<close> (RFC 3339, durations), \<open>GoJson\<close>.
  \<^item> \<open>core/store.go\<close> and \<open>store_replace_*.go\<close>: \<open>DurableStore\<close>. A file system is a map from paths to
    contents; each call of a persist can fail or be the last one before a crash (\<open>persistIO\<close>).
    \<open>StoreLaws\<close>, \<open>Durability\<close>, \<open>Restart\<close>, \<open>RefDurable\<close> and \<open>DemoLives\<close> prove what a load finds after any
    history, \<open>StoreProps\<close> states it.
  \<^item> \<open>core/controller.go\<close>: \<open>Controller\<close> (the body of every transaction, as a function on the persistent
    state) and \<open>ControllerOps\<close> (\<open>tick\<close>, \<open>recover\<close>, \<open>blockCredential\<close>, as functions on a world of store, files,
    call counter and trace). Every clock reading, network call, random number and fault is a function of the
    call counter, so a theorem that holds for every platform holds for every behaviour of the environment.
    \<open>ControlSteps\<close> abstracts the operations to a step relation, \<open>FenceSafety\<close> proves the fence over it,
    \<open>Activation\<close> the success path; \<open>Scenario\<close> and \<open>ReferenceCodec\<close> are the concrete environment of the witnesses.
  \<^item> \<open>adapters/\<close>: \<open>ProviderUtil\<close>, \<open>CodexAdapter\<close>, \<open>AntigravityAdapter\<close>, \<open>ObserveAdapters\<close> (Claude, Gemini, Kimi
    and the others that only observe), \<open>AdapterRegistry\<close>. \<open>ActivationContract\<close> is the interface the
    controller relies on, as a locale; \<open>CodexContract\<close> and \<open>AntigravityContract\<close> interpret it.
  \<^item> \<open>host/cpa/client.go\<close>: \<open>HostClient\<close>; \<open>cmd/plugin/config.go\<close>: \<open>PluginConfig\<close>; \<open>cmd/plugin/runtime.go\<close>:
    \<open>PluginRuntime\<close> (a pass is any interleaving of the goroutines' atomic actions, cut off anywhere);
    \<open>cmd/plugin/abi.go\<close> and \<open>management.go\<close>: \<open>PluginABI\<close>.
  \<^item> The composition: \<open>PassSafety\<close>, \<open>EndToEnd\<close>, \<open>PassActivation\<close>, with \<open>PluginDemo\<close> as its concrete run.

  Properties of one component each, outside this theory:

  \<^item> \<open>StateInvariant\<close>: what every operation of the controller keeps of the persistent state (records and
    attempts under their keys, windows of attempts present, launched cycles in the ledger).
  \<^item> \<open>ControllerProps\<close>: when a window joins an activation, that a reconciliation is the decision of each
    window alone, and that a window activated on its lazy baseline is not activated again.
  \<^item> \<open>RuntimeProps\<close>: registry, configuration, the pool of slots, the order of a pass, the wait for the
    next pass, the status, failed calls. \<open>Reconfigure\<close>: a run in which a reconfiguration costs a second request.
  \<^item> \<open>AdapterProps\<close>: well-typed readings, the identity of a Codex credential, Antigravity's plans, the
    tolerance test. \<open>ObserveProps\<close>: the adapters without activation.
  \<^item> \<open>TimeProps\<close>: times and durations as text, and that equal cycle identifiers are equal cycles.
  \<^item> \<open>JsonRoundTrip\<close>: the JSON parser reads what the JSON printer writes; \<open>JsonProps\<close> applies it to the bodies
    of the requests and to error answers. \<open>ManagementProps\<close>: the registered route is the served one.

  Some properties are defects of the code, shown as theorems: \<open>reconfigure_may_send_twice\<close> (the state is loaded
  before the old service is stopped), \<open>activated_cycle_blocks_lazy_windows\<close> (a lazy first observation is
  activated once and then never again), \<open>codex_identity_may_flip\<close> (the order of a map decides a fingerprint),
  \<open>unmoved_is_distance\<close> (the smallest duration has no absolute value).

  Loops are structural recursions over the collections they range over, so no fuel is needed. A range
  over a Go map takes the entries in the order of the keys where the order does not matter, and in an
  order given as an argument (\<open>mapOrder\<close>) where it does. 64-bit sequence numbers are words; durations
  wrap at 64 bits (\<open>wrap64\<close>).

  Parameters: encoding/json on the two stored types and SHA-256 (\<open>golib\<close>; \<open>ReferenceCodec\<close> is an instance that
  satisfies the hypotheses), the YAML decoder, the SDK's messages, the host. Not modelled: the C
  boundary (pointers, allocation, the exported table that \<open>cliproxy_plugin_init\<close> fills), which has no
  counterpart in values; the HTML page, a constant for the browser; the timer loop around \<open>runOnce\<close>, which
  only decides when a pass runs (every sequence of passes is covered); the JSON text of answers other
  than errors, which the encoders of the SDK's types make; file permissions.
\<close>

section \<open>At most one request for a cycle\<close>

text \<open>
  C1: Whatever sequence of ticks, recoveries and blocks runs, with any clock, network, random
  source and file-system faults, no two requests share a cycle, no request is for a cycle that
  the ledger already held, and every requested cycle is in the final ledger. The hypothesis is
  that encoding/json keeps the keys of the cycle ledger of the states that were persisted (it
  does for valid UTF-8 keys).
\<close>

theorem at_most_one_request_per_cycle:
  assumes "w_trace w = []" and "ledgerKept (pf_lib P) (stateOf w)"
    and "allKept (pf_lib P) (w_trace (runOps P xs w))"
  shows "sorted_wrt (\<lambda>x y. cyclesOf x \<inter> cyclesOf y = {}) (sends (w_trace (runOps P xs w))) \<and>
    (\<forall>x \<in> set (sends (w_trace (runOps P xs w))).
       cyclesOf x \<inter> ledgerDom (stateOf w) = {} \<and> cyclesOf x \<subseteq> ledgerDom (stateOf (runOps P xs w)))"
  using runOps_disjoint [OF assms] by blast

theorem at_most_one_request_per_cycle_witness:
  "let t = w_trace (runOps demoPlatform demoOpsList demoWorld) in
     length (sends t) = 2 \<and> sorted_wrt (\<lambda>x y. cyclesOf x \<inter> cyclesOf y = {}) (sends t)"
  using at_most_one_request_per_cycle [of demoWorld demoPlatform demoOpsList] demo_run
  by (auto simp: Let_def demoWorld_def)

section \<open>The fence precedes the request\<close>

text \<open>
  C2: For any environment, every request in the trace directly follows a persist that
  succeeded, and the state it wrote carries the fence of the request's attempt: the attempt in
  phase sending, a ledger entry for each of its cycles, each of its windows marked.
\<close>

theorem request_follows_durable_fence:
  "\<exists>evs. w_trace (runOps P xs w) = w_trace w @ evs \<and> guarded None evs"
  using ctl_steps_trace [OF runOps_steps] by blast

section \<open>What a request is for\<close>

text \<open>
  C3: Every request that a sequence of operations adds was made by one of its ticks: live (not
  dry run), with a sender, for an enabled credential that the adapter matches and can
  fingerprint, on a plan of the adapter with positive limits and a URL, and for a non-empty
  list of records each of which was found lazy and activation capable by the reading it rests
  on and carries lazy evidence or the reset of its baseline within the tolerance.
\<close>

theorem requests_are_justified:
  "\<exists>evs. w_trace (runOps P xs w) = w_trace w @ evs \<and>
     set (sends evs) \<subseteq> {(c, req, a). \<exists>x \<in> set xs. mayRequest x c req a}"
  using sends_admitted [OF runOps_steps] by fastforce

text \<open>C4: A recovery never requests an activation, whatever the files and the quota say.\<close>

theorem recover_never_sends:
  "sends (w_trace (snd (recover P C cred ad ops w))) = sends (w_trace w)"
  by (rule quiet_sends [OF recover_steps [OF surjective_pairing]])

text \<open>C5: With dry run on, a tick requests no activation.\<close>

theorem dry_run_never_sends:
  assumes "cfg_DryRun (ctl_cfg C)"
  shows "sends (w_trace (snd (tick P C cred adapter w))) = sends (w_trace w)"
proof (rule quiet_sends)
  have "ctl_steps P (permits C cred adapter) w (snd (tick P C cred adapter w))"
    by (rule tick_steps [OF surjective_pairing])
  then show "ctl_steps P quiet w (snd (tick P C cred adapter w))"
    by (rule ctl_steps_mono) (cases adapter, use assms in \<open>auto simp: justified_def\<close>)
qed

theorem dry_run_never_sends_witness:
  "sends (w_trace (snd (tick demoPlatform (demoController True) demoCred
     (Some (demoAdapter (unixTime 38000))) demoWorld))) = []"
  using dry_run_never_sends [of "demoController True" demoPlatform demoCred
      "Some (demoAdapter (unixTime 38000))" demoWorld]
  by (simp add: demoController_def demoWorld_def)

section \<open>Crashes and restarts\<close>



section \<open>Liveness\<close>



end
